theory Spec2Isabelle
  imports Main "HOL-Library.Sublist"
begin

section \<open>The deploy command of Luma (src/commands/deploy.ts)\<close>

text \<open>
  The deploy command is a sequential, effectful program: it calls git, the configuration
  loader, SSH, the docker client, the proxy client and the blue-green engine, and it
  writes to a logger. None of these collaborators is part of deploy.ts. The model makes
  every effect an event of a trace and takes the collaborators' answers from an
  environment, so that a theorem about the model holds for every behaviour of the
  collaborators.
\<close>

subsection \<open>Values\<close>

text \<open>
  A thrown value is a JavaScript \<^verbatim>\<open>Error\<close> with its message; \<^verbatim>\<open>String(e)\<close> renders it
  as the source's \<^verbatim>\<open>String(loginError)\<close> does.
\<close>

datatype error = Error string

fun String :: "error \<Rightarrow> string" where
  "String (Error m) = ''Error: '' @ m"

text \<open>
  \<^verbatim>\<open>s.includes(t)\<close> on strings (\<open>str_includes s t\<close>): \<open>t\<close> occurs in \<open>s\<close> as a contiguous run.
\<close>

fun startsWith :: "string \<Rightarrow> string \<Rightarrow> bool" where
  "startsWith s [] = True"
| "startsWith [] (c # t) = False"
| "startsWith (d # s) (c # t) = (d = c \<and> startsWith s t)"

fun str_includes :: "string \<Rightarrow> string \<Rightarrow> bool" where
  "str_includes [] t = (t = [])"
| "str_includes (c # s) t = (startsWith (c # s) t \<or> str_includes s t)"

text \<open>
  \<^verbatim>\<open>s.trim()\<close>: strings are lists of 8-bit characters here, so the white space removed is
  the ASCII white space (tab, line feed, vertical tab, form feed, carriage return, space).
\<close>

definition isWhiteSpace :: "char \<Rightarrow> bool" where
  "isWhiteSpace c = (c \<in> set [CHR 0x09, CHR 0x0A, CHR 0x0B, CHR 0x0C, CHR 0x0D, CHR '' ''])"

definition trim :: "string \<Rightarrow> string" where
  "trim s = rev (dropWhile isWhiteSpace (rev (dropWhile isWhiteSpace s)))"

text \<open>\<^verbatim>\<open>xs.join(sep)\<close> on an array of strings.\<close>

fun join :: "string list \<Rightarrow> string \<Rightarrow> string" where
  "join [] sep = []"
| "join [x] sep = x"
| "join (x # y # xs) sep = x @ sep @ join (y # xs) sep"

text \<open>
  Truthiness of an optional string (\<^verbatim>\<open>undefined\<close> and the empty string are falsy), and
  \<^verbatim>\<open>a || b\<close> on optional strings.
\<close>

fun truthy :: "string option \<Rightarrow> bool" where
  "truthy None = False"
| "truthy (Some s) = (s \<noteq> [])"

definition orElse :: "string option \<Rightarrow> string option \<Rightarrow> string option" where
  "orElse a b = (if truthy a then a else b)"

subsection \<open>Configuration (the fields of ../config/types that deploy.ts reads)\<close>

record registry_config =
  url :: "string option"
  username :: "string option"
  password_secret :: "string option"

record docker_config =
  docker_registry :: "string option"
  docker_username :: "string option"

record build_config =
  platform :: "string option"

record proxy_config =
  hosts :: "string list option"
  app_port :: "nat option"

record environment_config =
  plain :: "(string \<times> string) list option"
  secret :: "string list option"

text \<open>
  \<^verbatim>\<open>AppEntry | ServiceEntry\<close>: one record, as the source casts between the two. The field
  \<open>imageRef\<close> is the source's \<^verbatim>\<open>image\<close>. Ports and volumes are handed to the docker client
  unchanged and are left out.
\<close>

record entry =
  name :: string
  imageRef :: string
  servers :: "string list"
  build :: "build_config option"
  registry :: "registry_config option"
  proxy :: "proxy_config option"
  environment :: "environment_config option"

text \<open>
  \<^verbatim>\<open>config.apps\<close> and \<^verbatim>\<open>config.services\<close> are \<^verbatim>\<open>undefined\<close>, an array of entries, or an object
  from names to entries; the object is given by its \<^verbatim>\<open>Object.entries\<close>, in their order.
\<close>

datatype config_entries = Undefined | Array "entry list" | Object "(string \<times> entry) list"

record lumaConfig =
  config_name :: string
  apps :: config_entries
  services :: config_entries
  docker :: "docker_config option"

type_synonym lumaSecrets = "string \<rightharpoonup> string"

record deploymentContext =
  config :: lumaConfig
  secrets :: lumaSecrets
  targetEntries :: "entry list"
  releaseId :: string
  projectName :: string
  networkName :: string
  forceFlag :: bool
  deployServicesFlag :: bool
  verboseFlag :: bool

record dockerContainerOptions =
  container_name :: string
  container_image :: string
  envVars :: "(string \<times> string) list"
  network :: string
  networkAlias :: "string option"
  restart :: string

record deploymentResult =
  success :: bool
  result_error :: "string option"

subsection \<open>Effects: external calls and log lines\<close>

text \<open>
  Every call that leaves deploy.ts is a \<open>call\<close> with the arguments the claims are about:
  the host a remote docker or SSH call runs on comes first. Build, tag and push run on the
  local docker client (the static methods of \<^verbatim>\<open>DockerClient\<close>).
\<close>

datatype call =
    ExecSync string
  | GenerateReleaseId
  | LoadConfig
  | LoadSecrets
  | GetSSHCredentials string
  | SSHClientCreate string
  | SSHConnect string
  | SSHClose string
  | NetworkExists string string
  | IsProxyRunning string
  | DockerBuild string string
  | DockerTag string string
  | DockerPush string "string option"
  | DockerLogin string string string string
  | DockerLogout string string
  | PullImage string string
  | StopContainer string string
  | RemoveContainer string string
  | CreateContainer string dockerContainerOptions
  | Prune string
  | PerformBlueGreenDeployment string string string
  | ConfigureProxy string string string nat string

text \<open>
  The methods of the logger (../utils/logger). Durations (\<^verbatim>\<open>Date.now()\<close> differences) are
  left out of the log lines; the arrows and emoji of the message texts are written in
  ASCII.
\<close>

datatype logline =
    VerboseLog string
  | Warn string
  | LogError string "error option"
  | Phase string
  | StepComplete string
  | StepError string error
  | ServerLine string
  | ServerStepComplete string bool
  | ServerStepError string error bool
  | DeploymentStart string
  | DeploymentComplete "string list"
  | DeploymentFailed error

datatype event = Call call | Log logline

text \<open>
  The environment answers every external call. An answer may depend on everything that
  happened before (the trace so far is its first argument), so the same call can succeed
  once and fail later. \<open>Inl e\<close> is the call throwing \<open>e\<close>. An operation is given a
  throwing answer where the source guards it with a \<^verbatim>\<open>try\<close> of its own or where it has
  no result to report a failure with; \<^verbatim>\<open>pullImage\<close>, \<^verbatim>\<open>createContainer\<close> and
  \<^verbatim>\<open>performBlueGreenDeployment\<close> report a failure by their result, which is what the
  source tests, and \<^verbatim>\<open>close\<close> and the logger do not fail.
\<close>

record env =
  execSync :: "event list \<Rightarrow> string \<Rightarrow> error + string"
  generateReleaseId :: "event list \<Rightarrow> string"
  getProjectNetworkName :: "string \<Rightarrow> string"
  loadConfig :: "event list \<Rightarrow> error + lumaConfig"
  loadSecrets :: "event list \<Rightarrow> error + lumaSecrets"
  getSSHCredentials :: "event list \<Rightarrow> string \<Rightarrow> error + unit"
  sshClientCreate :: "event list \<Rightarrow> string \<Rightarrow> error + unit"
  sshConnect :: "event list \<Rightarrow> string \<Rightarrow> error + unit"
  networkExists :: "event list \<Rightarrow> string \<Rightarrow> string \<Rightarrow> error + bool"
  isProxyRunning :: "event list \<Rightarrow> string \<Rightarrow> error + bool"
  dockerBuild :: "event list \<Rightarrow> string \<Rightarrow> string \<Rightarrow> error + unit"
  dockerTag :: "event list \<Rightarrow> string \<Rightarrow> string \<Rightarrow> error + unit"
  dockerPush :: "event list \<Rightarrow> string \<Rightarrow> string option \<Rightarrow> error + unit"
  dockerLogin :: "event list \<Rightarrow> string \<Rightarrow> string \<Rightarrow> string \<Rightarrow> string \<Rightarrow> error + unit"
  dockerLogout :: "event list \<Rightarrow> string \<Rightarrow> string \<Rightarrow> error + unit"
  pullImage :: "event list \<Rightarrow> string \<Rightarrow> string \<Rightarrow> bool"
  stopContainer :: "event list \<Rightarrow> string \<Rightarrow> string \<Rightarrow> error + unit"
  removeContainer :: "event list \<Rightarrow> string \<Rightarrow> string \<Rightarrow> error + unit"
  createContainer :: "event list \<Rightarrow> string \<Rightarrow> dockerContainerOptions \<Rightarrow> bool"
  dockerPrune :: "event list \<Rightarrow> string \<Rightarrow> error + unit"
  performBlueGreenDeployment :: "event list \<Rightarrow> string \<Rightarrow> string \<Rightarrow> string \<Rightarrow> deploymentResult"
  configureProxy :: "event list \<Rightarrow> string \<Rightarrow> string \<Rightarrow> string \<Rightarrow> nat \<Rightarrow> string \<Rightarrow> error + bool"

subsection \<open>Sequencing\<close>

text \<open>
  An asynchronous function of the source is a \<open>run\<close>: given the trace so far it yields
  the events it adds and either the value it returns (\<open>Inr\<close>) or the error it throws
  (\<open>Inl\<close>). \<open>andThen\<close> is \<^verbatim>\<open>await\<close> followed by the rest of the block, \<open>try_catch\<close> is
  \<^verbatim>\<open>try { } catch (e) { }\<close>, \<open>for_each\<close> is a \<^verbatim>\<open>for ... of\<close> loop whose body awaits.
\<close>

type_synonym 'a run = "event list \<Rightarrow> event list \<times> (error + 'a)"

definition ret :: "'a \<Rightarrow> 'a run" where
  "ret a h = ([], Inr a)"

definition throw :: "error \<Rightarrow> 'a run" where
  "throw e h = ([], Inl e)"

definition emit :: "logline \<Rightarrow> unit run" where
  "emit l h = ([Log l], Inr ())"

definition await :: "call \<Rightarrow> (event list \<Rightarrow> error + 'a) \<Rightarrow> 'a run" where
  "await c answer h = ([Call c], answer h)"

definition andThen :: "'a run \<Rightarrow> ('a \<Rightarrow> 'b run) \<Rightarrow> 'b run" where
  "andThen m f h =
     (case m h of
        (es, Inl e) \<Rightarrow> (es, Inl e)
      | (es, Inr a) \<Rightarrow> (case f a (h @ es) of (es', r) \<Rightarrow> (es @ es', r)))"

definition seq :: "unit run \<Rightarrow> 'b run \<Rightarrow> 'b run" where
  "seq m n = andThen m (\<lambda>_. n)"

definition try_catch :: "'a run \<Rightarrow> (error \<Rightarrow> 'a run) \<Rightarrow> 'a run" where
  "try_catch m handler h =
     (case m h of
        (es, Inl e) \<Rightarrow> (case handler e (h @ es) of (es', r) \<Rightarrow> (es @ es', r))
      | (es, Inr a) \<Rightarrow> (es, Inr a))"

fun for_each :: "'a list \<Rightarrow> ('a \<Rightarrow> unit run) \<Rightarrow> unit run" where
  "for_each [] body = ret ()"
| "for_each (x # xs) body = seq (body x) (for_each xs body)"

text \<open>A synchronous function that only logs: the lines it logs and its value.\<close>

definition sync :: "event list \<times> 'a \<Rightarrow> 'a run" where
  "sync p h = (fst p, Inr (snd p))"

text \<open>
  Optional chaining \<^verbatim>\<open>r?.f\<close>, \<^verbatim>\<open>a || "default"\<close> with a string default, and the string of
  an optional string that has been tested truthy.
\<close>

definition chain :: "'r option \<Rightarrow> ('r \<Rightarrow> 'a option) \<Rightarrow> 'a option" where
  "chain r f = (case r of None \<Rightarrow> None | Some x \<Rightarrow> f x)"

definition orDefault :: "string option \<Rightarrow> string \<Rightarrow> string" where
  "orDefault a d = (case a of None \<Rightarrow> d | Some s \<Rightarrow> if s \<noteq> [] then s else d)"

definition strOf :: "string option \<Rightarrow> string" where
  "strOf a = (case a of None \<Rightarrow> [] | Some s \<Rightarrow> s)"

text \<open>A number in a template string: its decimal digits.\<close>

fun showNat :: "nat \<Rightarrow> string" where
  "showNat n =
     (if n < 10 then [char_of (48 + n)]
      else showNat (n div 10) @ [char_of (48 + n mod 10)])"

subsection \<open>Environment variables and container options\<close>

text \<open>
  A parameter or local variable of the source whose name is also a field name of one of
  the records above is renamed: \<open>cfg\<close> for \<^verbatim>\<open>config\<close>, \<open>secretMap\<close> for \<^verbatim>\<open>secrets\<close>,
  \<open>project\<close> for \<^verbatim>\<open>projectName\<close>, \<open>netName\<close> for \<^verbatim>\<open>networkName\<close>, \<open>release\<close> for
  \<^verbatim>\<open>releaseId\<close>, \<open>targets\<close> for \<^verbatim>\<open>targetEntries\<close>, \<open>force\<close>, \<open>deployServices\<close> and
  \<open>verbose\<close> for the three flags.
\<close>

text \<open>\<^verbatim>\<open>envVars[key] = value\<close> on an object whose keys are kept in insertion order.\<close>

fun assign :: "string \<Rightarrow> string \<Rightarrow> (string \<times> string) list \<Rightarrow> (string \<times> string) list" where
  "assign k v [] = [(k, v)]"
| "assign k v ((k', v') # xs) = (if k' = k then (k, v) # xs else (k', v') # assign k v xs)"

fun resolveSecretKeys ::
  "string \<Rightarrow> lumaSecrets \<Rightarrow> string list \<Rightarrow> (string \<times> string) list
     \<Rightarrow> event list \<times> (string \<times> string) list" where
  "resolveSecretKeys entryName secretMap [] vars = ([], vars)"
| "resolveSecretKeys entryName secretMap (secretKey # keys) vars =
     (case secretMap secretKey of
        Some v \<Rightarrow> resolveSecretKeys entryName secretMap keys (assign secretKey v vars)
      | None \<Rightarrow>
          (case resolveSecretKeys entryName secretMap keys vars of
             (ws, vars') \<Rightarrow>
               (Log (Warn (''Secret key \"'' @ secretKey @ ''\" for entry \"'' @ entryName
                    @ ''\" not found in loaded secrets'')) # ws, vars')))"

definition resolveEnvironmentVariables ::
  "entry \<Rightarrow> lumaSecrets \<Rightarrow> event list \<times> (string \<times> string) list" where
  "resolveEnvironmentVariables entry secretMap =
     (let plainVars =
            (case chain (environment entry) plain of
               None \<Rightarrow> []
             | Some kvs \<Rightarrow> foldl (\<lambda>acc (k, v). assign k v acc) [] kvs);
          secretKeys = (case chain (environment entry) secret of None \<Rightarrow> [] | Some keys \<Rightarrow> keys)
      in resolveSecretKeys (name entry) secretMap secretKeys plainVars)"

definition serviceEntryToContainerOptions ::
  "env \<Rightarrow> entry \<Rightarrow> lumaSecrets \<Rightarrow> string \<Rightarrow> event list \<times> dockerContainerOptions" where
  "serviceEntryToContainerOptions env serviceEntry secretMap project =
     (case resolveEnvironmentVariables serviceEntry secretMap of
        (ws, vars) \<Rightarrow>
          (ws, \<lparr>container_name = name serviceEntry,
                container_image = imageRef serviceEntry,
                envVars = vars,
                network = getProjectNetworkName env project,
                networkAlias = None,
                restart = ''unless-stopped''\<rparr>))"

subsection \<open>Arguments, workspace check, configuration\<close>

fun normalizeConfigEntries :: "config_entries \<Rightarrow> entry list" where
  "normalizeConfigEntries Undefined = []"
| "normalizeConfigEntries (Array entries) = entries"
| "normalizeConfigEntries (Object kvs) = map (\<lambda>(n, entry). entry\<lparr>name := n\<rparr>) kvs"

text \<open>The result is \<^verbatim>\<open>{ entryNames, forceFlag, deployServicesFlag, verboseFlag }\<close>.\<close>

definition parseDeploymentArgs :: "string list \<Rightarrow> string list \<times> bool \<times> bool \<times> bool" where
  "parseDeploymentArgs rawEntryNamesAndFlags =
     (filter (\<lambda>n. n \<noteq> ''--services'' \<and> n \<noteq> ''--force'' \<and> n \<noteq> ''--verbose'')
        rawEntryNamesAndFlags,
      ''--force'' \<in> set rawEntryNamesAndFlags,
      ''--services'' \<in> set rawEntryNamesAndFlags,
      ''--verbose'' \<in> set rawEntryNamesAndFlags)"

definition hasUncommittedChanges :: "env \<Rightarrow> bool run" where
  "hasUncommittedChanges env =
     try_catch
       (andThen
          (await (ExecSync ''git status --porcelain'')
             (\<lambda>h. execSync env h ''git status --porcelain''))
          (\<lambda>status. ret (length (trim status) > 0)))
       (\<lambda>e. seq (emit (VerboseLog
                 ''Failed to check git status. Assuming no uncommitted changes.''))
               (ret False))"

definition checkUncommittedChanges :: "env \<Rightarrow> bool \<Rightarrow> unit run" where
  "checkUncommittedChanges env force =
     (if force then ret ()
      else andThen (hasUncommittedChanges env)
        (\<lambda>dirty.
           if dirty then
             seq (emit (LogError
                    (''Uncommitted changes detected in working directory. Deployment aborted for safety.''
                     @ [CHR 0x0A]
                     @ ''Please commit your changes before deploying, or use --force to deploy anyway.'')
                    None))
                 (throw (Error ''Uncommitted changes detected''))
           else ret ()))"

definition loadConfigurationAndSecrets :: "env \<Rightarrow> (lumaConfig \<times> lumaSecrets) run" where
  "loadConfigurationAndSecrets env =
     try_catch
       (andThen (await LoadConfig (loadConfig env))
          (\<lambda>cfg. andThen (await LoadSecrets (loadSecrets env))
             (\<lambda>secretMap. ret (cfg, secretMap))))
       (\<lambda>e. seq (emit (LogError ''Failed to load configuration/secrets'' (Some e))) (throw e))"

subsection \<open>Target resolution\<close>

text \<open>
  The \<^verbatim>\<open>entryNames.forEach\<close> of identifyTargetEntries, which the source writes once for
  services and once for apps; \<open>kind\<close> is the word that differs in the warning.
\<close>

fun lookupEntries :: "string \<Rightarrow> entry list \<Rightarrow> string list \<Rightarrow> event list \<times> entry list" where
  "lookupEntries kind configured [] = ([], [])"
| "lookupEntries kind configured (n # names) =
     (case lookupEntries kind configured names of
        (ws, found) \<Rightarrow>
          (case find (\<lambda>s. name s = n) configured of
             Some s \<Rightarrow> (ws, s # found)
           | None \<Rightarrow>
               (Log (Warn (kind @ '' \"'' @ n @ ''\" not found in configuration'')) # ws, found)))"

definition identifyTargetEntries ::
  "string list \<Rightarrow> bool \<Rightarrow> lumaConfig \<Rightarrow> event list \<times> entry list" where
  "identifyTargetEntries entryNames deployServices cfg =
     (let configuredApps = normalizeConfigEntries (apps cfg);
          configuredServices = normalizeConfigEntries (services cfg)
      in
        if deployServices then
          (if entryNames = [] then
             (if configuredServices = [] then
                ([Log (Warn ''No services found in configuration'')], [])
              else ([], configuredServices))
           else
             (case lookupEntries ''Service'' configuredServices entryNames of
                (ws, found) \<Rightarrow>
                  if found = [] then
                    (ws @ [Log (Warn ''No valid services found for specified names'')], [])
                  else (ws, found)))
        else
          (if entryNames = [] then
             (if configuredApps = [] then
                ([Log (Warn ''No apps found in configuration'')], [])
              else ([], configuredApps))
           else
             (case lookupEntries ''App'' configuredApps entryNames of
                (ws, found) \<Rightarrow>
                  if found = [] then
                    (ws @ [Log (Warn ''No valid apps found for specified names'')], [])
                  else (ws, found))))"

text \<open>
  Names for stating what identifyTargetEntries computes: the configured entries of the
  selected kind, and the two warnings of the lookup.
\<close>

definition configuredEntries :: "bool \<Rightarrow> lumaConfig \<Rightarrow> entry list" where
  "configuredEntries deployServices cfg =
     normalizeConfigEntries (if deployServices then services cfg else apps cfg)"

definition notFoundWarning :: "bool \<Rightarrow> string \<Rightarrow> event" where
  "notFoundWarning deployServices n =
     Log (Warn ((if deployServices then ''Service'' else ''App'') @ '' \"'' @ n
        @ ''\" not found in configuration''))"

definition noValidWarning :: "bool \<Rightarrow> event" where
  "noValidWarning deployServices =
     Log (Warn (if deployServices then ''No valid services found for specified names''
                else ''No valid apps found for specified names''))"

subsection \<open>Infrastructure verification\<close>

text \<open>
  \<^verbatim>\<open>allTargetServers\<close> is a JavaScript \<^verbatim>\<open>Set\<close>: \<open>setAdd\<close> keeps the first occurrence of a
  host, in insertion order, which is the order the \<^verbatim>\<open>for ... of\<close> loop visits.
\<close>

definition setAdd :: "string list \<Rightarrow> string \<Rightarrow> string list" where
  "setAdd xs x = (if x \<in> set xs then xs else xs @ [x])"

definition allTargetServers :: "entry list \<Rightarrow> string list" where
  "allTargetServers targets = foldl (\<lambda>acc entry. foldl setAdd acc (servers entry)) [] targets"

text \<open>
  One iteration of the loop over the hosts. The two arrays \<^verbatim>\<open>missingNetworkServers\<close> and
  \<^verbatim>\<open>missingProxyServers\<close> are mutated inside the \<^verbatim>\<open>try\<close>, so the iteration takes and returns
  them; a push made before a later call throws is kept, as in the source. The
  \<^verbatim>\<open>finally\<close> closes the session when \<^verbatim>\<open>SSHClient.create\<close> had returned one.
\<close>

definition verifyServer ::
  "env \<Rightarrow> string \<Rightarrow> string \<Rightarrow> string list \<times> string list \<Rightarrow> event list
     \<Rightarrow> event list \<times> (string list \<times> string list)" where
  "verifyServer env netName serverHostname missing h =
     (case missing of
        (missingNetworkServers, missingProxyServers) \<Rightarrow>
          let caught = (\<lambda>networkError.
                 [Log (VerboseLog (''Error verifying '' @ serverHostname @ '': ''
                    @ String networkError))]);
              closed = [Call (SSHClose serverHostname)];
              e1 = [Call (GetSSHCredentials serverHostname)];
              e2 = e1 @ [Call (SSHClientCreate serverHostname)];
              e3 = e2 @ [Call (SSHConnect serverHostname)];
              e4 = e3 @ [Call (NetworkExists serverHostname netName)];
              e5 = e4 @ [Call (IsProxyRunning serverHostname)]
          in
          case getSSHCredentials env h serverHostname of
            Inl e \<Rightarrow>
              (e1 @ caught e,
               (missingNetworkServers @ [serverHostname], missingProxyServers @ [serverHostname]))
          | Inr _ \<Rightarrow>
          (case sshClientCreate env (h @ e1) serverHostname of
            Inl e \<Rightarrow>
              (e2 @ caught e,
               (missingNetworkServers @ [serverHostname], missingProxyServers @ [serverHostname]))
          | Inr _ \<Rightarrow>
          (case sshConnect env (h @ e2) serverHostname of
            Inl e \<Rightarrow>
              (e3 @ caught e @ closed,
               (missingNetworkServers @ [serverHostname], missingProxyServers @ [serverHostname]))
          | Inr _ \<Rightarrow>
          (case networkExists env (h @ e3) serverHostname netName of
            Inl e \<Rightarrow>
              (e4 @ caught e @ closed,
               (missingNetworkServers @ [serverHostname], missingProxyServers @ [serverHostname]))
          | Inr exists \<Rightarrow>
          (let missingNetworkServers' =
                 (if \<not> exists then missingNetworkServers @ [serverHostname]
                  else missingNetworkServers)
           in
           case isProxyRunning env (h @ e4) serverHostname of
            Inl e \<Rightarrow>
              (e5 @ caught e @ closed,
               (missingNetworkServers' @ [serverHostname], missingProxyServers @ [serverHostname]))
          | Inr proxyRunning \<Rightarrow>
              (e5 @ closed,
               (missingNetworkServers',
                if \<not> proxyRunning then missingProxyServers @ [serverHostname]
                else missingProxyServers)))))))"

fun verifyServers ::
  "env \<Rightarrow> string \<Rightarrow> string list \<Rightarrow> string list \<times> string list \<Rightarrow> event list
     \<Rightarrow> event list \<times> (string list \<times> string list)" where
  "verifyServers env netName [] missing h = ([], missing)"
| "verifyServers env netName (serverHostname # rest) missing h =
     (case verifyServer env netName serverHostname missing h of
        (es, missing') \<Rightarrow>
          (case verifyServers env netName rest missing' (h @ es) of
             (es', missing'') \<Rightarrow> (es @ es', missing'')))"

definition verifyInfrastructure :: "env \<Rightarrow> entry list \<Rightarrow> string \<Rightarrow> unit run" where
  "verifyInfrastructure env targets netName =
     seq (emit (VerboseLog (''Checking infrastructure on servers: ''
            @ join (allTargetServers targets) '', '')))
       (\<lambda>h. case verifyServers env netName (allTargetServers targets) ([], []) h of
          (es, (missingNetworkServers, missingProxyServers)) \<Rightarrow>
            if missingNetworkServers \<noteq> [] \<or> missingProxyServers \<noteq> [] then
              (es
               @ (if missingNetworkServers \<noteq> [] then
                    [Log (LogError (''Required network \"'' @ netName
                       @ ''\" is missing on servers: '' @ join missingNetworkServers '', '') None)]
                  else [])
               @ (if missingProxyServers \<noteq> [] then
                    [Log (LogError (''Required luma-proxy container is not running on servers: ''
                       @ join missingProxyServers '', '') None)]
                  else [])
               @ [Log (LogError ''Please run `luma setup` to create the required infrastructure''
                    None)],
               Inl (Error ''Infrastructure verification failed''))
            else (es, Inr ()))"

subsection \<open>Registry authentication and pull\<close>

definition establishSSHConnection :: "env \<Rightarrow> string \<Rightarrow> unit run" where
  "establishSSHConnection env serverHostname =
     seq (await (GetSSHCredentials serverHostname) (\<lambda>h. getSSHCredentials env h serverHostname))
    (seq (await (SSHClientCreate serverHostname) (\<lambda>h. sshClientCreate env h serverHostname))
    (seq (await (SSHConnect serverHostname) (\<lambda>h. sshConnect env h serverHostname))
         (emit (VerboseLog (''SSH connection established to '' @ serverHostname)))))"

definition performRegistryLogin :: "env \<Rightarrow> string \<Rightarrow> string \<Rightarrow> string \<Rightarrow> string \<Rightarrow> unit run" where
  "performRegistryLogin env serverHostname reg user password =
     try_catch
       (seq (await (DockerLogin serverHostname reg user password)
               (\<lambda>h. dockerLogin env h serverHostname reg user password))
            (emit (VerboseLog ''Successfully logged into registry'')))
       (\<lambda>loginError.
          let errorMessage = String loginError in
          if str_includes errorMessage ''WARNING! Your password will be stored unencrypted''
          then emit (VerboseLog ''Successfully logged into registry'')
          else emit (LogError ''Failed to login to registry'' (Some loginError)))"

text \<open>
  The docker client of the source is bound to one host; \<open>serverHostname\<close> stands for it.
  The first step yields the source's flag \<^verbatim>\<open>registryLoginPerformed\<close>.
\<close>

definition authenticateAndPullImage ::
  "env \<Rightarrow> entry \<Rightarrow> string \<Rightarrow> deploymentContext \<Rightarrow> string \<Rightarrow> unit run" where
  "authenticateAndPullImage env entry serverHostname context imageToPull =
     (let globalRegistryConfig = docker (config context);
          entryRegistry = registry entry;
          imageRegistry =
            orDefault (orElse (chain entryRegistry url) (chain globalRegistryConfig docker_registry))
              ''docker.io''
      in
      andThen
        (if truthy (chain entryRegistry username) \<and> truthy (chain entryRegistry password_secret)
         then
           (let password = secrets context (strOf (chain entryRegistry password_secret)) in
            if truthy password then
              seq (performRegistryLogin env serverHostname imageRegistry
                     (strOf (chain entryRegistry username)) (strOf password))
                  (ret True)
            else ret False)
         else if truthy (chain globalRegistryConfig docker_username)
                 \<and> truthy (secrets context ''DOCKER_REGISTRY_PASSWORD'')
         then
           seq (performRegistryLogin env serverHostname imageRegistry
                  (strOf (chain globalRegistryConfig docker_username))
                  (strOf (secrets context ''DOCKER_REGISTRY_PASSWORD'')))
               (ret True)
         else ret False)
        (\<lambda>registryLoginPerformed.
           seq (emit (VerboseLog (''Pulling image '' @ imageToPull @ ''...'')))
          (andThen
             (await (PullImage serverHostname imageToPull)
                (\<lambda>h. Inr (pullImage env h serverHostname imageToPull)))
             (\<lambda>pullSuccess.
                seq (if registryLoginPerformed then
                       await (DockerLogout serverHostname imageRegistry)
                         (\<lambda>h. dockerLogout env h serverHostname imageRegistry)
                     else ret ())
                    (if \<not> pullSuccess then
                       throw (Error (''Failed to pull image '' @ imageToPull))
                     else ret ())))))"

subsection \<open>Build and push (local)\<close>

definition buildOrTagAppImage :: "env \<Rightarrow> entry \<Rightarrow> string \<Rightarrow> bool run" where
  "buildOrTagAppImage env appEntry imageNameWithRelease =
     (case build appEntry of
        Some b \<Rightarrow>
          seq (emit (VerboseLog (''Building app '' @ name appEntry @ ''...'')))
            (try_catch
               (let buildPlatform = orDefault (platform b) ''linux/amd64'' in
                seq (if \<not> truthy (platform b) then
                       emit (VerboseLog (''No platform specified, defaulting to '' @ buildPlatform))
                     else ret ())
               (seq (await (DockerBuild imageNameWithRelease buildPlatform)
                       (\<lambda>h. dockerBuild env h imageNameWithRelease buildPlatform))
               (seq (emit (VerboseLog (''Successfully built and tagged '' @ imageNameWithRelease)))
                    (ret True))))
               (\<lambda>e. seq (emit (LogError (''Failed to build app '' @ name appEntry) (Some e)))
                       (ret False)))
      | None \<Rightarrow>
          seq (emit (VerboseLog (''Tagging '' @ imageRef appEntry @ '' as ''
                 @ imageNameWithRelease @ ''...'')))
            (try_catch
               (seq (await (DockerTag (imageRef appEntry) imageNameWithRelease)
                       (\<lambda>h. dockerTag env h (imageRef appEntry) imageNameWithRelease))
               (seq (emit (VerboseLog (''Successfully tagged '' @ imageRef appEntry @ '' as ''
                       @ imageNameWithRelease)))
                    (ret True)))
               (\<lambda>e. seq (emit (LogError (''Failed to tag pre-built image '' @ imageRef appEntry)
                          (Some e)))
                       (ret False))))"

definition pushAppImage :: "env \<Rightarrow> entry \<Rightarrow> string \<Rightarrow> lumaConfig \<Rightarrow> unit run" where
  "pushAppImage env appEntry imageNameWithRelease cfg =
     seq (emit (VerboseLog (''Pushing image '' @ imageNameWithRelease @ ''...'')))
       (try_catch
          (let registryToPush =
                 orElse (chain (registry appEntry) url) (chain (docker cfg) docker_registry)
           in
           seq (await (DockerPush imageNameWithRelease registryToPush)
                  (\<lambda>h. dockerPush env h imageNameWithRelease registryToPush))
               (emit (VerboseLog (''Successfully pushed '' @ imageNameWithRelease))))
          (\<lambda>e. seq (emit (LogError (''Failed to push image '' @ imageNameWithRelease) (Some e)))
                  (throw e)))"

definition buildAndPushApp :: "env \<Rightarrow> entry \<Rightarrow> deploymentContext \<Rightarrow> unit run" where
  "buildAndPushApp env appEntry context =
     (let imageNameWithRelease = imageRef appEntry @ '':'' @ releaseId context in
      try_catch
        (andThen (buildOrTagAppImage env appEntry imageNameWithRelease)
           (\<lambda>imageReady.
              if \<not> imageReady then throw (Error ''Image build failed'')
              else
                seq (pushAppImage env appEntry imageNameWithRelease (config context))
                    (emit (StepComplete (name appEntry @ '' -> '' @ imageNameWithRelease)))))
        (\<lambda>e. seq (emit (StepError (name appEntry @ '' -> '' @ imageNameWithRelease) e))
                (throw e)))"

definition buildImageName :: "entry \<Rightarrow> string \<Rightarrow> string" where
  "buildImageName appEntry release = imageRef appEntry @ '':'' @ release"

subsection \<open>Deploying an app to its servers\<close>

definition configureProxyForApp :: "env \<Rightarrow> entry \<Rightarrow> string \<Rightarrow> string \<Rightarrow> unit run" where
  "configureProxyForApp env appEntry serverHostname project =
     (case chain (proxy appEntry) hosts of
        None \<Rightarrow> ret ()
      | Some [] \<Rightarrow> ret ()
      | Some (host0 # others) \<Rightarrow>
          seq (emit (VerboseLog (''Configuring luma-proxy for '' @ name appEntry)))
            (let appPort =
                   (case chain (proxy appEntry) app_port of
                      None \<Rightarrow> 80
                    | Some port \<Rightarrow> if port = 0 then 80 else port)
             in
             for_each (host0 # others)
               (\<lambda>host.
                  try_catch
                    (andThen
                       (await (ConfigureProxy serverHostname host (name appEntry) appPort project)
                          (\<lambda>h. configureProxy env h serverHostname host (name appEntry) appPort
                                 project))
                       (\<lambda>configSuccess.
                          if \<not> configSuccess then
                            emit (LogError (''Failed to configure proxy for host '' @ host) None)
                          else
                            emit (VerboseLog (''Configured proxy for '' @ host @ '' -> ''
                              @ name appEntry @ '':'' @ showNat appPort))))
                    (\<lambda>proxyError.
                       emit (LogError (''Error configuring proxy for host '' @ host)
                         (Some proxyError))))))"

text \<open>
  \<^verbatim>\<open>serverStepComplete\<close> is called without its last argument for the first two steps;
  the model writes \<open>False\<close> there.
\<close>

definition deployAppToServer ::
  "env \<Rightarrow> entry \<Rightarrow> string \<Rightarrow> deploymentContext \<Rightarrow> bool \<Rightarrow> unit run" where
  "deployAppToServer env appEntry serverHostname context isLastServer =
     try_catch
       (seq (emit (VerboseLog (''Deploying '' @ name appEntry @ '' to '' @ serverHostname)))
       (seq (establishSSHConnection env serverHostname)
       (let imageNameWithRelease = buildImageName appEntry (releaseId context) in
        seq (authenticateAndPullImage env appEntry serverHostname context imageNameWithRelease)
       (seq (emit (ServerStepComplete ''Pulling image'' False))
       (andThen
          (await (PerformBlueGreenDeployment serverHostname (name appEntry) (releaseId context))
             (\<lambda>h. Inr (performBlueGreenDeployment env h serverHostname (name appEntry)
                         (releaseId context))))
          (\<lambda>deploymentResult.
             if \<not> success deploymentResult then
               seq (await (SSHClose serverHostname) (\<lambda>h. Inr ()))
                   (throw (Error (orDefault (result_error deploymentResult) ''Deployment failed'')))
             else
               seq (emit (ServerStepComplete ''Zero-downtime deployment'' False))
              (seq (configureProxyForApp env appEntry serverHostname (projectName context))
              (seq (emit (ServerStepComplete ''Configuring proxy'' isLastServer))
                   (await (SSHClose serverHostname) (\<lambda>h. Inr ()))))))))))
       (\<lambda>e. seq (emit (ServerStepError serverHostname e isLastServer)) (throw e))"

text \<open>
  The loop \<^verbatim>\<open>for (let i = 0; i < servers.length; i++)\<close>, from index \<open>i\<close> on; \<^verbatim>\<open>isLastServer\<close>
  is \<^verbatim>\<open>i === servers.length - 1\<close>, written \<open>Suc i = length (servers appEntry)\<close>.
\<close>

fun deployAppToServersFrom ::
  "env \<Rightarrow> entry \<Rightarrow> deploymentContext \<Rightarrow> nat \<Rightarrow> string list \<Rightarrow> unit run" where
  "deployAppToServersFrom env appEntry context i [] = ret ()"
| "deployAppToServersFrom env appEntry context i (serverHostname # rest) =
     seq (deployAppToServer env appEntry serverHostname context
            (Suc i = length (servers appEntry)))
         (deployAppToServersFrom env appEntry context (Suc i) rest)"

definition deployAppToServers :: "env \<Rightarrow> entry \<Rightarrow> deploymentContext \<Rightarrow> unit run" where
  "deployAppToServers env appEntry context =
     seq (emit (ServerLine (join (servers appEntry) '', '')))
         (deployAppToServersFrom env appEntry context 0 (servers appEntry))"

subsection \<open>Replacing a service\<close>

definition replaceServiceContainer ::
  "env \<Rightarrow> entry \<Rightarrow> string \<Rightarrow> deploymentContext \<Rightarrow> unit run" where
  "replaceServiceContainer env serviceEntry serverHostname context =
     (let containerName = name serviceEntry in
      seq (try_catch
             (seq (await (StopContainer serverHostname containerName)
                     (\<lambda>h. stopContainer env h serverHostname containerName))
                  (await (RemoveContainer serverHostname containerName)
                     (\<lambda>h. removeContainer env h serverHostname containerName)))
             (\<lambda>e. emit (Warn (''Error stopping/removing old service container on ''
                      @ serverHostname @ '': '' @ String e))))
     (andThen
        (sync (serviceEntryToContainerOptions env serviceEntry (secrets context)
                 (projectName context)))
        (\<lambda>serviceContainerOptions.
           seq (emit (VerboseLog (''Starting new service container '' @ containerName
                  @ '' on '' @ serverHostname)))
          (andThen
             (await (CreateContainer serverHostname serviceContainerOptions)
                (\<lambda>h. Inr (createContainer env h serverHostname serviceContainerOptions)))
             (\<lambda>createSuccess.
                if \<not> createSuccess then
                  throw (Error (''Failed to create container '' @ containerName))
                else ret ())))))"

text \<open>
  \<^verbatim>\<open>try { } catch { } finally { }\<close> of deployServiceToServer: \<^verbatim>\<open>sshClient\<close> is assigned only
  when establishSSHConnection returns, so the \<^verbatim>\<open>finally\<close> closes the session exactly then,
  after the \<^verbatim>\<open>catch\<close> has logged. \<open>attempt m handler rest\<close> runs \<open>m\<close>, then \<open>handler\<close> if
  \<open>m\<close> threw and \<open>rest\<close> if it returned.
\<close>

definition attempt :: "'a run \<Rightarrow> (error \<Rightarrow> 'b run) \<Rightarrow> ('a \<Rightarrow> 'b run) \<Rightarrow> 'b run" where
  "attempt m handler rest h =
     (case m h of
        (es, Inl e) \<Rightarrow> (case handler e (h @ es) of (es', r) \<Rightarrow> (es @ es', r))
      | (es, Inr a) \<Rightarrow> (case rest a (h @ es) of (es', r) \<Rightarrow> (es @ es', r)))"

definition deployServiceToServer ::
  "env \<Rightarrow> entry \<Rightarrow> string \<Rightarrow> deploymentContext \<Rightarrow> unit run" where
  "deployServiceToServer env serviceEntry serverHostname context =
     (let caught = (\<lambda>serverError.
            emit (LogError (''Failed to deploy service '' @ name serviceEntry @ '' to ''
              @ serverHostname) (Some serverError)))
      in
      seq (emit (VerboseLog (''Deploying service '' @ name serviceEntry @ '' to server ''
             @ serverHostname)))
        (attempt (establishSSHConnection env serverHostname) caught
           (\<lambda>sshClient.
              seq (try_catch
                     (seq (authenticateAndPullImage env serviceEntry serverHostname context
                             (imageRef serviceEntry))
                     (seq (replaceServiceContainer env serviceEntry serverHostname context)
                     (seq (emit (VerboseLog (''Pruning Docker resources on ''
                             @ serverHostname)))
                     (seq (await (Prune serverHostname)
                             (\<lambda>h. dockerPrune env h serverHostname))
                          (emit (VerboseLog (''Service '' @ name serviceEntry
                             @ '' deployed successfully to '' @ serverHostname)))))))
                     caught)
                  (await (SSHClose serverHostname) (\<lambda>h. Inr ())))))"

definition deployService :: "env \<Rightarrow> entry \<Rightarrow> deploymentContext \<Rightarrow> unit run" where
  "deployService env serviceEntry context =
     seq (emit (VerboseLog (''Deploying service: '' @ name serviceEntry @ '' to servers: ''
            @ join (servers serviceEntry) '', '')))
         (for_each (servers serviceEntry)
            (\<lambda>serverHostname. deployServiceToServer env serviceEntry serverHostname context))"

subsection \<open>The deployment loop and the command\<close>

definition deployEntries :: "env \<Rightarrow> deploymentContext \<Rightarrow> unit run" where
  "deployEntries env context =
     (let isApp = \<not> deployServicesFlag context in
      if isApp then
        seq (emit (Phase ''Building & Pushing Images''))
       (seq (for_each (targetEntries context) (\<lambda>appEntry. buildAndPushApp env appEntry context))
       (seq (emit (Phase ''Deploying to Servers''))
            (for_each (targetEntries context)
               (\<lambda>appEntry. deployAppToServers env appEntry context))))
      else
        seq (emit (Phase ''Deploying Services''))
            (for_each (targetEntries context) (\<lambda>entry. deployService env entry context)))"

text \<open>The URLs of the final output: \<^verbatim>\<open>https://\<close> and each proxy host of each app.\<close>

definition collectUrls :: "bool \<Rightarrow> entry list \<Rightarrow> string list" where
  "collectUrls deployServices targets =
     (if \<not> deployServices then
        concat (map (\<lambda>appEntry.
          case chain (proxy appEntry) hosts of
            None \<Rightarrow> []
          | Some hs \<Rightarrow> map (\<lambda>host. ''https://'' @ host) hs) targets)
      else [])"

text \<open>
  The body of the \<^verbatim>\<open>try\<close> of deployCommand. Its early \<^verbatim>\<open>return\<close> (no entry selected) is the
  branch that ends after logging.
\<close>

definition deployCommandBody :: "env \<Rightarrow> string list \<Rightarrow> unit run" where
  "deployCommandBody env rawEntryNamesAndFlags =
     (case parseDeploymentArgs rawEntryNamesAndFlags of
        (entryNames, force, deployServices, verbose) \<Rightarrow>
          andThen (await GenerateReleaseId (\<lambda>h. Inr (generateReleaseId env h)))
            (\<lambda>release.
          seq (emit (DeploymentStart release))
         (seq (emit (Phase ''Configuration loaded''))
         (seq (checkUncommittedChanges env force)
         (andThen (loadConfigurationAndSecrets env)
            (\<lambda>(cfg, secretMap).
          seq (emit (Phase ''Git status verified''))
         (andThen (sync (identifyTargetEntries entryNames deployServices cfg))
            (\<lambda>targets.
          if targets = [] then emit (LogError ''No entries selected for deployment'' None)
          else
            (let project = config_name cfg;
                 netName = getProjectNetworkName env project
             in
             seq (emit (Phase ''Infrastructure ready''))
            (seq (verifyInfrastructure env targets netName)
            (let context = \<lparr>config = cfg, secrets = secretMap, targetEntries = targets,
                   releaseId = release, projectName = project, networkName = netName,
                   forceFlag = force, deployServicesFlag = deployServices,
                   verboseFlag = verbose\<rparr>
             in
             seq (deployEntries env context)
                 (emit (DeploymentComplete (collectUrls deployServices targets))))))))))))))"

text \<open>
  How deployCommand ends: it returns, or its \<^verbatim>\<open>catch\<close> calls \<^verbatim>\<open>process.exit(1)\<close>. The run
  starts from the empty trace.
\<close>

datatype ending = Returned | Exit nat

definition deployCommand :: "env \<Rightarrow> string list \<Rightarrow> event list \<times> ending" where
  "deployCommand env rawEntryNamesAndFlags =
     (case deployCommandBody env rawEntryNamesAndFlags [] of
        (es, Inr _) \<Rightarrow> (es, Returned)
      | (es, Inl e) \<Rightarrow> (es @ [Log (DeploymentFailed e)], Exit 1))"

subsection \<open>Notions for stating the properties\<close>

text \<open>The external calls of a trace, in order.\<close>

fun callsOf :: "event list \<Rightarrow> call list" where
  "callsOf [] = []"
| "callsOf (Call c # es) = c # callsOf es"
| "callsOf (Log l # es) = callsOf es"

text \<open>
  The registry and the credentials authenticateAndPullImage works with: its
  \<^verbatim>\<open>imageRegistry\<close>, and the user and password of the login it performs, if any (the
  conditions of its \<^verbatim>\<open>if\<close> and \<^verbatim>\<open>else if\<close>).
\<close>

definition effectiveRegistry :: "entry \<Rightarrow> deploymentContext \<Rightarrow> string" where
  "effectiveRegistry entry context =
     orDefault (orElse (chain (registry entry) url)
                  (chain (docker (config context)) docker_registry)) ''docker.io''"

definition effectiveCredentials ::
  "entry \<Rightarrow> deploymentContext \<Rightarrow> (string \<times> string) option" where
  "effectiveCredentials entry context =
     (if truthy (chain (registry entry) username)
         \<and> truthy (chain (registry entry) password_secret)
      then
        (let password = secrets context (strOf (chain (registry entry) password_secret)) in
         if truthy password then Some (strOf (chain (registry entry) username), strOf password)
         else None)
      else if truthy (chain (docker (config context)) docker_username)
              \<and> truthy (secrets context ''DOCKER_REGISTRY_PASSWORD'')
      then Some (strOf (chain (docker (config context)) docker_username),
                 strOf (secrets context ''DOCKER_REGISTRY_PASSWORD''))
      else None)"

text \<open>
  The resolution as the specification words it, for comparison with the code: the
  entry-level registry with the entry's secret reference; otherwise the project-level
  registry with the project-wide password secret; otherwise the default public registry
  without credentials. \<open>claimedCalls\<close> are the docker calls this resolution would give.
\<close>

definition claimedRegistryAndCredentials ::
  "entry \<Rightarrow> deploymentContext \<Rightarrow> string \<times> (string \<times> string) option" where
  "claimedRegistryAndCredentials entry context =
     (if truthy (chain (registry entry) url) \<and> truthy (chain (registry entry) password_secret)
      then (strOf (chain (registry entry) url),
            Some (strOf (chain (registry entry) username),
                  strOf (secrets context (strOf (chain (registry entry) password_secret)))))
      else if truthy (chain (docker (config context)) docker_registry)
              \<and> truthy (secrets context ''DOCKER_REGISTRY_PASSWORD'')
      then (strOf (chain (docker (config context)) docker_registry),
            Some (strOf (chain (docker (config context)) docker_username),
                  strOf (secrets context ''DOCKER_REGISTRY_PASSWORD'')))
      else (''docker.io'', None))"

definition claimedCalls :: "entry \<Rightarrow> string \<Rightarrow> deploymentContext \<Rightarrow> string \<Rightarrow> call list" where
  "claimedCalls entry s context img =
     (case claimedRegistryAndCredentials entry context of
        (reg, None) \<Rightarrow> [PullImage s img]
      | (reg, Some (u, p)) \<Rightarrow> [DockerLogin s reg u p, PullImage s img, DockerLogout s reg])"

text \<open>
  The notice performRegistryLogin looks for, and the environment that differs from \<open>env\<close>
  only in that every login returns cleanly.
\<close>

definition unencryptedNotice :: string where
  "unencryptedNotice = ''WARNING! Your password will be stored unencrypted''"

definition cleanLogin :: "env \<Rightarrow> env" where
  "cleanLogin env = env\<lparr>dockerLogin := \<lambda>h s reg u p. Inr ()\<rparr>"

text \<open>
  Judgements on a run, for every trace so far. \<open>only P m\<close>: every event \<open>m\<close> adds
  satisfies \<open>P\<close>. \<open>stopsAt M m\<close>: an event satisfying \<open>M\<close> can only be the last event
  \<open>m\<close> adds, and then \<open>m\<close> throws. \<open>guards M A m\<close>: if \<open>m\<close> adds an event satisfying \<open>M\<close>
  then all events it adds satisfy \<open>A\<close> and \<open>m\<close> throws.
\<close>

definition only :: "(event \<Rightarrow> bool) \<Rightarrow> 'a run \<Rightarrow> bool" where
  "only P m = (\<forall>h. list_all P (fst (m h)))"

definition stopsAt :: "(event \<Rightarrow> bool) \<Rightarrow> 'a run \<Rightarrow> bool" where
  "stopsAt M m =
     (\<forall>h. list_all (\<lambda>e. \<not> M e) (fst (m h))
        \<or> (\<exists>pre l e. fst (m h) = pre @ [l] \<and> list_all (\<lambda>e. \<not> M e) pre \<and> snd (m h) = Inl e))"

definition guards :: "(event \<Rightarrow> bool) \<Rightarrow> (event \<Rightarrow> bool) \<Rightarrow> 'a run \<Rightarrow> bool" where
  "guards M A m =
     (\<forall>h. list_all (\<lambda>e. \<not> M e) (fst (m h))
        \<or> (list_all A (fst (m h)) \<and> (\<exists>e. snd (m h) = Inl e)))"

text \<open>
  Classes of external calls: before any host is contacted; opening, probing and closing a
  session; building, tagging and pushing on the local docker client; and changing a
  remote host (login, logout, pull, stop, remove, create, prune, blue-green deployment,
  proxy configuration). \<open>plainLog\<close> are the log lines other than those that report a
  failure of the run.
\<close>

fun preflightCall :: "call \<Rightarrow> bool" where
  "preflightCall (ExecSync _) = True"
| "preflightCall GenerateReleaseId = True"
| "preflightCall LoadConfig = True"
| "preflightCall LoadSecrets = True"
| "preflightCall _ = False"

fun sessionCall :: "call \<Rightarrow> bool" where
  "sessionCall (GetSSHCredentials _) = True"
| "sessionCall (SSHClientCreate _) = True"
| "sessionCall (SSHConnect _) = True"
| "sessionCall (SSHClose _) = True"
| "sessionCall (NetworkExists _ _) = True"
| "sessionCall (IsProxyRunning _) = True"
| "sessionCall _ = False"

fun buildCall :: "call \<Rightarrow> bool" where
  "buildCall (DockerBuild _ _) = True"
| "buildCall (DockerTag _ _) = True"
| "buildCall (DockerPush _ _) = True"
| "buildCall _ = False"

fun mutationCall :: "call \<Rightarrow> bool" where
  "mutationCall (DockerLogin _ _ _ _) = True"
| "mutationCall (DockerLogout _ _) = True"
| "mutationCall (PullImage _ _) = True"
| "mutationCall (StopContainer _ _) = True"
| "mutationCall (RemoveContainer _ _) = True"
| "mutationCall (CreateContainer _ _) = True"
| "mutationCall (Prune _) = True"
| "mutationCall (PerformBlueGreenDeployment _ _ _) = True"
| "mutationCall (ConfigureProxy _ _ _ _ _) = True"
| "mutationCall _ = False"

fun plainLog :: "logline \<Rightarrow> bool" where
  "plainLog (LogError _ None) = False"
| "plainLog (StepError _ _) = False"
| "plainLog (ServerStepError _ _ _) = False"
| "plainLog (DeploymentFailed _) = False"
| "plainLog _ = True"

fun buildOrPush :: "event \<Rightarrow> bool" where
  "buildOrPush (Call c) = buildCall c"
| "buildOrPush (Log _) = False"

fun remoteMutation :: "event \<Rightarrow> bool" where
  "remoteMutation (Call c) = mutationCall c"
| "remoteMutation (Log _) = False"

fun isStepError :: "event \<Rightarrow> bool" where
  "isStepError (Log (StepError _ _)) = True"
| "isStepError _ = False"


definition serverCall :: "call \<Rightarrow> bool" where
  "serverCall c = (sessionCall c \<or> mutationCall c)"

definition mutating :: "event \<Rightarrow> bool" where
  "mutating e = (buildOrPush e \<or> remoteMutation e)"

text \<open>
  The lines that report a failure: the last line of a failed infrastructure
  verification, and the line of the early return of deployCommand.
\<close>

definition infraFailure :: event where
  "infraFailure =
     Log (LogError ''Please run `luma setup` to create the required infrastructure'' None)"

definition noEntriesSelected :: event where
  "noEntriesSelected = Log (LogError ''No entries selected for deployment'' None)"

text \<open>
  \<open>accepts C P\<close>: \<open>P\<close> holds of every plain log line and of every call of class \<open>C\<close>;
  \<open>prefixClass K\<close>: \<open>K\<close> holds of everything deployCommand does before target resolution.
\<close>

definition accepts :: "(call \<Rightarrow> bool) \<Rightarrow> (event \<Rightarrow> bool) \<Rightarrow> bool" where
  "accepts C P = ((\<forall>l. plainLog l \<longrightarrow> P (Log l)) \<and> (\<forall>c. C c \<longrightarrow> P (Call c)))"

definition prefixClass :: "(event \<Rightarrow> bool) \<Rightarrow> bool" where
  "prefixClass K =
     (accepts preflightCall K \<and> (\<forall>m. K (Log (LogError (''Uncommitted'' @ m) None))))"

text \<open>
  The hosts probed in a trace (each probe starts by getting the SSH credentials), whether
  one of the five calls of the probe of a host would throw, and the first line of
  verifyInfrastructure.
\<close>

fun probedHosts :: "event list \<Rightarrow> string list" where
  "probedHosts [] = []"
| "probedHosts (Call (GetSSHCredentials s) # es) = s # probedHosts es"
| "probedHosts (e # es) = probedHosts es"

definition probeThrows :: "env \<Rightarrow> string \<Rightarrow> string \<Rightarrow> event list \<Rightarrow> bool" where
  "probeThrows env netName s h =
     (let e1 = [Call (GetSSHCredentials s)];
          e2 = e1 @ [Call (SSHClientCreate s)];
          e3 = e2 @ [Call (SSHConnect s)];
          e4 = e3 @ [Call (NetworkExists s netName)]
      in isl (getSSHCredentials env h s)
         \<or> isl (sshClientCreate env (h @ e1) s)
         \<or> isl (sshConnect env (h @ e2) s)
         \<or> isl (networkExists env (h @ e3) s netName)
         \<or> isl (isProxyRunning env (h @ e4) s))"

definition checkingLog :: "entry list \<Rightarrow> event" where
  "checkingLog targets =
     Log (VerboseLog (''Checking infrastructure on servers: ''
        @ join (allTargetServers targets) '', ''))"

text \<open>
  The statements of deployCommand after target resolution: the early return, and
  otherwise verification, deployment and the report.
\<close>

definition afterResolution ::
  "env \<Rightarrow> string \<Rightarrow> bool \<Rightarrow> bool \<Rightarrow> bool \<Rightarrow> lumaConfig \<Rightarrow> lumaSecrets \<Rightarrow> entry list \<Rightarrow> unit run" where
  "afterResolution env release force deployServices verbose cfg secretMap targets =
     (if targets = [] then emit (LogError ''No entries selected for deployment'' None)
      else
        (let project = config_name cfg;
             netName = getProjectNetworkName env project
         in
         seq (emit (Phase ''Infrastructure ready''))
        (seq (verifyInfrastructure env targets netName)
        (let context = \<lparr>config = cfg, secrets = secretMap, targetEntries = targets,
               releaseId = release, projectName = project, networkName = netName,
               forceFlag = force, deployServicesFlag = deployServices,
               verboseFlag = verbose\<rparr>
         in
         seq (deployEntries env context)
             (emit (DeploymentComplete (collectUrls deployServices targets)))))))"

text \<open>
  \<open>splits A B m\<close>: the events \<open>m\<close> adds are a run of events satisfying \<open>A\<close> followed by a
  run of events satisfying \<open>B\<close>. \<open>localOnly\<close>: a log line or a call of the local docker
  client. The two loops of deployEntries for apps, each with the line that announces it.
\<close>

definition splits :: "(event \<Rightarrow> bool) \<Rightarrow> (event \<Rightarrow> bool) \<Rightarrow> 'a run \<Rightarrow> bool" where
  "splits A B m = (\<forall>h. \<exists>a b. fst (m h) = a @ b \<and> list_all A a \<and> list_all B b)"

fun localOnly :: "event \<Rightarrow> bool" where
  "localOnly (Call c) = buildCall c"
| "localOnly (Log l) = True"

definition buildPhase :: "env \<Rightarrow> deploymentContext \<Rightarrow> unit run" where
  "buildPhase env context =
     seq (emit (Phase ''Building & Pushing Images''))
         (for_each (targetEntries context) (\<lambda>appEntry. buildAndPushApp env appEntry context))"

definition deployPhase :: "env \<Rightarrow> deploymentContext \<Rightarrow> unit run" where
  "deployPhase env context =
     seq (emit (Phase ''Deploying to Servers''))
         (for_each (targetEntries context)
            (\<lambda>appEntry. deployAppToServers env appEntry context))"

text \<open>
  \<open>returnsAt x K m\<close>: if \<open>m\<close> adds the event \<open>x\<close> at all, then \<open>x\<close> is the last event it
  adds, the events before it satisfy \<open>K\<close>, and \<open>m\<close> returns. \<open>preflightOnly\<close>: a log line
  or a call made before any host is contacted.
\<close>

definition returnsAt :: "event \<Rightarrow> (event \<Rightarrow> bool) \<Rightarrow> 'a run \<Rightarrow> bool" where
  "returnsAt x K m =
     (\<forall>h. list_all (\<lambda>e. e \<noteq> x) (fst (m h))
        \<or> (\<exists>pre a. fst (m h) = pre @ [x] \<and> list_all K pre \<and> snd (m h) = Inr a))"

fun preflightOnly :: "event \<Rightarrow> bool" where
  "preflightOnly (Call c) = preflightCall c"
| "preflightOnly (Log l) = True"

text \<open>
  \<open>stopsOn bad Q m\<close>: whenever an event \<open>x\<close> that \<open>m\<close> adds is \<open>bad\<close> for the trace that
  precedes it, \<open>m\<close> throws and the events \<open>m\<close> adds after \<open>x\<close> satisfy \<open>Q\<close>. The trace that
  precedes a call is the one its answer is computed from, so \<open>bad\<close> can say that the call
  is answered with a failure.
\<close>

definition stopsOn ::
  "(event list \<Rightarrow> event \<Rightarrow> bool) \<Rightarrow> (event list \<Rightarrow> bool) \<Rightarrow> 'a run \<Rightarrow> bool" where
  "stopsOn bad Q m =
     (\<forall>h pre x post. fst (m h) = pre @ x # post \<and> bad (h @ pre) x
        \<longrightarrow> (\<exists>e. snd (m h) = Inl e) \<and> Q post)"

text \<open>
  A build, tag or push that throws. A pull that reports failure, a logout that throws, a
  blue-green deployment that reports failure; with these, a call that opens the session
  and throws. \<open>logged\<close>: a log line. \<open>windingDown\<close>: a log line, a logout or the close of a
  session.
\<close>

fun buildFails :: "env \<Rightarrow> event list \<Rightarrow> event \<Rightarrow> bool" where
  "buildFails env h (Call (DockerBuild img p)) = isl (dockerBuild env h img p)"
| "buildFails env h (Call (DockerTag img t)) = isl (dockerTag env h img t)"
| "buildFails env h (Call (DockerPush img reg)) = isl (dockerPush env h img reg)"
| "buildFails env h _ = False"

fun deployFails :: "env \<Rightarrow> event list \<Rightarrow> event \<Rightarrow> bool" where
  "deployFails env h (Call (PullImage s img)) = (\<not> pullImage env h s img)"
| "deployFails env h (Call (DockerLogout s reg)) = isl (dockerLogout env h s reg)"
| "deployFails env h (Call (PerformBlueGreenDeployment s app rel)) =
     (\<not> success (performBlueGreenDeployment env h s app rel))"
| "deployFails env h _ = False"

fun connectFails :: "env \<Rightarrow> event list \<Rightarrow> event \<Rightarrow> bool" where
  "connectFails env h (Call (GetSSHCredentials s)) = isl (getSSHCredentials env h s)"
| "connectFails env h (Call (SSHClientCreate s)) = isl (sshClientCreate env h s)"
| "connectFails env h (Call (SSHConnect s)) = isl (sshConnect env h s)"
| "connectFails env h _ = False"

fun logged :: "event \<Rightarrow> bool" where
  "logged (Log l) = True"
| "logged (Call c) = False"

fun windingDown :: "event \<Rightarrow> bool" where
  "windingDown (Log l) = True"
| "windingDown (Call (DockerLogout s reg)) = True"
| "windingDown (Call (SSHClose s)) = True"
| "windingDown (Call c) = False"

text \<open>
  \<open>quietAfter bad Q m\<close>: whenever an event \<open>x\<close> that \<open>m\<close> adds is \<open>bad\<close> for the trace that
  precedes it, the events \<open>m\<close> adds after \<open>x\<close> satisfy \<open>Q\<close>; unlike \<open>stopsOn\<close> it does not
  say that \<open>m\<close> throws. A create that reports failure.
\<close>

definition quietAfter ::
  "(event list \<Rightarrow> event \<Rightarrow> bool) \<Rightarrow> (event list \<Rightarrow> bool) \<Rightarrow> 'a run \<Rightarrow> bool" where
  "quietAfter bad Q m =
     (\<forall>h pre x post. fst (m h) = pre @ x # post \<and> bad (h @ pre) x \<longrightarrow> Q post)"

fun createFails :: "env \<Rightarrow> event list \<Rightarrow> event \<Rightarrow> bool" where
  "createFails env h (Call (CreateContainer s opts)) = (\<not> createContainer env h s opts)"
| "createFails env h _ = False"

subsection \<open>Example configuration and environments\<close>

text \<open>
  A project with one app on two servers and one service, and an environment in which
  every external call succeeds. The examples below change one answer at a time.
\<close>

definition webApp :: entry where
  "webApp = \<lparr>name = ''web'', imageRef = ''acme/web'', servers = [''s1'', ''s2''],
     build = Some \<lparr>platform = None\<rparr>, registry = None,
     proxy = Some \<lparr>hosts = Some [''web.example.com''], app_port = Some 3000\<rparr>,
     environment = None\<rparr>"

definition dbService :: entry where
  "dbService = \<lparr>name = ''db'', imageRef = ''postgres:15'', servers = [''s1''],
     build = None, registry = None, proxy = None, environment = None\<rparr>"

definition exampleConfig :: lumaConfig where
  "exampleConfig = \<lparr>config_name = ''acme'', apps = Array [webApp],
     services = Array [dbService], docker = None\<rparr>"

definition happyEnv :: env where
  "happyEnv = \<lparr>
     execSync = (\<lambda>h cmd. Inr []),
     generateReleaseId = (\<lambda>h. ''a1b2c3d''),
     getProjectNetworkName = (\<lambda>p. p @ ''-network''),
     loadConfig = (\<lambda>h. Inr exampleConfig),
     loadSecrets = (\<lambda>h. Inr Map.empty),
     getSSHCredentials = (\<lambda>h s. Inr ()),
     sshClientCreate = (\<lambda>h s. Inr ()),
     sshConnect = (\<lambda>h s. Inr ()),
     networkExists = (\<lambda>h s n. Inr True),
     isProxyRunning = (\<lambda>h s. Inr True),
     dockerBuild = (\<lambda>h t p. Inr ()),
     dockerTag = (\<lambda>h i t. Inr ()),
     dockerPush = (\<lambda>h i r. Inr ()),
     dockerLogin = (\<lambda>h s r u p. Inr ()),
     dockerLogout = (\<lambda>h s r. Inr ()),
     pullImage = (\<lambda>h s i. True),
     stopContainer = (\<lambda>h s n. Inr ()),
     removeContainer = (\<lambda>h s n. Inr ()),
     createContainer = (\<lambda>h s opts. True),
     dockerPrune = (\<lambda>h s. Inr ()),
     performBlueGreenDeployment = (\<lambda>h s a r. \<lparr>success = True, result_error = None\<rparr>),
     configureProxy = (\<lambda>h s host a p project. Inr True)\<rparr>"

text \<open>Outside a git repository: \<^verbatim>\<open>git status\<close> fails.\<close>

definition gitlessEnv :: env where
  "gitlessEnv = happyEnv\<lparr>execSync := (\<lambda>h cmd. Inl (Error ''fatal: not a git repository''))\<rparr>"

text \<open>A run context over a configuration and secrets, as deployCommand builds it.\<close>

definition contextOf ::
  "lumaConfig \<Rightarrow> lumaSecrets \<Rightarrow> entry list \<Rightarrow> bool \<Rightarrow> deploymentContext" where
  "contextOf cfg secretMap targets deployServices =
     \<lparr>config = cfg, secrets = secretMap, targetEntries = targets, releaseId = ''a1b2c3d'',
      projectName = config_name cfg, networkName = config_name cfg @ ''-network'',
      forceFlag = False, deployServicesFlag = deployServices, verboseFlag = False\<rparr>"

text \<open>
  Project-level credentials without and with a project-level registry, an app with an
  entry-level registry but no credentials, and an app with entry-level credentials.
\<close>

definition projectLoginConfig :: lumaConfig where
  "projectLoginConfig = exampleConfig\<lparr>docker :=
     Some \<lparr>docker_registry = None, docker_username = Some ''bob''\<rparr>\<rparr>"

definition projectRegistryConfig :: lumaConfig where
  "projectRegistryConfig = exampleConfig\<lparr>docker :=
     Some \<lparr>docker_registry = Some ''registry.example.com'', docker_username = Some ''bob''\<rparr>\<rparr>"

definition projectSecrets :: lumaSecrets where
  "projectSecrets = [''DOCKER_REGISTRY_PASSWORD'' \<mapsto> ''pw'', ''GHCR_TOKEN'' \<mapsto> ''t0ken'']"

definition ghcrApp :: entry where
  "ghcrApp = webApp\<lparr>registry :=
     Some \<lparr>url = Some ''ghcr.io'', username = None, password_secret = None\<rparr>\<rparr>"

definition privateApp :: entry where
  "privateApp = webApp\<lparr>registry :=
     Some \<lparr>url = Some ''ghcr.io'', username = Some ''alice'',
           password_secret = Some ''GHCR_TOKEN''\<rparr>\<rparr>"

text \<open>Every pull fails; every login throws with the notice about unencrypted storage.\<close>

definition pullFailsEnv :: env where
  "pullFailsEnv = happyEnv\<lparr>pullImage := (\<lambda>h s i. False)\<rparr>"

definition noticeEnv :: env where
  "noticeEnv = happyEnv\<lparr>
     loadConfig := (\<lambda>h. Inr projectRegistryConfig),
     loadSecrets := (\<lambda>h. Inr projectSecrets),
     dockerLogin := (\<lambda>h s r u p. Inl (Error
       ''WARNING! Your password will be stored unencrypted in /root/.docker/config.json.''))\<rparr>"

text \<open>The second server cannot be reached while it is probed.\<close>

definition unreachableS2Env :: env where
  "unreachableS2Env = happyEnv\<lparr>networkExists :=
     (\<lambda>h s n. if s = ''s2'' then Inl (Error ''connect ETIMEDOUT'') else Inr True)\<rparr>"

text \<open>Every push to the registry is refused.\<close>

definition buildFailsEnv :: env where
  "buildFailsEnv = happyEnv\<lparr>dockerPush := (\<lambda>h i r. Inl (Error ''denied: requested access''))\<rparr>"




text \<open>
  No container of the service exists yet: stopping it fails. The runtime refuses to
  create the container.
\<close>

definition noPriorContainerEnv :: env where
  "noPriorContainerEnv = happyEnv\<lparr>stopContainer :=
     (\<lambda>h s n. Inl (Error (''No such container: '' @ n)))\<rparr>"

definition createFailsEnv :: env where
  "createFailsEnv = happyEnv\<lparr>createContainer := (\<lambda>h s opts. False)\<rparr>"

section \<open>Properties\<close>

lemmas run_defs =
  ret_def throw_def emit_def await_def andThen_def seq_def try_catch_def sync_def attempt_def

subsection \<open>Target resolution\<close>

lemma find_name_None:
  "find (\<lambda>e. name e = n) conf = None \<longleftrightarrow> n \<notin> name ` set conf"
  by (auto simp: find_None_iff)

lemma find_name_Some:
  "find (\<lambda>e. name e = n) conf = Some x \<Longrightarrow> name x = n \<and> x \<in> set conf"
  by (induction conf) (auto split: if_splits)

lemma lookupEntries_snd:
  "snd (lookupEntries kind conf names)
     = List.map_filter (\<lambda>n. find (\<lambda>e. name e = n) conf) names"
  by (induction names) (auto simp: List.map_filter_simps split: prod.splits option.splits)

lemma lookupEntries_fst:
  "fst (lookupEntries kind conf names) =
     map (\<lambda>n. Log (Warn (kind @ '' \"'' @ n @ ''\" not found in configuration'')))
       (filter (\<lambda>n. n \<notin> name ` set conf) names)"
  by (induction names)
     (auto simp: find_name_None dest: find_name_Some split: prod.splits option.splits)

lemma map_filter_find_names:
  "map name (List.map_filter (\<lambda>n. find (\<lambda>e. name e = n) conf) names)
     = filter (\<lambda>n. n \<in> name ` set conf) names"
proof (induction names)
  case Nil
  show ?case by (simp add: List.map_filter_simps)
next
  case (Cons n names)
  show ?case
  proof (cases "find (\<lambda>e. name e = n) conf")
    case None
    then have "n \<notin> name ` set conf" by (simp add: find_name_None)
    with None Cons show ?thesis by (simp add: List.map_filter_simps)
  next
    case (Some x)
    then have "name x = n" "x \<in> set conf" by (auto dest: find_name_Some)
    then have "n \<in> name ` set conf" by auto
    with Some Cons \<open>name x = n\<close> show ?thesis by (simp add: List.map_filter_simps)
  qed
qed

text \<open>
  Claim C7. With explicit names, identifyTargetEntries looks each name up, in the caller's
  order, among the configured entries of the selected kind (services with the services
  flag, apps without): the result is the entry found for each name that has one, the names
  of the result are the requested names that are configured, in the order requested, and
  each name that is not configured gives one not-found warning and nothing else (a last
  warning follows when no name matched). Without names the result is all configured
  entries of the kind. Requesting \<open>[X, Y]\<close> where only \<open>X\<close> is configured yields exactly
  the entry of \<open>X\<close> and the warning for \<open>Y\<close>.
\<close>

theorem target_resolution:
  "(names \<noteq> [] \<longrightarrow>
      snd (identifyTargetEntries names flag cfg)
        = List.map_filter (\<lambda>n. find (\<lambda>e. name e = n) (configuredEntries flag cfg)) names
    \<and> map name (snd (identifyTargetEntries names flag cfg))
        = filter (\<lambda>n. n \<in> name ` set (configuredEntries flag cfg)) names
    \<and> fst (identifyTargetEntries names flag cfg)
        = map (notFoundWarning flag)
            (filter (\<lambda>n. n \<notin> name ` set (configuredEntries flag cfg)) names)
          @ (if snd (identifyTargetEntries names flag cfg) = [] then [noValidWarning flag]
             else []))
   \<and> (names = [] \<longrightarrow> snd (identifyTargetEntries names flag cfg) = configuredEntries flag cfg)
   \<and> (find (\<lambda>e. name e = X) (configuredEntries flag cfg) = Some x
        \<and> find (\<lambda>e. name e = Y) (configuredEntries flag cfg) = None
      \<longrightarrow> identifyTargetEntries [X, Y] flag cfg = ([notFoundWarning flag Y], [x]))"
proof -
  have sel: "snd (identifyTargetEntries names flag cfg)
        = List.map_filter (\<lambda>n. find (\<lambda>e. name e = n) (configuredEntries flag cfg)) names"
    if "names \<noteq> []"
    using that lookupEntries_snd[of "''Service''" "normalizeConfigEntries (services cfg)" names]
      lookupEntries_snd[of "''App''" "normalizeConfigEntries (apps cfg)" names]
    by (auto simp: identifyTargetEntries_def configuredEntries_def Let_def split: prod.splits)
  have ws: "fst (identifyTargetEntries names flag cfg)
        = map (notFoundWarning flag)
            (filter (\<lambda>n. n \<notin> name ` set (configuredEntries flag cfg)) names)
          @ (if snd (identifyTargetEntries names flag cfg) = [] then [noValidWarning flag]
             else [])"
    if "names \<noteq> []"
    using that lookupEntries_fst[of "''Service''" "normalizeConfigEntries (services cfg)" names]
      lookupEntries_fst[of "''App''" "normalizeConfigEntries (apps cfg)" names]
    by (auto simp: identifyTargetEntries_def configuredEntries_def Let_def notFoundWarning_def
          noValidWarning_def split: prod.splits)
  have all: "snd (identifyTargetEntries names flag cfg) = configuredEntries flag cfg"
    if "names = []"
    using that by (simp add: identifyTargetEntries_def configuredEntries_def Let_def)
  have ex: "identifyTargetEntries [X, Y] flag cfg = ([notFoundWarning flag Y], [x])"
    if "find (\<lambda>e. name e = X) (configuredEntries flag cfg) = Some x"
      and "find (\<lambda>e. name e = Y) (configuredEntries flag cfg) = None"
    using that
    by (auto simp: identifyTargetEntries_def configuredEntries_def Let_def notFoundWarning_def
          split: if_splits)
  show ?thesis
    using sel ws all ex map_filter_find_names[of "configuredEntries flag cfg" names]
    by auto
qed

theorem target_resolution_witness:
  "identifyTargetEntries [''web'', ''api''] False exampleConfig
     = ([notFoundWarning False ''api''], [webApp])
   \<and> map name (snd (identifyTargetEntries [''api'', ''web''] False exampleConfig)) = [''web'']
   \<and> snd (identifyTargetEntries [] True exampleConfig) = [dbService]"
  using target_resolution [of "[''api'', ''web'']" False exampleConfig "''web''" webApp "''api''"]
    target_resolution [of "[]" True exampleConfig "''web''" webApp "''api''"]
  by (simp add: configuredEntries_def exampleConfig_def webApp_def dbService_def)

subsection \<open>The clean-workspace check\<close>

lemma hasUncommittedChanges_git_error:
  "execSync env h ''git status --porcelain'' = Inl e \<Longrightarrow>
   hasUncommittedChanges env h =
     ([Call (ExecSync ''git status --porcelain''),
       Log (VerboseLog ''Failed to check git status. Assuming no uncommitted changes.'')],
      Inr False)"
  by (simp add: hasUncommittedChanges_def run_defs)

lemma checkUncommittedChanges_git_error:
  "execSync env h ''git status --porcelain'' = Inl e \<Longrightarrow>
   checkUncommittedChanges env False h =
     ([Call (ExecSync ''git status --porcelain''),
       Log (VerboseLog ''Failed to check git status. Assuming no uncommitted changes.'')],
      Inr ())"
  by (simp add: checkUncommittedChanges_def hasUncommittedChanges_git_error andThen_def ret_def)

text \<open>
  Claim C10. When the \<^verbatim>\<open>git status\<close> command itself fails, hasUncommittedChanges logs that
  it assumes no uncommitted changes and answers \<open>False\<close>; checkUncommittedChanges without
  the force flag then returns without throwing, and a run started without \<^verbatim>\<open>--force\<close>
  goes on to load the configuration: the gate fails open.
\<close>

theorem git_status_failure_fails_open:
  assumes "\<forall>h. \<exists>e. execSync env h ''git status --porcelain'' = Inl e"
    and "''--force'' \<notin> set raw"
  shows "hasUncommittedChanges env h =
           ([Call (ExecSync ''git status --porcelain''),
             Log (VerboseLog ''Failed to check git status. Assuming no uncommitted changes.'')],
            Inr False)
         \<and> checkUncommittedChanges env False h =
           ([Call (ExecSync ''git status --porcelain''),
             Log (VerboseLog ''Failed to check git status. Assuming no uncommitted changes.'')],
            Inr ())
         \<and> Call LoadConfig \<in> set (fst (deployCommand env raw))"
proof -
  obtain e where e: "execSync env h ''git status --porcelain'' = Inl e"
    using assms(1) by blast
  obtain e' where e': "execSync env
      [Call GenerateReleaseId, Log (DeploymentStart (generateReleaseId env [])),
       Log (Phase ''Configuration loaded'')] ''git status --porcelain'' = Inl e'"
    using assms(1) by blast
  have "Call LoadConfig \<in> set (fst (deployCommand env raw))"
    using assms(2) checkUncommittedChanges_git_error[OF e']
    by (simp add: deployCommand_def deployCommandBody_def parseDeploymentArgs_def run_defs
          loadConfigurationAndSecrets_def split: prod.splits sum.splits)
  then show ?thesis
    using hasUncommittedChanges_git_error[OF e] checkUncommittedChanges_git_error[OF e]
    by simp
qed

theorem git_status_failure_fails_open_witness:
  "hasUncommittedChanges gitlessEnv [] =
     ([Call (ExecSync ''git status --porcelain''),
       Log (VerboseLog ''Failed to check git status. Assuming no uncommitted changes.'')],
      Inr False)
   \<and> checkUncommittedChanges gitlessEnv False [] =
     ([Call (ExecSync ''git status --porcelain''),
       Log (VerboseLog ''Failed to check git status. Assuming no uncommitted changes.'')],
      Inr ())
   \<and> Call LoadConfig \<in> set (fst (deployCommand gitlessEnv [''web'']))"
  using git_status_failure_fails_open [of gitlessEnv "[''web'']" "[]"]
  by (simp add: gitlessEnv_def happyEnv_def)

subsection \<open>Registry login, pull and logout\<close>

lemma callsOf_append [simp]: "callsOf (xs @ ys) = callsOf xs @ callsOf ys"
  by (induction xs rule: callsOf.induct) auto

lemma andThen_Inr:
  "m h = (es, Inr a) \<Longrightarrow> andThen m f h = (es @ fst (f a (h @ es)), snd (f a (h @ es)))"
  by (simp add: andThen_def split: prod.splits)

lemma andThen_Inl: "m h = (es, Inl e) \<Longrightarrow> andThen m f h = (es, Inl e)"
  by (simp add: andThen_def)

lemma performRegistryLogin_eq:
  "performRegistryLogin env s reg u p h =
     ([Call (DockerLogin s reg u p),
       Log (case dockerLogin env h s reg u p of
              Inr _ \<Rightarrow> VerboseLog ''Successfully logged into registry''
            | Inl e \<Rightarrow>
                if str_includes (String e) unencryptedNotice
                then VerboseLog ''Successfully logged into registry''
                else LogError ''Failed to login to registry'' (Some e))],
      Inr ())"
  by (simp add: performRegistryLogin_def run_defs unencryptedNotice_def Let_def
        split: sum.splits)

text \<open>
  The docker calls of authenticateAndPullImage, for every environment and every trace so
  far: the pull alone, or login, pull and logout against \<open>effectiveRegistry\<close>.
\<close>

lemma authenticateAndPullImage_calls:
  "callsOf (fst (authenticateAndPullImage env entry s context img h)) =
     (case effectiveCredentials entry context of
        None \<Rightarrow> [PullImage s img]
      | Some (u, p) \<Rightarrow>
          [DockerLogin s (effectiveRegistry entry context) u p, PullImage s img,
           DockerLogout s (effectiveRegistry entry context)])"
proof -
  define reg where "reg = effectiveRegistry entry context"
  define rest where "rest = (\<lambda>registryLoginPerformed.
           seq (emit (VerboseLog (''Pulling image '' @ img @ ''...'')))
          (andThen
             (await (PullImage s img)
                (\<lambda>h. Inr (pullImage env h s img)))
             (\<lambda>pullSuccess.
                seq (if registryLoginPerformed then
                       await (DockerLogout s reg)
                         (\<lambda>h. dockerLogout env h s reg)
                     else ret ())
                    (if \<not> pullSuccess then
                       throw (Error (''Failed to pull image '' @ img))
                     else ret ()))))"
  define step where "step =
        (if truthy (chain (registry entry) username)
            \<and> truthy (chain (registry entry) password_secret)
         then
           (let password = secrets context (strOf (chain (registry entry) password_secret)) in
            if truthy password then
              seq (performRegistryLogin env s reg
                     (strOf (chain (registry entry) username)) (strOf password))
                  (ret True)
            else ret False)
         else if truthy (chain (docker (config context)) docker_username)
                 \<and> truthy (secrets context ''DOCKER_REGISTRY_PASSWORD'')
         then
           seq (performRegistryLogin env s reg
                  (strOf (chain (docker (config context)) docker_username))
                  (strOf (secrets context ''DOCKER_REGISTRY_PASSWORD'')))
               (ret True)
         else ret False)"
  have unfold: "authenticateAndPullImage env entry s context img = andThen step rest"
    unfolding authenticateAndPullImage_def Let_def step_def rest_def reg_def
      effectiveRegistry_def
    by (rule refl)
  have R: "callsOf (fst (rest performed h')) =
             PullImage s img # (if performed then [DockerLogout s reg] else [])"
    for performed h'
    by (simp add: rest_def run_defs split: sum.splits)
  have "\<exists>es. step h = (es, Inr (effectiveCredentials entry context \<noteq> None))
             \<and> callsOf es = (case effectiveCredentials entry context of None \<Rightarrow> []
                 | Some (u, p) \<Rightarrow> [DockerLogin s reg u p])"
    by (simp add: step_def effectiveCredentials_def Let_def performRegistryLogin_eq seq_def
          andThen_def ret_def)
  then obtain es where es: "step h = (es, Inr (effectiveCredentials entry context \<noteq> None))"
    "callsOf es = (case effectiveCredentials entry context of None \<Rightarrow> []
                 | Some (u, p) \<Rightarrow> [DockerLogin s reg u p])"
    by blast
  have "andThen step rest h =
          (es @ fst (rest (effectiveCredentials entry context \<noteq> None) (h @ es)),
           snd (rest (effectiveCredentials entry context \<noteq> None) (h @ es)))"
    using es(1) by (rule andThen_Inr)
  then show ?thesis
    by (simp add: unfold es(2) R reg_def split: option.splits)
qed

text \<open>
  Claim C5. Whatever the environment answers (so whether the pull succeeds or fails), the
  docker calls of authenticateAndPullImage are either the pull alone, with no login and
  no logout, or one login, the pull, and then exactly one logout against the registry of
  the login, on the same host.
\<close>

theorem login_logout_pairing:
  "callsOf (fst (authenticateAndPullImage env entry s context img h)) = [PullImage s img]
   \<or> (\<exists>reg u p. callsOf (fst (authenticateAndPullImage env entry s context img h))
         = [DockerLogin s reg u p, PullImage s img, DockerLogout s reg])"
  by (simp add: authenticateAndPullImage_calls split: option.splits)

theorem login_logout_pairing_witness:
  "callsOf (fst (authenticateAndPullImage pullFailsEnv privateApp ''s1''
       (contextOf exampleConfig projectSecrets [privateApp] False) ''acme/web:a1b2c3d'' []))
     = [DockerLogin ''s1'' ''ghcr.io'' ''alice'' ''t0ken'', PullImage ''s1'' ''acme/web:a1b2c3d'',
        DockerLogout ''s1'' ''ghcr.io'']
   \<and> snd (authenticateAndPullImage pullFailsEnv privateApp ''s1''
       (contextOf exampleConfig projectSecrets [privateApp] False) ''acme/web:a1b2c3d'' [])
     = Inl (Error ''Failed to pull image acme/web:a1b2c3d'')
   \<and> callsOf (fst (authenticateAndPullImage pullFailsEnv webApp ''s1''
       (contextOf exampleConfig projectSecrets [webApp] False) ''acme/web:a1b2c3d'' []))
     = [PullImage ''s1'' ''acme/web:a1b2c3d'']"
  using login_logout_pairing [of pullFailsEnv privateApp "''s1''"
      "contextOf exampleConfig projectSecrets [privateApp] False" "''acme/web:a1b2c3d''" "[]"]
  by (simp add: authenticateAndPullImage_def performRegistryLogin_def run_defs Let_def
      pullFailsEnv_def happyEnv_def privateApp_def webApp_def contextOf_def exampleConfig_def
      projectSecrets_def chain_def orElse_def orDefault_def strOf_def)

text \<open>
  Claim C8, as the code has it. The registry and the credentials are resolved
  independently of each other. The registry is the entry's \<^verbatim>\<open>registry.url\<close> if set,
  otherwise the project's \<^verbatim>\<open>docker.registry\<close> if set, otherwise \<^verbatim>\<open>docker.io\<close>. The
  credentials are the entry's user name and the secret its \<^verbatim>\<open>password_secret\<close> names when
  the entry has both (then a login happens only if that secret has a value, and the
  project's credentials are not tried); otherwise the project's \<^verbatim>\<open>docker.username\<close> with
  the secret \<^verbatim>\<open>DOCKER_REGISTRY_PASSWORD\<close> when both are set; otherwise there is no login.
  A login is made against the resolved registry, whichever level the credentials come
  from, and is followed by the pull and the logout.
\<close>

theorem registry_and_credentials_resolution:
  "callsOf (fst (authenticateAndPullImage env entry s context img h)) =
     (let reg = (if truthy (chain (registry entry) url) then strOf (chain (registry entry) url)
                 else if truthy (chain (docker (config context)) docker_registry)
                 then strOf (chain (docker (config context)) docker_registry)
                 else ''docker.io'')
      in
      if truthy (chain (registry entry) username)
         \<and> truthy (chain (registry entry) password_secret)
      then
        (if truthy (secrets context (strOf (chain (registry entry) password_secret))) then
           [DockerLogin s reg (strOf (chain (registry entry) username))
              (strOf (secrets context (strOf (chain (registry entry) password_secret)))),
            PullImage s img, DockerLogout s reg]
         else [PullImage s img])
      else if truthy (chain (docker (config context)) docker_username)
              \<and> truthy (secrets context ''DOCKER_REGISTRY_PASSWORD'')
      then
        [DockerLogin s reg (strOf (chain (docker (config context)) docker_username))
           (strOf (secrets context ''DOCKER_REGISTRY_PASSWORD'')),
         PullImage s img, DockerLogout s reg]
      else [PullImage s img])"
proof -
  have reg: "effectiveRegistry entry context =
       (if truthy (chain (registry entry) url) then strOf (chain (registry entry) url)
        else if truthy (chain (docker (config context)) docker_registry)
        then strOf (chain (docker (config context)) docker_registry)
        else ''docker.io'')"
    by (cases "chain (registry entry) url";
        cases "chain (docker (config context)) docker_registry")
       (simp_all add: effectiveRegistry_def orDefault_def orElse_def strOf_def)
  show ?thesis
    unfolding authenticateAndPullImage_calls reg [symmetric]
    by (simp add: effectiveCredentials_def Let_def)
qed

theorem registry_and_credentials_resolution_witness:
  "callsOf (fst (authenticateAndPullImage happyEnv privateApp ''s1''
       (contextOf projectRegistryConfig projectSecrets [privateApp] False)
       ''acme/web:a1b2c3d'' []))
     = [DockerLogin ''s1'' ''ghcr.io'' ''alice'' ''t0ken'', PullImage ''s1'' ''acme/web:a1b2c3d'',
        DockerLogout ''s1'' ''ghcr.io'']"
  using registry_and_credentials_resolution [of happyEnv privateApp "''s1''"
      "contextOf projectRegistryConfig projectSecrets [privateApp] False"
      "''acme/web:a1b2c3d''" "[]"]
  by (simp add: privateApp_def webApp_def contextOf_def projectRegistryConfig_def
      exampleConfig_def projectSecrets_def chain_def strOf_def Let_def)

text \<open>
  Claim C8 as stated fails. With no registry configured at any level and project-level
  credentials, the code logs in to \<^verbatim>\<open>docker.io\<close> with the project's credentials, where
  the claim has the default registry with no login. With an entry-level registry without
  credentials and a project-level registry with credentials, the code logs in to the
  entry's registry with the project's credentials: the two levels are merged.
\<close>

theorem registry_resolution_counterexample:
  "callsOf (fst (authenticateAndPullImage happyEnv webApp ''s1''
       (contextOf projectLoginConfig projectSecrets [webApp] False) ''acme/web:a1b2c3d'' []))
     = [DockerLogin ''s1'' ''docker.io'' ''bob'' ''pw'', PullImage ''s1'' ''acme/web:a1b2c3d'',
        DockerLogout ''s1'' ''docker.io'']
   \<and> claimedCalls webApp ''s1'' (contextOf projectLoginConfig projectSecrets [webApp] False)
       ''acme/web:a1b2c3d'' = [PullImage ''s1'' ''acme/web:a1b2c3d'']
   \<and> callsOf (fst (authenticateAndPullImage happyEnv ghcrApp ''s1''
       (contextOf projectRegistryConfig projectSecrets [ghcrApp] False) ''acme/web:a1b2c3d'' []))
     = [DockerLogin ''s1'' ''ghcr.io'' ''bob'' ''pw'', PullImage ''s1'' ''acme/web:a1b2c3d'',
        DockerLogout ''s1'' ''ghcr.io'']
   \<and> claimedCalls ghcrApp ''s1'' (contextOf projectRegistryConfig projectSecrets [ghcrApp] False)
       ''acme/web:a1b2c3d''
     = [DockerLogin ''s1'' ''registry.example.com'' ''bob'' ''pw'',
        PullImage ''s1'' ''acme/web:a1b2c3d'', DockerLogout ''s1'' ''registry.example.com'']"
  by (simp add: authenticateAndPullImage_calls effectiveCredentials_def effectiveRegistry_def
      claimedCalls_def claimedRegistryAndCredentials_def contextOf_def projectLoginConfig_def
      projectRegistryConfig_def projectSecrets_def ghcrApp_def webApp_def exampleConfig_def
      chain_def orElse_def orDefault_def strOf_def)

subsection \<open>The notice about unencrypted storage\<close>

text \<open>
  No function of deploy.ts but performRegistryLogin reads the answer of the login, so an
  environment and its \<open>cleanLogin\<close> give the same run wherever performRegistryLogin does
  the same in both.
\<close>

lemma cleanLogin_fields:
  "execSync (cleanLogin env) = execSync env"
  "generateReleaseId (cleanLogin env) = generateReleaseId env"
  "getProjectNetworkName (cleanLogin env) = getProjectNetworkName env"
  "loadConfig (cleanLogin env) = loadConfig env"
  "loadSecrets (cleanLogin env) = loadSecrets env"
  "getSSHCredentials (cleanLogin env) = getSSHCredentials env"
  "sshClientCreate (cleanLogin env) = sshClientCreate env"
  "sshConnect (cleanLogin env) = sshConnect env"
  "networkExists (cleanLogin env) = networkExists env"
  "isProxyRunning (cleanLogin env) = isProxyRunning env"
  "dockerBuild (cleanLogin env) = dockerBuild env"
  "dockerTag (cleanLogin env) = dockerTag env"
  "dockerPush (cleanLogin env) = dockerPush env"
  "dockerLogout (cleanLogin env) = dockerLogout env"
  "pullImage (cleanLogin env) = pullImage env"
  "stopContainer (cleanLogin env) = stopContainer env"
  "removeContainer (cleanLogin env) = removeContainer env"
  "createContainer (cleanLogin env) = createContainer env"
  "dockerPrune (cleanLogin env) = dockerPrune env"
  "performBlueGreenDeployment (cleanLogin env) = performBlueGreenDeployment env"
  "configureProxy (cleanLogin env) = configureProxy env"
  by (simp_all add: cleanLogin_def)

lemma cleanLogin_performRegistryLogin:
  assumes "\<forall>h s reg u p e. dockerLogin env h s reg u p = Inl e
       \<longrightarrow> str_includes (String e) unencryptedNotice"
  shows "performRegistryLogin (cleanLogin env) = performRegistryLogin env"
proof (intro ext)
  fix s reg u p h
  show "performRegistryLogin (cleanLogin env) s reg u p h = performRegistryLogin env s reg u p h"
    using assms by (auto simp: performRegistryLogin_eq cleanLogin_def split: sum.splits)
qed

lemma cleanLogin_authenticateAndPullImage:
  assumes "\<forall>h s reg u p e. dockerLogin env h s reg u p = Inl e
       \<longrightarrow> str_includes (String e) unencryptedNotice"
  shows "authenticateAndPullImage (cleanLogin env) = authenticateAndPullImage env"
  by (intro ext)
     (simp only: authenticateAndPullImage_def cleanLogin_performRegistryLogin[OF assms]
        cleanLogin_fields)

lemma cleanLogin_establishSSHConnection:
  "establishSSHConnection (cleanLogin env) = establishSSHConnection env"
  by (intro ext) (simp only: establishSSHConnection_def cleanLogin_fields)

lemma cleanLogin_configureProxyForApp:
  "configureProxyForApp (cleanLogin env) = configureProxyForApp env"
  by (intro ext) (simp only: configureProxyForApp_def cleanLogin_fields)

lemma cleanLogin_deployAppToServer:
  assumes "\<forall>h s reg u p e. dockerLogin env h s reg u p = Inl e
       \<longrightarrow> str_includes (String e) unencryptedNotice"
  shows "deployAppToServer (cleanLogin env) = deployAppToServer env"
  by (intro ext)
     (simp only: deployAppToServer_def cleanLogin_authenticateAndPullImage[OF assms]
        cleanLogin_establishSSHConnection cleanLogin_configureProxyForApp cleanLogin_fields)

lemma cleanLogin_deployAppToServersFrom:
  assumes "\<forall>h s reg u p e. dockerLogin env h s reg u p = Inl e
       \<longrightarrow> str_includes (String e) unencryptedNotice"
  shows "deployAppToServersFrom (cleanLogin env) a c i ss = deployAppToServersFrom env a c i ss"
  by (induction ss arbitrary: i)
     (simp_all only: deployAppToServersFrom.simps cleanLogin_deployAppToServer[OF assms])

lemma cleanLogin_deployAppToServers:
  assumes "\<forall>h s reg u p e. dockerLogin env h s reg u p = Inl e
       \<longrightarrow> str_includes (String e) unencryptedNotice"
  shows "deployAppToServers (cleanLogin env) = deployAppToServers env"
  by (intro ext) (simp only: deployAppToServers_def cleanLogin_deployAppToServersFrom[OF assms])

lemma cleanLogin_serviceEntryToContainerOptions:
  "serviceEntryToContainerOptions (cleanLogin env) = serviceEntryToContainerOptions env"
  by (intro ext) (simp only: serviceEntryToContainerOptions_def cleanLogin_fields)

lemma cleanLogin_replaceServiceContainer:
  "replaceServiceContainer (cleanLogin env) = replaceServiceContainer env"
  by (intro ext)
     (simp only: replaceServiceContainer_def cleanLogin_serviceEntryToContainerOptions
        cleanLogin_fields)

lemma cleanLogin_deployServiceToServer:
  assumes "\<forall>h s reg u p e. dockerLogin env h s reg u p = Inl e
       \<longrightarrow> str_includes (String e) unencryptedNotice"
  shows "deployServiceToServer (cleanLogin env) = deployServiceToServer env"
  by (intro ext)
     (simp only: deployServiceToServer_def cleanLogin_authenticateAndPullImage[OF assms]
        cleanLogin_establishSSHConnection cleanLogin_replaceServiceContainer cleanLogin_fields)

lemma cleanLogin_deployService:
  assumes "\<forall>h s reg u p e. dockerLogin env h s reg u p = Inl e
       \<longrightarrow> str_includes (String e) unencryptedNotice"
  shows "deployService (cleanLogin env) = deployService env"
  by (intro ext) (simp only: deployService_def cleanLogin_deployServiceToServer[OF assms])

lemma cleanLogin_buildOrTagAppImage:
  "buildOrTagAppImage (cleanLogin env) = buildOrTagAppImage env"
  by (intro ext) (simp only: buildOrTagAppImage_def cleanLogin_fields)

lemma cleanLogin_pushAppImage: "pushAppImage (cleanLogin env) = pushAppImage env"
  by (intro ext) (simp only: pushAppImage_def cleanLogin_fields)

lemma cleanLogin_buildAndPushApp: "buildAndPushApp (cleanLogin env) = buildAndPushApp env"
  by (intro ext)
     (simp only: buildAndPushApp_def cleanLogin_buildOrTagAppImage cleanLogin_pushAppImage)

lemma cleanLogin_deployEntries:
  assumes "\<forall>h s reg u p e. dockerLogin env h s reg u p = Inl e
       \<longrightarrow> str_includes (String e) unencryptedNotice"
  shows "deployEntries (cleanLogin env) = deployEntries env"
  by (intro ext)
     (simp only: deployEntries_def cleanLogin_buildAndPushApp
        cleanLogin_deployAppToServers[OF assms] cleanLogin_deployService[OF assms])

lemma cleanLogin_verifyServer: "verifyServer (cleanLogin env) = verifyServer env"
  by (intro ext) (simp only: verifyServer_def cleanLogin_fields)

lemma cleanLogin_verifyServers:
  "verifyServers (cleanLogin env) n ss m h = verifyServers env n ss m h"
  by (induction ss arbitrary: m h) (simp_all only: verifyServers.simps cleanLogin_verifyServer)

lemma cleanLogin_verifyInfrastructure:
  "verifyInfrastructure (cleanLogin env) = verifyInfrastructure env"
  by (intro ext) (simp only: verifyInfrastructure_def cleanLogin_verifyServers)

lemma cleanLogin_hasUncommittedChanges:
  "hasUncommittedChanges (cleanLogin env) = hasUncommittedChanges env"
  by (simp only: hasUncommittedChanges_def cleanLogin_fields)

lemma cleanLogin_checkUncommittedChanges:
  "checkUncommittedChanges (cleanLogin env) = checkUncommittedChanges env"
  by (intro ext) (simp only: checkUncommittedChanges_def cleanLogin_hasUncommittedChanges)

lemma cleanLogin_loadConfigurationAndSecrets:
  "loadConfigurationAndSecrets (cleanLogin env) = loadConfigurationAndSecrets env"
  by (simp only: loadConfigurationAndSecrets_def cleanLogin_fields)

lemma cleanLogin_deployCommandBody:
  assumes "\<forall>h s reg u p e. dockerLogin env h s reg u p = Inl e
       \<longrightarrow> str_includes (String e) unencryptedNotice"
  shows "deployCommandBody (cleanLogin env) = deployCommandBody env"
  by (intro ext)
     (simp only: deployCommandBody_def cleanLogin_checkUncommittedChanges
        cleanLogin_loadConfigurationAndSecrets cleanLogin_verifyInfrastructure
        cleanLogin_deployEntries[OF assms] cleanLogin_fields)

lemma cleanLogin_deployCommand:
  assumes "\<forall>h s reg u p e. dockerLogin env h s reg u p = Inl e
       \<longrightarrow> str_includes (String e) unencryptedNotice"
  shows "deployCommand (cleanLogin env) raw = deployCommand env raw"
  by (simp only: deployCommand_def cleanLogin_deployCommandBody[OF assms])

text \<open>
  Claim C9. A login that throws is classified by the content of its message alone: the
  log line is the success line exactly when the message contains the notice, and the error
  line otherwise. When it contains the notice, performRegistryLogin does exactly what it
  does after a login that returned cleanly; and in an environment whose login failures all
  carry the notice, authenticateAndPullImage and the whole deploy command run exactly as in
  the environment where every login returns cleanly.
\<close>

theorem unencrypted_notice_counts_as_success:
  "(dockerLogin env h s reg u p = Inl e \<longrightarrow>
      performRegistryLogin env s reg u p h =
        ([Call (DockerLogin s reg u p),
          Log (if str_includes (String e) unencryptedNotice
               then VerboseLog ''Successfully logged into registry''
               else LogError ''Failed to login to registry'' (Some e))],
         Inr ()))
   \<and> (dockerLogin env h s reg u p = Inl e \<and> str_includes (String e) unencryptedNotice \<longrightarrow>
        performRegistryLogin env s reg u p h = performRegistryLogin (cleanLogin env) s reg u p h)
   \<and> ((\<forall>h s reg u p e. dockerLogin env h s reg u p = Inl e
          \<longrightarrow> str_includes (String e) unencryptedNotice) \<longrightarrow>
        authenticateAndPullImage env entry s context img h
          = authenticateAndPullImage (cleanLogin env) entry s context img h
        \<and> deployCommand env raw = deployCommand (cleanLogin env) raw)"
proof (intro conjI impI)
  assume "dockerLogin env h s reg u p = Inl e"
  then show "performRegistryLogin env s reg u p h =
        ([Call (DockerLogin s reg u p),
          Log (if str_includes (String e) unencryptedNotice
               then VerboseLog ''Successfully logged into registry''
               else LogError ''Failed to login to registry'' (Some e))],
         Inr ())"
    by (simp add: performRegistryLogin_eq)
next
  assume "dockerLogin env h s reg u p = Inl e \<and> str_includes (String e) unencryptedNotice"
  then show "performRegistryLogin env s reg u p h
      = performRegistryLogin (cleanLogin env) s reg u p h"
    by (simp add: performRegistryLogin_eq cleanLogin_def)
next
  assume a: "\<forall>h s reg u p e. dockerLogin env h s reg u p = Inl e
       \<longrightarrow> str_includes (String e) unencryptedNotice"
  show "authenticateAndPullImage env entry s context img h
          = authenticateAndPullImage (cleanLogin env) entry s context img h"
    by (simp only: cleanLogin_authenticateAndPullImage[OF a])
next
  assume a: "\<forall>h s reg u p e. dockerLogin env h s reg u p = Inl e
       \<longrightarrow> str_includes (String e) unencryptedNotice"
  show "deployCommand env raw = deployCommand (cleanLogin env) raw"
    by (simp only: cleanLogin_deployCommand[OF a])
qed

theorem unencrypted_notice_counts_as_success_witness:
  "performRegistryLogin noticeEnv ''s1'' ''registry.example.com'' ''bob'' ''pw'' []
     = ([Call (DockerLogin ''s1'' ''registry.example.com'' ''bob'' ''pw''),
         Log (VerboseLog ''Successfully logged into registry'')], Inr ())
   \<and> performRegistryLogin noticeEnv ''s1'' ''registry.example.com'' ''bob'' ''pw'' []
     = performRegistryLogin (cleanLogin noticeEnv) ''s1'' ''registry.example.com'' ''bob'' ''pw'' []
   \<and> deployCommand noticeEnv [''web''] = deployCommand (cleanLogin noticeEnv) [''web'']"
proof -
  let ?e = "Error ''WARNING! Your password will be stored unencrypted in /root/.docker/config.json.''"
  have n: "str_includes (String ?e) unencryptedNotice"
    by (simp add: unencryptedNotice_def)
  have l: "dockerLogin noticeEnv h s reg u p = Inl ?e" for h s reg u p
    by (simp add: noticeEnv_def)
  have hyp: "\<forall>h s reg u p e. dockerLogin noticeEnv h s reg u p = Inl e
          \<longrightarrow> str_includes (String e) unencryptedNotice"
    using n by (auto simp: l)
  note T = unencrypted_notice_counts_as_success [of noticeEnv "[]" "''s1''"
      "''registry.example.com''" "''bob''" "''pw''" ?e
      webApp "contextOf projectRegistryConfig projectSecrets [webApp] False" "''acme/web:a1b2c3d''"
      "[''web'']"]
  have A: "performRegistryLogin noticeEnv ''s1'' ''registry.example.com'' ''bob'' ''pw'' []
     = ([Call (DockerLogin ''s1'' ''registry.example.com'' ''bob'' ''pw''),
         Log (VerboseLog ''Successfully logged into registry'')], Inr ())"
    using T l n by (simp del: str_includes.simps String.simps)
  have B: "performRegistryLogin noticeEnv ''s1'' ''registry.example.com'' ''bob'' ''pw'' []
     = performRegistryLogin (cleanLogin noticeEnv) ''s1'' ''registry.example.com'' ''bob'' ''pw'' []"
    using T l n by blast
  have C: "deployCommand noticeEnv [''web''] = deployCommand (cleanLogin noticeEnv) [''web'']"
    using T hyp by blast
  show ?thesis using A B C by blast
qed

subsection \<open>Rules for the judgements on runs\<close>

lemma only_mono: "only P m \<Longrightarrow> (\<And>e. P e \<Longrightarrow> Q e) \<Longrightarrow> only Q m"
  unfolding only_def list_all_iff by blast

lemma only_ret: "only P (ret a)"
  by (simp add: only_def ret_def)

lemma only_throw: "only P (throw e)"
  by (simp add: only_def throw_def)

lemma only_emit: "P (Log l) \<Longrightarrow> only P (emit l)"
  by (simp add: only_def emit_def)

lemma only_await: "P (Call c) \<Longrightarrow> only P (await c f)"
  by (simp add: only_def await_def)

lemma only_sync: "list_all P (fst p) \<Longrightarrow> only P (sync p)"
  by (simp add: only_def sync_def)

lemma only_attempt:
  "only P m \<Longrightarrow> (\<And>e. only P (g e)) \<Longrightarrow> (\<And>a. only P (f a)) \<Longrightarrow> only P (attempt m g f)"
  by (auto simp: only_def attempt_def split: prod.splits sum.splits) (metis fst_conv)+

lemma andThen_attempt: "andThen m f = attempt m throw f"
  by (intro ext) (simp add: andThen_def attempt_def throw_def split: prod.splits sum.splits)

lemma try_catch_attempt: "try_catch m g = attempt m g ret"
  by (intro ext) (simp add: try_catch_def attempt_def ret_def split: prod.splits sum.splits)

lemma only_andThen: "only P m \<Longrightarrow> (\<And>a. only P (f a)) \<Longrightarrow> only P (andThen m f)"
  by (simp add: andThen_attempt only_attempt only_throw)

lemma only_seq: "only P m \<Longrightarrow> only P n \<Longrightarrow> only P (seq m n)"
  by (simp add: seq_def only_andThen)

lemma only_try_catch: "only P m \<Longrightarrow> (\<And>e. only P (g e)) \<Longrightarrow> only P (try_catch m g)"
  by (simp add: try_catch_attempt only_attempt only_ret)

lemma only_for_each:
  "(\<And>x. x \<in> set xs \<Longrightarrow> only P (body x)) \<Longrightarrow> only P (for_each xs body)"
  by (induction xs) (simp_all add: only_ret only_seq)

lemma only_if: "(c \<Longrightarrow> only P m) \<Longrightarrow> (\<not> c \<Longrightarrow> only P n) \<Longrightarrow> only P (if c then m else n)"
  by simp

lemma only_case_option:
  "(x = None \<Longrightarrow> only P m) \<Longrightarrow> (\<And>y. x = Some y \<Longrightarrow> only P (n y))
     \<Longrightarrow> only P (case x of None \<Rightarrow> m | Some y \<Rightarrow> n y)"
  by (cases x) simp_all

lemma only_case_list:
  "(x = [] \<Longrightarrow> only P m) \<Longrightarrow> (\<And>y ys. x = y # ys \<Longrightarrow> only P (n y ys))
     \<Longrightarrow> only P (case x of [] \<Rightarrow> m | y # ys \<Rightarrow> n y ys)"
  by (cases x) simp_all

lemma only_case_prod: "(\<And>a b. x = (a, b) \<Longrightarrow> only P (f a b)) \<Longrightarrow> only P (case x of (a, b) \<Rightarrow> f a b)"
  by (cases x) simp

lemmas only_intros =
  only_ret only_throw only_emit only_await only_andThen only_seq only_try_catch only_attempt
  only_for_each only_if only_case_option only_case_list only_case_prod

lemma acceptsD1: "accepts C P \<Longrightarrow> plainLog l \<Longrightarrow> P (Log l)"
  by (simp add: accepts_def)

lemma acceptsD2: "accepts C P \<Longrightarrow> C c \<Longrightarrow> P (Call c)"
  by (simp add: accepts_def)

lemma accepts_mono: "accepts C P \<Longrightarrow> (\<And>c. C' c \<Longrightarrow> C c) \<Longrightarrow> accepts C' P"
  by (simp add: accepts_def)

lemma stopsAt_only: "only (\<lambda>e. \<not> M e) m \<Longrightarrow> stopsAt M m"
  by (simp add: only_def stopsAt_def)

lemma stopsAt_attempt:
  assumes "only (\<lambda>e. \<not> M e) m" and "\<And>e. stopsAt M (g e)" and "\<And>a. stopsAt M (f a)"
  shows "stopsAt M (attempt m g f)"
  unfolding stopsAt_def
proof
  fix h
  obtain es r where mh: "m h = (es, r)" by (cases "m h")
  have clean: "list_all (\<lambda>e. \<not> M e) es"
    using assms(1) mh by (auto simp: only_def dest!: spec[of _ h])
  define k where "k = (case r of Inl e \<Rightarrow> g e | Inr a \<Rightarrow> f a)"
  have k: "stopsAt M k" using assms(2,3) by (simp add: k_def split: sum.splits)
  obtain es' r' where kh: "k (h @ es) = (es', r')" by (cases "k (h @ es)")
  have eq: "attempt m g f h = (es @ es', r')"
    using mh kh by (simp add: attempt_def k_def split: sum.splits)
  from k kh
  consider "list_all (\<lambda>e. \<not> M e) es'"
    | pre l e' where "es' = pre @ [l]" "list_all (\<lambda>e. \<not> M e) pre" "r' = Inl e'"
    by (auto simp: stopsAt_def dest!: spec[of _ "h @ es"])
  then show "list_all (\<lambda>e. \<not> M e) (fst (attempt m g f h)) \<or>
        (\<exists>pre l e. fst (attempt m g f h) = pre @ [l] \<and> list_all (\<lambda>e. \<not> M e) pre
           \<and> snd (attempt m g f h) = Inl e)"
  proof cases
    case 1
    then show ?thesis using clean eq by simp
  next
    case 2
    then have "fst (attempt m g f h) = (es @ pre) @ [l]" "list_all (\<lambda>e. \<not> M e) (es @ pre)"
      "snd (attempt m g f h) = Inl e'"
      using clean eq by simp_all
    then show ?thesis by blast
  qed
qed

lemma stopsAt_try_catch:
  "only (\<lambda>e. \<not> M e) m \<Longrightarrow> (\<And>e. stopsAt M (g e)) \<Longrightarrow> stopsAt M (try_catch m g)"
  by (simp add: try_catch_attempt stopsAt_attempt stopsAt_only only_ret)




lemma stopsAt_rethrow: "stopsAt M (seq (emit l) (throw e))"
  by (simp add: stopsAt_def run_defs)

lemma guards_only: "only (\<lambda>e. \<not> M e) m \<Longrightarrow> guards M A m"
  by (simp add: only_def guards_def)

lemma guards_andThen:
  assumes "guards M A m" and "only A m" and "\<And>a. guards M A (f a)"
  shows "guards M A (andThen m f)"
  unfolding guards_def
proof
  fix h
  obtain es r where mh: "m h = (es, r)" by (cases "m h")
  have A: "list_all A es" using assms(2) mh by (auto simp: only_def dest!: spec[of _ h])
  from assms(1) mh have m: "list_all (\<lambda>e. \<not> M e) es \<or> (\<exists>e. r = Inl e)"
    by (auto simp: guards_def dest!: spec[of _ h])
  show "list_all (\<lambda>e. \<not> M e) (fst (andThen m f h))
        \<or> (list_all A (fst (andThen m f h)) \<and> (\<exists>e. snd (andThen m f h) = Inl e))"
  proof (cases r)
    case (Inl e)
    then have "andThen m f h = (es, Inl e)" using mh by (simp add: andThen_def)
    then show ?thesis using A by simp
  next
    case (Inr a)
    obtain es' r' where fh: "f a (h @ es) = (es', r')" by (cases "f a (h @ es)")
    have eq: "andThen m f h = (es @ es', r')" using mh Inr fh by (simp add: andThen_def)
    have clean: "list_all (\<lambda>e. \<not> M e) es" using m Inr by simp
    from assms(3)[of a] fh
    have "list_all (\<lambda>e. \<not> M e) es' \<or> (list_all A es' \<and> (\<exists>e. r' = Inl e))"
      by (auto simp: guards_def dest!: spec[of _ "h @ es"])
    then show ?thesis using clean A eq by auto
  qed
qed

lemma guards_seq:
  "guards M A m \<Longrightarrow> only A m \<Longrightarrow> guards M A n \<Longrightarrow> guards M A (seq m n)"
  by (simp add: seq_def guards_andThen)

lemma only_conjD1: "only (\<lambda>e. P e \<and> Q e) m \<Longrightarrow> only P m"
  by (erule only_mono) simp

lemma only_conjD2: "only (\<lambda>e. P e \<and> Q e) m \<Longrightarrow> only Q m"
  by (erule only_mono) simp

lemma guards_andThen_pre:
  "only (\<lambda>e. \<not> M e \<and> A e) m \<Longrightarrow> (\<And>a. guards M A (f a)) \<Longrightarrow> guards M A (andThen m f)"
proof (rule guards_andThen)
  assume a: "only (\<lambda>e. \<not> M e \<and> A e) m" and b: "\<And>a. guards M A (f a)"
  show "guards M A m" by (rule guards_only) (rule only_conjD1[OF a])
  show "only A m" by (rule only_conjD2[OF a])
  show "guards M A (f a)" for a by (rule b)
qed

lemma guards_seq_pre:
  "only (\<lambda>e. \<not> M e \<and> A e) m \<Longrightarrow> guards M A n \<Longrightarrow> guards M A (seq m n)"
  by (simp add: seq_def guards_andThen_pre)

lemma guards_andThen_post:
  assumes "guards M A m" and "\<And>a. only (\<lambda>e. \<not> M e) (f a)"
  shows "guards M A (andThen m f)"
  unfolding guards_def
proof
  fix h
  obtain es r where mh: "m h = (es, r)" by (cases "m h")
  from assms(1) mh have m: "list_all (\<lambda>e. \<not> M e) es \<or> (list_all A es \<and> (\<exists>e. r = Inl e))"
    by (auto simp: guards_def dest!: spec[of _ h])
  show "list_all (\<lambda>e. \<not> M e) (fst (andThen m f h))
        \<or> (list_all A (fst (andThen m f h)) \<and> (\<exists>e. snd (andThen m f h) = Inl e))"
  proof (cases r)
    case (Inl e)
    then have "andThen m f h = (es, Inl e)" using mh by (simp add: andThen_def)
    then show ?thesis using m Inl by auto
  next
    case (Inr a)
    obtain es' r' where fh: "f a (h @ es) = (es', r')" by (cases "f a (h @ es)")
    have eq: "andThen m f h = (es @ es', r')" using mh Inr fh by (simp add: andThen_def)
    have "list_all (\<lambda>e. \<not> M e) es'"
      using assms(2)[of a] fh by (auto simp: only_def dest!: spec[of _ "h @ es"])
    then show ?thesis using m Inr eq by simp
  qed
qed

lemma guards_seq_post:
  "guards M A m \<Longrightarrow> only (\<lambda>e. \<not> M e) n \<Longrightarrow> guards M A (seq m n)"
  by (simp add: seq_def guards_andThen_post)

lemma guards_for_each:
  "(\<And>x. x \<in> set xs \<Longrightarrow> guards M A (body x)) \<Longrightarrow> (\<And>x. x \<in> set xs \<Longrightarrow> only A (body x))
     \<Longrightarrow> guards M A (for_each xs body)"
  by (induction xs) (simp_all add: guards_only only_ret guards_seq)

lemma guards_try_rethrow:
  assumes "only (\<lambda>e. \<not> M e \<and> A e) m" and "\<And>e. A (Log (l e))"
  shows "guards M A (try_catch m (\<lambda>e. seq (emit (l e)) (throw e)))"
  unfolding guards_def
proof
  fix h
  obtain es r where mh: "m h = (es, r)" by (cases "m h")
  have c: "list_all (\<lambda>e. \<not> M e) es" "list_all A es"
    using assms(1) mh by (auto simp: only_def list_all_iff dest!: spec[of _ h])
  show "list_all (\<lambda>e. \<not> M e) (fst (try_catch m (\<lambda>e. seq (emit (l e)) (throw e)) h))
        \<or> (list_all A (fst (try_catch m (\<lambda>e. seq (emit (l e)) (throw e)) h))
            \<and> (\<exists>e. snd (try_catch m (\<lambda>e. seq (emit (l e)) (throw e)) h) = Inl e))"
    using mh c assms(2) by (cases r) (simp_all add: run_defs)
qed

lemma guards_if:
  "(c \<Longrightarrow> guards M A m) \<Longrightarrow> (\<not> c \<Longrightarrow> guards M A n) \<Longrightarrow> guards M A (if c then m else n)"
  by simp

lemma guards_case_prod:
  "(\<And>a b. x = (a, b) \<Longrightarrow> guards M A (f a b)) \<Longrightarrow> guards M A (case x of (a, b) \<Rightarrow> f a b)"
  by (cases x) simp



lemma accepts_conj: "accepts C P \<Longrightarrow> accepts C Q \<Longrightarrow> accepts C (\<lambda>e. P e \<and> Q e)"
  by (simp add: accepts_def)

lemma accepts_not_StepError: "accepts C (\<lambda>e. \<not> isStepError e)"
  unfolding accepts_def
proof (intro conjI allI impI)
  fix l assume "plainLog l" then show "\<not> isStepError (Log l)" by (cases l) simp_all
next
  fix c :: call show "\<not> isStepError (Call c)" by simp
qed


lemma accepts_not_infraFailure: "accepts C (\<lambda>e. e \<noteq> infraFailure)"
  unfolding accepts_def infraFailure_def
proof (intro conjI allI impI)
  fix l assume "plainLog l"
  then show "Log l \<noteq> Log (LogError ''Please run `luma setup` to create the required infrastructure'' None)"
    by (cases l rule: plainLog.cases) simp_all
qed simp

lemma accepts_not_remoteMutation:
  "(\<And>c. C c \<Longrightarrow> \<not> mutationCall c) \<Longrightarrow> accepts C (\<lambda>e. \<not> remoteMutation e)"
  by (simp add: accepts_def)

lemma accepts_not_buildOrPush:
  "(\<And>c. C c \<Longrightarrow> \<not> buildCall c) \<Longrightarrow> accepts C (\<lambda>e. \<not> buildOrPush e)"
  by (simp add: accepts_def)

lemma preflight_not_mutation: "preflightCall c \<Longrightarrow> \<not> mutationCall c"
  by (cases c) simp_all

lemma preflight_not_build: "preflightCall c \<Longrightarrow> \<not> buildCall c"
  by (cases c) simp_all

lemma session_not_mutation: "sessionCall c \<Longrightarrow> \<not> mutationCall c"
  by (cases c) simp_all

lemma session_not_build: "sessionCall c \<Longrightarrow> \<not> buildCall c"
  by (cases c) simp_all

lemma build_not_mutation: "buildCall c \<Longrightarrow> \<not> mutationCall c"
  by (cases c) simp_all

lemma server_not_build: "serverCall c \<Longrightarrow> \<not> buildCall c"
  by (cases c) (simp_all add: serverCall_def)

text \<open>Rules for \<open>stopsOn\<close>.\<close>

lemma stopsOn_only: "only (\<lambda>e. \<forall>h. \<not> bad h e) m \<Longrightarrow> stopsOn bad Q m"
  unfolding only_def stopsOn_def list_all_iff
proof (intro allI impI)
  fix h pre x post
  assume a: "\<forall>h. \<forall>e\<in>set (fst (m h)). \<forall>h'. \<not> bad h' e"
    and b: "fst (m h) = pre @ x # post \<and> bad (h @ pre) x"
  from b have "x \<in> set (fst (m h))" by simp
  with a have "\<not> bad (h @ pre) x" by blast
  with b show "(\<exists>e. snd (m h) = Inl e) \<and> Q post" by blast
qed


lemma stopsOn_await:
  assumes "\<And>h. bad h (Call c) \<Longrightarrow> \<exists>e. answer h = Inl e" and "Q []"
  shows "stopsOn bad Q (await c answer)"
  unfolding stopsOn_def
proof (intro allI impI)
  fix h pre x post
  assume "fst (await c answer h) = pre @ x # post \<and> bad (h @ pre) x"
  then have s: "[Call c] = pre @ x # post" and b: "bad (h @ pre) x"
    by (simp_all add: await_def)
  from s have "pre = []" and "x = Call c" and "post = []"
    by (simp_all add: Cons_eq_append_conv)
  with b assms show "(\<exists>e. snd (await c answer h) = Inl e) \<and> Q post"
    by (simp add: await_def)
qed

lemma split_append:
  assumes "es @ es' = pre @ x # post"
  shows "(\<exists>post1. es = pre @ x # post1 \<and> post = post1 @ es')
       \<or> (\<exists>pre'. pre = es @ pre' \<and> es' = pre' @ x # post)"
  using assms by (auto simp: append_eq_append_conv2 append_eq_Cons_conv Cons_eq_append_conv)

lemma stopsOn_andThen:
  assumes "stopsOn bad Q m" and "\<And>a. stopsOn bad Q (f a)"
  shows "stopsOn bad Q (andThen m f)"
  unfolding stopsOn_def
proof (intro allI impI)
  fix h pre x post
  assume a: "fst (andThen m f h) = pre @ x # post \<and> bad (h @ pre) x"
  obtain es r where mh: "m h = (es, r)" by (cases "m h")
  show "(\<exists>e. snd (andThen m f h) = Inl e) \<and> Q post"
  proof (cases r)
    case (Inl e)
    then have eq: "andThen m f h = (es, Inl e)" using mh by (simp add: andThen_def)
    with a mh have "fst (m h) = pre @ x # post" by simp
    with a assms(1) have "Q post" unfolding stopsOn_def by blast
    then show ?thesis using eq by simp
  next
    case (Inr v)
    obtain es' r' where fh: "f v (h @ es) = (es', r')" by (cases "f v (h @ es)")
    have eq: "andThen m f h = (es @ es', r')" using mh Inr fh by (simp add: andThen_def)
    with a have s: "es @ es' = pre @ x # post" by simp
    from split_append[OF s] show ?thesis
    proof
      assume "\<exists>post1. es = pre @ x # post1 \<and> post = post1 @ es'"
      then obtain post1 where "fst (m h) = pre @ x # post1" using mh by auto
      with a assms(1) have "\<exists>e. snd (m h) = Inl e" unfolding stopsOn_def by blast
      with mh Inr show ?thesis by simp
    next
      assume "\<exists>pre'. pre = es @ pre' \<and> es' = pre' @ x # post"
      then obtain pre' where p: "pre = es @ pre'" and e: "es' = pre' @ x # post" by blast
      have "fst (f v (h @ es)) = pre' @ x # post" using fh e by simp
      moreover have "bad ((h @ es) @ pre') x" using a p by simp
      ultimately have "(\<exists>e. snd (f v (h @ es)) = Inl e) \<and> Q post"
        using assms(2)[of v] unfolding stopsOn_def by blast
      then show ?thesis using eq fh by simp
    qed
  qed
qed

lemma stopsOn_seq: "stopsOn bad Q m \<Longrightarrow> stopsOn bad Q n \<Longrightarrow> stopsOn bad Q (seq m n)"
  by (simp add: seq_def stopsOn_andThen)

lemma stopsOn_for_each:
  "(\<And>x. x \<in> set xs \<Longrightarrow> stopsOn bad Q (body x)) \<Longrightarrow> stopsOn bad Q (for_each xs body)"
  by (induction xs) (simp_all add: stopsOn_only only_ret stopsOn_seq)

lemma stopsOn_if:
  "(c \<Longrightarrow> stopsOn bad Q m) \<Longrightarrow> (\<not> c \<Longrightarrow> stopsOn bad Q n)
     \<Longrightarrow> stopsOn bad Q (if c then m else n)"
  by simp

lemma stopsOn_case_prod:
  "(\<And>a b. p = (a, b) \<Longrightarrow> stopsOn bad Q (f a b))
     \<Longrightarrow> stopsOn bad Q (case p of (a, b) \<Rightarrow> f a b)"
  by (cases p) simp

text \<open>A \<^verbatim>\<open>catch\<close> that logs a line and throws the error again.\<close>

lemma stopsOn_try_rethrow:
  assumes "stopsOn bad Q0 m"
    and "\<And>e h. \<not> bad h (Log (l e))"
    and "\<And>e post. Q0 post \<Longrightarrow> Q (post @ [Log (l e)])"
  shows "stopsOn bad Q (try_catch m (\<lambda>e. seq (emit (l e)) (throw e)))"
  unfolding stopsOn_def
proof (intro allI impI)
  fix h pre x post
  let ?t = "try_catch m (\<lambda>e. seq (emit (l e)) (throw e))"
  assume a: "fst (?t h) = pre @ x # post \<and> bad (h @ pre) x"
  obtain es r where mh: "m h = (es, r)" by (cases "m h")
  show "(\<exists>e. snd (?t h) = Inl e) \<and> Q post"
  proof (cases r)
    case (Inr v)
    then have eq: "?t h = (es, Inr v)" using mh by (simp add: try_catch_def)
    with a mh have "fst (m h) = pre @ x # post" by simp
    with a assms(1) have "\<exists>e. snd (m h) = Inl e" unfolding stopsOn_def by blast
    with mh Inr show ?thesis by simp
  next
    case (Inl e)
    then have eq: "?t h = (es @ [Log (l e)], Inl e)"
      using mh by (simp add: run_defs)
    with a have s: "es @ [Log (l e)] = pre @ x # post" by simp
    from split_append[OF s] show ?thesis
    proof
      assume "\<exists>post1. es = pre @ x # post1 \<and> post = post1 @ [Log (l e)]"
      then obtain post1 where p: "es = pre @ x # post1" and q: "post = post1 @ [Log (l e)]"
        by blast
      have "fst (m h) = pre @ x # post1" using mh p by simp
      with a assms(1) have "Q0 post1" unfolding stopsOn_def by blast
      then have "Q post" unfolding q by (rule assms(3))
      then show ?thesis using eq by simp
    next
      assume "\<exists>pre'. pre = es @ pre' \<and> [Log (l e)] = pre' @ x # post"
      then obtain pre' where "[Log (l e)] = pre' @ x # post" by blast
      then have "x = Log (l e)" by (simp add: Cons_eq_append_conv)
      with a assms(2) show ?thesis by blast
    qed
  qed
qed

text \<open>
  A call that reports failure by the value it returns, which the code tests after the
  call: \<open>f\<close> throws when given the value of a bad call.
\<close>

lemma stopsOn_await_checked:
  assumes "\<And>h. bad h (Call c) \<Longrightarrow>
             (\<exists>e. snd (f (answer h) (h @ [Call c])) = Inl e)
             \<and> Q (fst (f (answer h) (h @ [Call c])))"
    and "\<And>a. stopsOn bad Q (f a)"
  shows "stopsOn bad Q (andThen (await c (\<lambda>h. Inr (answer h))) f)"
  unfolding stopsOn_def
proof (intro allI impI)
  fix h pre x post
  let ?t = "andThen (await c (\<lambda>h. Inr (answer h))) f"
  assume a: "fst (?t h) = pre @ x # post \<and> bad (h @ pre) x"
  obtain es' r' where fh: "f (answer h) (h @ [Call c]) = (es', r')"
    by (cases "f (answer h) (h @ [Call c])")
  have eq: "?t h = (Call c # es', r')" using fh by (simp add: andThen_def await_def)
  with a have s: "[Call c] @ es' = pre @ x # post" by simp
  from split_append[OF s] show "(\<exists>e. snd (?t h) = Inl e) \<and> Q post"
  proof
    assume "\<exists>post1. [Call c] = pre @ x # post1 \<and> post = post1 @ es'"
    then obtain post1 where p: "[Call c] = pre @ x # post1" and q: "post = post1 @ es'"
      by blast
    from p have "pre = []" "x = Call c" "post1 = []" by (simp_all add: Cons_eq_append_conv)
    with a q assms(1)[of h] fh eq show ?thesis by simp
  next
    assume "\<exists>pre'. pre = [Call c] @ pre' \<and> es' = pre' @ x # post"
    then obtain pre' where p: "pre = [Call c] @ pre'" and e: "es' = pre' @ x # post" by blast
    have "fst (f (answer h) (h @ [Call c])) = pre' @ x # post" using fh e by simp
    moreover have "bad ((h @ [Call c]) @ pre') x" using a p by simp
    ultimately have "(\<exists>e. snd (f (answer h) (h @ [Call c])) = Inl e) \<and> Q post"
      using assms(2)[of "answer h"] unfolding stopsOn_def by blast
    then show ?thesis using eq fh by simp
  qed
qed

text \<open>
  A function that catches the failure of its call and returns \<open>False\<close>, which the caller
  turns into an error.
\<close>

lemma stopsOn_andThen_flag:
  assumes "\<And>h pre x post. fst (m h) = pre @ x # post \<Longrightarrow> bad (h @ pre) x
             \<Longrightarrow> snd (m h) = Inr False \<and> Q post"
    and "stopsOn bad Q n"
  shows "stopsOn bad Q (andThen m (\<lambda>ready. if \<not> ready then throw err else n))"
  unfolding stopsOn_def
proof (intro allI impI)
  fix h pre x post
  let ?t = "andThen m (\<lambda>ready. if \<not> ready then throw err else n)"
  assume a: "fst (?t h) = pre @ x # post \<and> bad (h @ pre) x"
  obtain es r where mh: "m h = (es, r)" by (cases "m h")
  show "(\<exists>e. snd (?t h) = Inl e) \<and> Q post"
  proof (cases r)
    case (Inl e)
    then have eq: "?t h = (es, Inl e)" using mh by (simp add: andThen_def)
    with a mh have "fst (m h) = pre @ x # post" by simp
    with a assms(1) have "snd (m h) = Inr False" by blast
    with mh Inl show ?thesis by simp
  next
    case (Inr ready)
    show ?thesis
    proof (cases ready)
      case False
      then have eq: "?t h = (es, Inl err)" using mh Inr by (simp add: andThen_def throw_def)
      with a mh have "fst (m h) = pre @ x # post" by simp
      with a assms(1) have "Q post" by blast
      then show ?thesis using eq by simp
    next
      case True
      obtain es' r' where nh: "n (h @ es) = (es', r')" by (cases "n (h @ es)")
      have eq: "?t h = (es @ es', r')" using mh Inr True nh by (simp add: andThen_def)
      with a have s: "es @ es' = pre @ x # post" by simp
      from split_append[OF s] show ?thesis
      proof
        assume "\<exists>post1. es = pre @ x # post1 \<and> post = post1 @ es'"
        then obtain post1 where "fst (m h) = pre @ x # post1" using mh by auto
        with a assms(1) have "snd (m h) = Inr False" by blast
        with mh Inr True show ?thesis by simp
      next
        assume "\<exists>pre'. pre = es @ pre' \<and> es' = pre' @ x # post"
        then obtain pre' where p: "pre = es @ pre'" and e: "es' = pre' @ x # post" by blast
        have "fst (n (h @ es)) = pre' @ x # post" using nh e by simp
        moreover have "bad ((h @ es) @ pre') x" using a p by simp
        ultimately have "(\<exists>e. snd (n (h @ es)) = Inl e) \<and> Q post"
          using assms(2) unfolding stopsOn_def by blast
        then show ?thesis using eq nh by simp
      qed
    qed
  qed
qed

text \<open>The run as a whole: the \<^verbatim>\<open>catch\<close> of deployCommand logs the failure and exits.\<close>

lemma stopsOn_deployCommand:
  assumes "stopsOn bad Q (deployCommandBody env raw)"
    and "\<And>e h. \<not> bad h (Log (DeploymentFailed e))"
    and "\<And>e post. Q post \<Longrightarrow> Q (post @ [Log (DeploymentFailed e)])"
    and "fst (deployCommand env raw) = pre @ x # post" and "bad pre x"
  shows "snd (deployCommand env raw) = Exit 1 \<and> Q post"
proof -
  obtain es r where b: "deployCommandBody env raw [] = (es, r)"
    by (cases "deployCommandBody env raw []")
  show ?thesis
  proof (cases r)
    case (Inr v)
    then have "fst (deployCommand env raw) = es" using b by (simp add: deployCommand_def)
    with assms(4) b have "fst (deployCommandBody env raw []) = pre @ x # post" by simp
    with assms(1,5) have "\<exists>e. snd (deployCommandBody env raw []) = Inl e"
      unfolding stopsOn_def by (metis append_Nil)
    with b Inr show ?thesis by simp
  next
    case (Inl e)
    then have eq: "deployCommand env raw = (es @ [Log (DeploymentFailed e)], Exit 1)"
      using b by (simp add: deployCommand_def)
    with assms(4) have s: "es @ [Log (DeploymentFailed e)] = pre @ x # post" by simp
    from split_append[OF s] show ?thesis
    proof
      assume "\<exists>post1. es = pre @ x # post1 \<and> post = post1 @ [Log (DeploymentFailed e)]"
      then obtain post1 where p: "es = pre @ x # post1"
        and q: "post = post1 @ [Log (DeploymentFailed e)]" by blast
      have "fst (deployCommandBody env raw []) = pre @ x # post1" using b p by simp
      with assms(1,5) have "Q post1" unfolding stopsOn_def by (metis append_Nil)
      then have "Q post" unfolding q by (rule assms(3))
      then show ?thesis using eq by simp
    next
      assume "\<exists>pre'. pre = es @ pre' \<and> [Log (DeploymentFailed e)] = pre' @ x # post"
      then obtain pre' where "[Log (DeploymentFailed e)] = pre' @ x # post" by blast
      then have "x = Log (DeploymentFailed e)" by (simp add: Cons_eq_append_conv)
      with assms(2,5) show ?thesis by blast
    qed
  qed
qed

subsection \<open>The events each function can add\<close>

lemma only_hasUncommittedChanges:
  assumes "accepts preflightCall P"
  shows "only P (hasUncommittedChanges env)"
  unfolding hasUncommittedChanges_def
  by (intro only_intros acceptsD1[OF assms] acceptsD2[OF assms]; simp)

lemma only_checkUncommittedChanges:
  assumes "accepts preflightCall P" and "\<And>m. P (Log (LogError (''Uncommitted'' @ m) None))"
  shows "only P (checkUncommittedChanges env force)"
  unfolding checkUncommittedChanges_def
  apply (intro only_intros only_hasUncommittedChanges assms(1))
  using assms(2) apply simp
  done

lemma only_loadConfigurationAndSecrets:
  assumes "accepts preflightCall P"
  shows "only P (loadConfigurationAndSecrets env)"
  unfolding loadConfigurationAndSecrets_def
  by (intro only_intros acceptsD1[OF assms] acceptsD2[OF assms]; simp)

lemma only_establishSSHConnection:
  assumes "accepts sessionCall P"
  shows "only P (establishSSHConnection env s)"
  unfolding establishSSHConnection_def
  by (intro only_intros acceptsD1[OF assms] acceptsD2[OF assms]; simp)

lemma only_performRegistryLogin:
  assumes "accepts mutationCall P"
  shows "only P (performRegistryLogin env s reg u p)"
  unfolding performRegistryLogin_def Let_def
  by (intro only_intros acceptsD1[OF assms] acceptsD2[OF assms]; simp)

lemma only_authenticateAndPullImage:
  assumes "accepts mutationCall P"
  shows "only P (authenticateAndPullImage env entry s context img)"
  unfolding authenticateAndPullImage_def Let_def
  by (intro only_intros only_performRegistryLogin assms acceptsD1[OF assms]
        acceptsD2[OF assms]; simp)

lemma only_buildOrTagAppImage:
  assumes "accepts buildCall P"
  shows "only P (buildOrTagAppImage env a img)"
  unfolding buildOrTagAppImage_def Let_def
  by (intro only_intros acceptsD1[OF assms] acceptsD2[OF assms]; simp)

lemma only_pushAppImage:
  assumes "accepts buildCall P"
  shows "only P (pushAppImage env a img cfg)"
  unfolding pushAppImage_def Let_def
  by (intro only_intros acceptsD1[OF assms] acceptsD2[OF assms]; simp)

lemma only_buildAndPushApp:
  assumes "accepts buildCall P" and "\<And>m e. P (Log (StepError m e))"
  shows "only P (buildAndPushApp env a context)"
  unfolding buildAndPushApp_def Let_def
  by (intro only_intros only_buildOrTagAppImage only_pushAppImage assms
        acceptsD1[OF assms(1)]; simp)

lemma stopsAt_buildAndPushApp:
  "stopsAt isStepError (buildAndPushApp env a context)"
proof -
  have acc: "accepts buildCall (\<lambda>e. \<not> isStepError e)"
    unfolding accepts_def
  proof (intro conjI allI impI)
    fix l assume "plainLog l" then show "\<not> isStepError (Log l)" by (cases l) simp_all
  next
    fix c :: call show "\<not> isStepError (Call c)" by simp
  qed
  show ?thesis
    unfolding buildAndPushApp_def Let_def
    by (intro stopsAt_try_catch stopsAt_rethrow only_intros only_buildOrTagAppImage
          only_pushAppImage acc; simp)
qed

lemma only_configureProxyForApp:
  assumes "accepts mutationCall P"
    and "\<And>host. P (Log (LogError (''Failed to configure proxy for host '' @ host) None))"
  shows "only P (configureProxyForApp env a s project)"
  unfolding configureProxyForApp_def Let_def
  by (intro only_intros assms(2) acceptsD1[OF assms(1)] acceptsD2[OF assms(1)]; simp)

lemma accepts_session: "accepts serverCall P \<Longrightarrow> accepts sessionCall P"
  by (simp add: accepts_def serverCall_def)

lemma accepts_mutation: "accepts serverCall P \<Longrightarrow> accepts mutationCall P"
  by (simp add: accepts_def serverCall_def)

lemma only_deployAppToServer_body:
  assumes "accepts serverCall P"
    and "\<And>host. P (Log (LogError (''Failed to configure proxy for host '' @ host) None))"
  shows "only P
       (seq (emit (VerboseLog (''Deploying '' @ name appEntry @ '' to '' @ serverHostname)))
       (seq (establishSSHConnection env serverHostname)
       (let imageNameWithRelease = buildImageName appEntry (releaseId context) in
        seq (authenticateAndPullImage env appEntry serverHostname context imageNameWithRelease)
       (seq (emit (ServerStepComplete ''Pulling image'' False))
       (andThen
          (await (PerformBlueGreenDeployment serverHostname (name appEntry) (releaseId context))
             (\<lambda>h. Inr (performBlueGreenDeployment env h serverHostname (name appEntry)
                         (releaseId context))))
          (\<lambda>deploymentResult.
             if \<not> success deploymentResult then
               seq (await (SSHClose serverHostname) (\<lambda>h. Inr ()))
                   (throw (Error (orDefault (result_error deploymentResult) ''Deployment failed'')))
             else
               seq (emit (ServerStepComplete ''Zero-downtime deployment'' False))
              (seq (configureProxyForApp env appEntry serverHostname (projectName context))
              (seq (emit (ServerStepComplete ''Configuring proxy'' isLastServer))
                   (await (SSHClose serverHostname) (\<lambda>h. Inr ()))))))))))"
  unfolding Let_def
  by (intro only_intros only_establishSSHConnection only_authenticateAndPullImage
        only_configureProxyForApp accepts_session[OF assms(1)] accepts_mutation[OF assms(1)]
        assms(2) acceptsD1[OF assms(1)] acceptsD2[OF assms(1)]; simp add: serverCall_def)

lemma only_deployAppToServer:
  assumes "accepts serverCall P"
    and "\<And>host. P (Log (LogError (''Failed to configure proxy for host '' @ host) None))"
    and "\<And>s e b. P (Log (ServerStepError s e b))"
  shows "only P (deployAppToServer env a s context isLast)"
  unfolding deployAppToServer_def
  by (intro only_try_catch only_seq only_emit only_throw assms(3)
        only_deployAppToServer_body assms(1,2))


lemma only_deployAppToServersFrom:
  assumes "accepts serverCall P"
    and "\<And>host. P (Log (LogError (''Failed to configure proxy for host '' @ host) None))"
    and "\<And>s e b. P (Log (ServerStepError s e b))"
  shows "only P (deployAppToServersFrom env a context i ss)"
  by (induction ss arbitrary: i)
     (simp_all add: only_ret only_seq only_deployAppToServer[OF assms])


lemma only_deployAppToServers:
  assumes "accepts serverCall P"
    and "\<And>host. P (Log (LogError (''Failed to configure proxy for host '' @ host) None))"
    and "\<And>s e b. P (Log (ServerStepError s e b))"
  shows "only P (deployAppToServers env a context)"
  unfolding deployAppToServers_def
  by (intro only_seq only_emit only_deployAppToServersFrom assms acceptsD1[OF assms(1)]) simp


lemma plain_resolveSecretKeys:
  assumes "accepts C P"
  shows "list_all P (fst (resolveSecretKeys n sm ks vars))"
  by (induction ks arbitrary: vars)
     (simp_all add: acceptsD1[OF assms] case_prod_unfold split: option.splits)

lemma plain_serviceEntryToContainerOptions:
  assumes "accepts C P"
  shows "list_all P (fst (serviceEntryToContainerOptions env svc sm project))"
  by (simp add: serviceEntryToContainerOptions_def resolveEnvironmentVariables_def Let_def
        plain_resolveSecretKeys[OF assms] case_prod_unfold)

lemma only_replaceServiceContainer:
  assumes "accepts mutationCall P"
  shows "only P (replaceServiceContainer env svc s context)"
  unfolding replaceServiceContainer_def Let_def
  by (intro only_intros only_sync plain_serviceEntryToContainerOptions[OF assms]
        acceptsD1[OF assms] acceptsD2[OF assms]; simp)

lemma only_deployServiceToServer:
  assumes "accepts serverCall P"
  shows "only P (deployServiceToServer env svc s context)"
  unfolding deployServiceToServer_def Let_def
  by (intro only_intros only_establishSSHConnection only_authenticateAndPullImage
        only_replaceServiceContainer accepts_session[OF assms] accepts_mutation[OF assms]
        acceptsD1[OF assms] acceptsD2[OF assms]; simp add: serverCall_def)

lemma only_deployService:
  assumes "accepts serverCall P"
  shows "only P (deployService env svc context)"
  unfolding deployService_def
  by (intro only_intros only_deployServiceToServer assms acceptsD1[OF assms]; simp)

subsection \<open>Infrastructure verification\<close>

lemma probedHosts_append [simp]: "probedHosts (xs @ ys) = probedHosts xs @ probedHosts ys"
  by (induction xs rule: probedHosts.induct) auto

lemma setAdd_distinct: "distinct xs \<Longrightarrow> distinct (setAdd xs x)"
  by (simp add: setAdd_def)

lemma setAdd_set: "set (setAdd xs x) = insert x (set xs)"
  by (auto simp: setAdd_def)

lemma foldl_setAdd_distinct: "distinct acc \<Longrightarrow> distinct (foldl setAdd acc xs)"
  by (induction xs arbitrary: acc) (simp_all add: setAdd_distinct)

lemma foldl_setAdd_set: "set (foldl setAdd acc xs) = set acc \<union> set xs"
  by (induction xs arbitrary: acc) (auto simp: setAdd_set)

lemma allTargetServers_aux:
  "distinct acc \<Longrightarrow>
   distinct (foldl (\<lambda>acc entry. foldl setAdd acc (servers entry)) acc targets)
   \<and> set (foldl (\<lambda>acc entry. foldl setAdd acc (servers entry)) acc targets)
       = set acc \<union> (\<Union>entry \<in> set targets. set (servers entry))"
proof (induction targets arbitrary: acc)
  case Nil
  then show ?case by simp
next
  case (Cons t targets)
  have d: "distinct (foldl setAdd acc (servers t))"
    using Cons.prems by (rule foldl_setAdd_distinct)
  show ?case
    using Cons.IH[OF d] by (auto simp: foldl_setAdd_set)
qed

lemma allTargetServers_distinct: "distinct (allTargetServers targets)"
  using allTargetServers_aux[of "[]" targets] by (simp add: allTargetServers_def)

lemma allTargetServers_set:
  "set (allTargetServers targets) = (\<Union>entry \<in> set targets. set (servers entry))"
  using allTargetServers_aux[of "[]" targets] by (simp add: allTargetServers_def)

lemma plain_verifyServer:
  assumes "accepts sessionCall P"
  shows "list_all P (fst (verifyServer env n s missing h))"
  by (cases missing)
     (simp add: verifyServer_def Let_def acceptsD1[OF assms] acceptsD2[OF assms]
        split: sum.splits)

lemma plain_verifyServers:
  assumes "accepts sessionCall P"
  shows "list_all P (fst (verifyServers env n ss missing h))"
  by (induction ss arbitrary: missing h)
     (simp_all add: case_prod_unfold plain_verifyServer[OF assms])

lemma probedHosts_verifyServer: "probedHosts (fst (verifyServer env n s missing h)) = [s]"
  by (cases missing) (simp add: verifyServer_def Let_def split: sum.splits)

lemma probedHosts_verifyServers: "probedHosts (fst (verifyServers env n ss missing h)) = ss"
  by (induction ss arbitrary: missing h)
     (simp_all add: case_prod_unfold probedHosts_verifyServer)

lemma verifyServer_grows:
  "set (fst missing) \<subseteq> set (fst (snd (verifyServer env n s missing h)))
   \<and> set (snd missing) \<subseteq> set (snd (snd (verifyServer env n s missing h)))"
  by (cases missing) (auto simp: verifyServer_def Let_def split: sum.splits)

lemma verifyServers_grows:
  "set (fst missing) \<subseteq> set (fst (snd (verifyServers env n ss missing h)))
   \<and> set (snd missing) \<subseteq> set (snd (snd (verifyServers env n ss missing h)))"
proof (induction ss arbitrary: missing h)
  case Nil
  show ?case by simp
next
  case (Cons s ss)
  obtain es m' where v: "verifyServer env n s missing h = (es, m')"
    by (cases "verifyServer env n s missing h")
  have "set (fst missing) \<subseteq> set (fst m')" "set (snd missing) \<subseteq> set (snd m')"
    using verifyServer_grows[of missing env n s h] v by simp_all
  moreover have "set (fst m') \<subseteq> set (fst (snd (verifyServers env n ss m' (h @ es))))"
    "set (snd m') \<subseteq> set (snd (snd (verifyServers env n ss m' (h @ es))))"
    using Cons.IH[of m' "h @ es"] by simp_all
  ultimately show ?case
    using v by (auto simp: case_prod_unfold)
qed

lemma verifyServer_throws:
  "probeThrows env n s h \<Longrightarrow>
   s \<in> set (fst (snd (verifyServer env n s missing h)))
   \<and> s \<in> set (snd (snd (verifyServer env n s missing h)))"
  by (cases missing)
     (auto simp: verifyServer_def probeThrows_def Let_def split: sum.splits)

lemma verifyServers_append:
  "verifyServers env n (xs @ ys) missing h =
     (fst (verifyServers env n xs missing h)
        @ fst (verifyServers env n ys (snd (verifyServers env n xs missing h))
                 (h @ fst (verifyServers env n xs missing h))),
      snd (verifyServers env n ys (snd (verifyServers env n xs missing h))
             (h @ fst (verifyServers env n xs missing h))))"
  by (induction xs arbitrary: missing h) (simp_all add: case_prod_unfold)

lemma verifyServers_throws:
  assumes "probeThrows env n s (h @ fst (verifyServers env n before missing h))"
  shows "s \<in> set (fst (snd (verifyServers env n (before @ s # after) missing h)))
         \<and> s \<in> set (snd (snd (verifyServers env n (before @ s # after) missing h)))"
proof -
  define h1 where "h1 = h @ fst (verifyServers env n before missing h)"
  define m1 where "m1 = snd (verifyServers env n before missing h)"
  define m2 where "m2 = snd (verifyServer env n s m1 h1)"
  define h2 where "h2 = h1 @ fst (verifyServer env n s m1 h1)"
  have in2: "s \<in> set (fst m2) \<and> s \<in> set (snd m2)"
    using verifyServer_throws[of env n s h1 m1] assms by (simp add: m2_def h1_def)
  have fin: "snd (verifyServers env n (before @ s # after) missing h)
           = snd (verifyServers env n after m2 h2)"
    by (simp add: verifyServers_append case_prod_unfold m2_def h2_def m1_def h1_def)
  show ?thesis
    using in2 verifyServers_grows[of m2 env n after h2] unfolding fin by blast
qed

lemma verifyInfrastructure_eq:
  "verifyInfrastructure env targets n h =
     (let h' = h @ [Log (VerboseLog (''Checking infrastructure on servers: ''
                  @ join (allTargetServers targets) '', ''))];
          v = verifyServers env n (allTargetServers targets) ([], []) h'
      in if fst (snd v) \<noteq> [] \<or> snd (snd v) \<noteq> [] then
           (Log (VerboseLog (''Checking infrastructure on servers: ''
                  @ join (allTargetServers targets) '', ''))
            # fst v
            @ (if fst (snd v) \<noteq> [] then
                 [Log (LogError (''Required network \"'' @ n
                    @ ''\" is missing on servers: '' @ join (fst (snd v)) '', '') None)]
               else [])
            @ (if snd (snd v) \<noteq> [] then
                 [Log (LogError (''Required luma-proxy container is not running on servers: ''
                    @ join (snd (snd v)) '', '') None)]
               else [])
            @ [infraFailure],
            Inl (Error ''Infrastructure verification failed''))
         else
           (Log (VerboseLog (''Checking infrastructure on servers: ''
                  @ join (allTargetServers targets) '', '')) # fst v, Inr ()))"
  by (simp add: verifyInfrastructure_def seq_def andThen_def emit_def Let_def infraFailure_def
        case_prod_unfold)

lemma only_verifyInfrastructure:
  assumes "accepts sessionCall P"
    and "\<And>m. P (Log (LogError (''Required '' @ m) None))"
    and "P infraFailure"
  shows "only P (verifyInfrastructure env targets n)"
  unfolding only_def
proof
  fix h
  have v: "list_all P (fst (verifyServers env n (allTargetServers targets) ([], []) h'))" for h'
    by (rule plain_verifyServers[OF assms(1)])
  have l: "P (Log (VerboseLog m))" for m
    by (rule acceptsD1[OF assms(1)]) simp
  show "list_all P (fst (verifyInfrastructure env targets n h))"
    using assms(2,3) by (simp add: verifyInfrastructure_eq Let_def v l)
qed

lemma guards_verifyInfrastructure:
  assumes "accepts sessionCall A"
    and "\<And>m. A (Log (LogError (''Required '' @ m) None))"
    and "A infraFailure"
  shows "guards (\<lambda>e. e = infraFailure) A (verifyInfrastructure env targets n)"
  unfolding guards_def
proof
  fix h
  have a: "list_all A (fst (verifyInfrastructure env targets n h))"
    using only_verifyInfrastructure[OF assms] by (simp add: only_def)
  have v: "list_all (\<lambda>e. e \<noteq> infraFailure)
             (fst (verifyServers env n (allTargetServers targets) ([], []) h'))" for h'
    by (rule plain_verifyServers[OF accepts_not_infraFailure])
  have "snd (verifyInfrastructure env targets n h) = Inr ()
        \<Longrightarrow> list_all (\<lambda>e. e \<noteq> infraFailure) (fst (verifyInfrastructure env targets n h))"
    by (simp add: verifyInfrastructure_eq Let_def v[unfolded infraFailure_def] infraFailure_def
          split: if_splits)
  moreover have "snd (verifyInfrastructure env targets n h) = Inr ()
        \<or> (\<exists>e. snd (verifyInfrastructure env targets n h) = Inl e)"
    by (simp add: verifyInfrastructure_eq Let_def)
  ultimately show "list_all (\<lambda>e. \<not> e = infraFailure) (fst (verifyInfrastructure env targets n h))
        \<or> (list_all A (fst (verifyInfrastructure env targets n h))
            \<and> (\<exists>e. snd (verifyInfrastructure env targets n h) = Inl e))"
    using a by blast
qed

lemma deployCommandBody_eq:
  "deployCommandBody env rawEntryNamesAndFlags =
     (case parseDeploymentArgs rawEntryNamesAndFlags of
        (entryNames, force, deployServices, verbose) \<Rightarrow>
          andThen (await GenerateReleaseId (\<lambda>h. Inr (generateReleaseId env h)))
            (\<lambda>release.
          seq (emit (DeploymentStart release))
         (seq (emit (Phase ''Configuration loaded''))
         (seq (checkUncommittedChanges env force)
         (andThen (loadConfigurationAndSecrets env)
            (\<lambda>(cfg, secretMap).
          seq (emit (Phase ''Git status verified''))
         (andThen (sync (identifyTargetEntries entryNames deployServices cfg))
            (afterResolution env release force deployServices verbose cfg secretMap))))))))"
  unfolding deployCommandBody_def afterResolution_def by (rule refl)

lemma plain_identifyTargetEntries:
  assumes "accepts C P"
  shows "list_all P (fst (identifyTargetEntries names deployServices cfg))"
proof -
  have w: "P (Log (Warn m))" for m by (rule acceptsD1[OF assms]) simp
  have l: "list_all P (fst (lookupEntries kind conf names))" for kind conf
    by (simp add: lookupEntries_fst list_all_iff w)
  show ?thesis
    by (simp add: identifyTargetEntries_def Let_def case_prod_unfold l w)
qed

lemma prefixClassD:
  assumes "prefixClass K"
  shows "accepts preflightCall K" and "K (Log (LogError (''Uncommitted'' @ m) None))"
  using assms by (simp_all add: prefixClass_def)

lemma guards_deployCommandBody:
  assumes "prefixClass (\<lambda>e. \<not> M e \<and> A e)"
    and "\<And>release force deployServices verbose cfg secretMap targets.
           guards M A (afterResolution env release force deployServices verbose cfg secretMap
             targets)"
  shows "guards M A (deployCommandBody env raw)"
  unfolding deployCommandBody_eq
  by (intro guards_case_prod guards_andThen_pre guards_seq_pre assms(2)
        only_await only_emit only_sync only_checkUncommittedChanges
        only_loadConfigurationAndSecrets
        plain_identifyTargetEntries[OF prefixClassD(1)[OF assms(1)]]
        prefixClassD[OF assms(1)] acceptsD1[OF prefixClassD(1)[OF assms(1)]]
        acceptsD2[OF prefixClassD(1)[OF assms(1)]]; simp)


lemma only_deployEntries:
  assumes "accepts (\<lambda>c. buildCall c \<or> serverCall c) P"
    and "\<And>host. P (Log (LogError (''Failed to configure proxy for host '' @ host) None))"
    and "\<And>m e. P (Log (StepError m e))"
    and "\<And>s e b. P (Log (ServerStepError s e b))"
  shows "only P (deployEntries env context)"
proof -
  have b: "accepts buildCall P" and s: "accepts serverCall P"
    using assms(1) by (simp_all add: accepts_def)
  show ?thesis
    unfolding deployEntries_def Let_def
    by (intro only_intros only_buildAndPushApp only_deployAppToServers only_deployService
          b s assms(2,3,4) acceptsD1[OF b]; simp)
qed

lemma infraFailure_facts:
  "Log (LogError (''Failed to configure proxy for host '' @ host) None) \<noteq> infraFailure"
  "Log (StepError m e) \<noteq> infraFailure"
  "Log (ServerStepError s e b) \<noteq> infraFailure"
  "Log (LogError ''No entries selected for deployment'' None) \<noteq> infraFailure"
  "Log (LogError (''Uncommitted'' @ m') None) \<noteq> infraFailure"
  "Log (LogError (''Required '' @ m') None) \<noteq> infraFailure"
  "Log (DeploymentComplete urls) \<noteq> infraFailure"
  "Log (Phase ph) \<noteq> infraFailure"
  by (simp_all add: infraFailure_def)

lemma mutating_facts:
  "\<not> mutating (Log l)"
  "preflightCall c \<Longrightarrow> \<not> mutating (Call c)"
  "sessionCall c \<Longrightarrow> \<not> mutating (Call c)"
  by (cases c; simp add: mutating_def)+

lemma accepts_not_mutating_preflight: "accepts preflightCall (\<lambda>e. \<not> mutating e)"
  by (simp add: accepts_def mutating_facts)

lemma accepts_not_mutating_session: "accepts sessionCall (\<lambda>e. \<not> mutating e)"
  by (simp add: accepts_def mutating_facts)

lemma guards_infra_afterResolution:
  "guards (\<lambda>e. e = infraFailure) (\<lambda>e. \<not> mutating e)
     (afterResolution env release force deployServices verbose cfg secretMap targets)"
  unfolding afterResolution_def Let_def
proof (rule guards_if; (rule guards_seq_pre, rule_tac [2] guards_seq_post)?)
  show "guards (\<lambda>e. e = infraFailure) (\<lambda>e. \<not> mutating e)
          (emit (LogError ''No entries selected for deployment'' None))"
    by (intro guards_only only_emit) (simp add: infraFailure_facts)
  show "only (\<lambda>e. e \<noteq> infraFailure \<and> \<not> mutating e) (emit (Phase ''Infrastructure ready''))"
    by (intro only_emit) (simp add: infraFailure_facts mutating_facts)
  show "guards (\<lambda>e. e = infraFailure) (\<lambda>e. \<not> mutating e)
          (verifyInfrastructure env targets (getProjectNetworkName env (config_name cfg)))"
    by (intro guards_verifyInfrastructure accepts_not_mutating_session)
       (simp_all add: mutating_facts infraFailure_def)
  show "only (\<lambda>e. e \<noteq> infraFailure)
          (seq (deployEntries env
                 \<lparr>config = cfg, secrets = secretMap, targetEntries = targets,
                    releaseId = release, projectName = config_name cfg,
                    networkName = getProjectNetworkName env (config_name cfg),
                    forceFlag = force, deployServicesFlag = deployServices,
                    verboseFlag = verbose\<rparr>)
             (emit (DeploymentComplete (collectUrls deployServices targets))))"
    by (intro only_seq only_emit only_deployEntries accepts_not_infraFailure)
       (simp_all add: infraFailure_def)
qed

lemma guards_infra_deployCommandBody:
  "guards (\<lambda>e. e = infraFailure) (\<lambda>e. \<not> mutating e) (deployCommandBody env raw)"
proof (rule guards_deployCommandBody)
  show "prefixClass (\<lambda>e. \<not> e = infraFailure \<and> \<not> mutating e)"
    unfolding prefixClass_def
    by (intro conjI allI accepts_conj accepts_not_infraFailure accepts_not_mutating_preflight)
       (simp_all add: infraFailure_def mutating_facts)
qed (rule guards_infra_afterResolution)

lemma deployCommand_cases:
  "(\<exists>a. deployCommandBody env raw [] = (fst (deployCommand env raw), Inr a)
        \<and> snd (deployCommand env raw) = Returned)
   \<or> (\<exists>es e. deployCommandBody env raw [] = (es, Inl e)
        \<and> deployCommand env raw = (es @ [Log (DeploymentFailed e)], Exit 1))"
  by (cases "deployCommandBody env raw []"; cases "snd (deployCommandBody env raw [])")
     (auto simp: deployCommand_def)

text \<open>
  deployCommand with its arguments parsed, and \<open>stopsOn\<close> for it from \<open>stopsOn\<close> for the
  deployment loop.
\<close>

lemma deployCommandBody_args:
  "deployCommandBody env raw =
     andThen (await GenerateReleaseId (\<lambda>h. Inr (generateReleaseId env h)))
       (\<lambda>release.
     seq (emit (DeploymentStart release))
    (seq (emit (Phase ''Configuration loaded''))
    (seq (checkUncommittedChanges env (''--force'' \<in> set raw))
    (andThen (loadConfigurationAndSecrets env)
       (\<lambda>(cfg, secretMap).
     seq (emit (Phase ''Git status verified''))
    (andThen (sync (identifyTargetEntries (fst (parseDeploymentArgs raw))
                (''--services'' \<in> set raw) cfg))
       (afterResolution env release (''--force'' \<in> set raw) (''--services'' \<in> set raw)
          (''--verbose'' \<in> set raw) cfg secretMap)))))))"
  by (simp add: deployCommandBody_eq parseDeploymentArgs_def)

lemma stopsOn_deployCommandBody:
  assumes "\<And>l h. \<not> bad h (Log l)"
    and "\<And>c h. preflightCall c \<Longrightarrow> \<not> bad h (Call c)"
    and "\<And>release cfg secretMap targets.
           stopsOn bad Q (afterResolution env release (''--force'' \<in> set raw)
             (''--services'' \<in> set raw) (''--verbose'' \<in> set raw) cfg secretMap targets)"
  shows "stopsOn bad Q (deployCommandBody env raw)"
proof -
  have p: "prefixClass (\<lambda>e. \<forall>h. \<not> bad h e)"
    using assms(1,2) by (simp add: prefixClass_def accepts_def)
  show ?thesis
    unfolding deployCommandBody_args
    by (intro stopsOn_andThen stopsOn_seq stopsOn_case_prod assms(3) stopsOn_only
          only_await only_emit only_sync only_checkUncommittedChanges
          only_loadConfigurationAndSecrets
          plain_identifyTargetEntries[OF prefixClassD(1)[OF p]]
          prefixClassD[OF p] acceptsD1[OF prefixClassD(1)[OF p]]
          acceptsD2[OF prefixClassD(1)[OF p]]; simp)
qed

lemma stopsOn_afterResolution:
  assumes "\<And>l h. \<not> bad h (Log l)"
    and "\<And>c h. sessionCall c \<Longrightarrow> \<not> bad h (Call c)"
    and "\<And>context. deployServicesFlag context = deployServices
           \<Longrightarrow> stopsOn bad Q (deployEntries env context)"
  shows "stopsOn bad Q
           (afterResolution env release force deployServices verbose cfg secretMap targets)"
proof -
  have s: "accepts sessionCall (\<lambda>e. \<forall>h. \<not> bad h e)"
    using assms(1,2) by (simp add: accepts_def)
  have v: "only (\<lambda>e. \<forall>h. \<not> bad h e) (verifyInfrastructure env targets n)" for n
    by (rule only_verifyInfrastructure[OF s]) (simp_all add: assms(1) infraFailure_def)
  have l: "stopsOn bad Q (emit x)" for x
    by (intro stopsOn_only only_emit) (simp add: assms(1))
  show ?thesis
    unfolding afterResolution_def Let_def
    by (intro stopsOn_if stopsOn_seq l stopsOn_only[OF v] assms(3)) simp
qed

lemma loadConfigurationAndSecrets_eq:
  "loadConfigurationAndSecrets env h =
     (case loadConfig env h of
        Inl e \<Rightarrow>
          ([Call LoadConfig,
            Log (LogError ''Failed to load configuration/secrets'' (Some e))], Inl e)
      | Inr cfg \<Rightarrow>
          (case loadSecrets env (h @ [Call LoadConfig]) of
             Inl e \<Rightarrow>
               ([Call LoadConfig, Call LoadSecrets,
                 Log (LogError ''Failed to load configuration/secrets'' (Some e))], Inl e)
           | Inr secretMap \<Rightarrow> ([Call LoadConfig, Call LoadSecrets], Inr (cfg, secretMap))))"
  by (simp add: loadConfigurationAndSecrets_def run_defs split: sum.splits)

lemma afterResolution_run:
  assumes "targets \<noteq> []"
  shows "afterResolution env release force deployServices verbose cfg secretMap targets h =
     (let v = verifyInfrastructure env targets (getProjectNetworkName env (config_name cfg))
                (h @ [Log (Phase ''Infrastructure ready'')])
      in case snd v of
           Inl e \<Rightarrow> (Log (Phase ''Infrastructure ready'') # fst v, Inl e)
         | Inr _ \<Rightarrow>
             (let d = seq (deployEntries env
                        \<lparr>config = cfg, secrets = secretMap, targetEntries = targets,
                         releaseId = release, projectName = config_name cfg,
                         networkName = getProjectNetworkName env (config_name cfg),
                         forceFlag = force, deployServicesFlag = deployServices,
                         verboseFlag = verbose\<rparr>)
                        (emit (DeploymentComplete (collectUrls deployServices targets)))
                        (h @ Log (Phase ''Infrastructure ready'') # fst v)
              in (Log (Phase ''Infrastructure ready'') # fst v @ fst d, snd d)))"
  using assms
  by (simp add: afterResolution_def Let_def andThen_def seq_def[of "emit _"]
        seq_def[of "verifyInfrastructure _ _ _"] emit_def case_prod_unfold split: sum.splits)

lemma preflightOnly_quiet:
  "list_all preflightOnly es \<Longrightarrow> \<not> (\<exists>c\<in>set (callsOf es). serverCall c \<or> buildCall c)"
proof (induction es rule: callsOf.induct)
  case (2 c es)
  then show ?case by (cases c) (simp_all add: serverCall_def)
qed simp_all

lemma preflightOnly_probedHosts: "list_all preflightOnly es \<Longrightarrow> probedHosts es = []"
proof (induction es rule: callsOf.induct)
  case (2 c es)
  then show ?case by (cases c) simp_all
qed simp_all

lemma preflightOnly_prefix:
  "list_all preflightOnly (fst (checkUncommittedChanges env force h))"
  "Call LoadConfig \<notin> set (fst (checkUncommittedChanges env force h))"
proof -
  have a: "accepts preflightCall preflightOnly"
    by (simp add: accepts_def)
  have "only preflightOnly (checkUncommittedChanges env force)"
    by (rule only_checkUncommittedChanges[OF a]) simp
  then show "list_all preflightOnly (fst (checkUncommittedChanges env force h))"
    by (simp add: only_def)
  have "only (\<lambda>e. e \<noteq> Call LoadConfig) (checkUncommittedChanges env force)"
    unfolding checkUncommittedChanges_def hasUncommittedChanges_def
    by (intro only_intros; simp)
  then show "Call LoadConfig \<notin> set (fst (checkUncommittedChanges env force h))"
    by (auto simp: only_def list_all_iff)
qed

text \<open>
  The shapes of a run of deployCommand, by where it stops: at the clean-workspace check,
  at the load of the configuration, at the load of the secrets, at an empty target set,
  or after the verification of the infrastructure for the resolved entries.
\<close>

lemma first_occurrence:
  assumes "xs @ y # ys = pre @ y # post" and "y \<notin> set xs" and "y \<notin> set pre"
  shows "pre = xs \<and> post = ys"
  using assms
proof (induction xs arbitrary: pre)
  case Nil
  then show ?case by (cases pre) auto
next
  case (Cons a xs)
  then show ?case by (cases pre) auto
qed

lemma run_shapes:
  obtains (stopped) h2 e where
      "list_all preflightOnly h2" "Call LoadConfig \<notin> set h2"
      "fst (deployCommand env raw) = h2 @ [Log (DeploymentFailed e)]"
  | (noConfig) h2 e where
      "list_all preflightOnly h2" "Call LoadConfig \<notin> set h2"
      "loadConfig env h2 = Inl e"
      "fst (deployCommand env raw) = h2 @ Call LoadConfig
         # [Log (LogError ''Failed to load configuration/secrets'' (Some e)),
            Log (DeploymentFailed e)]"
  | (noSecrets) h2 cfg e where
      "list_all preflightOnly h2" "Call LoadConfig \<notin> set h2"
      "loadConfig env h2 = Inr cfg" "loadSecrets env (h2 @ [Call LoadConfig]) = Inl e"
      "fst (deployCommand env raw) = h2 @ Call LoadConfig
         # [Call LoadSecrets,
            Log (LogError ''Failed to load configuration/secrets'' (Some e)),
            Log (DeploymentFailed e)]"
  | (noTargets) h2 cfg ws where
      "list_all preflightOnly h2" "Call LoadConfig \<notin> set h2"
      "loadConfig env h2 = Inr cfg"
      "snd (identifyTargetEntries (fst (parseDeploymentArgs raw))
              (''--services'' \<in> set raw) cfg) = []"
      "list_all preflightOnly ws"
      "fst (deployCommand env raw) = h2 @ Call LoadConfig # ws"
  | (verified) h2 cfg secretMap a rest where
      "list_all preflightOnly h2" "Call LoadConfig \<notin> set h2"
      "loadConfig env h2 = Inr cfg" "loadSecrets env (h2 @ [Call LoadConfig]) = Inr secretMap"
      "snd (identifyTargetEntries (fst (parseDeploymentArgs raw))
              (''--services'' \<in> set raw) cfg) \<noteq> []"
      "list_all preflightOnly a"
      "fst (deployCommand env raw) = h2 @ Call LoadConfig # a
         @ fst (verifyInfrastructure env
                  (snd (identifyTargetEntries (fst (parseDeploymentArgs raw))
                          (''--services'' \<in> set raw) cfg))
                  (getProjectNetworkName env (config_name cfg)) (h2 @ Call LoadConfig # a))
         @ rest"
      "\<forall>e. snd (verifyInfrastructure env
                  (snd (identifyTargetEntries (fst (parseDeploymentArgs raw))
                          (''--services'' \<in> set raw) cfg))
                  (getProjectNetworkName env (config_name cfg)) (h2 @ Call LoadConfig # a))
             = Inl e \<longrightarrow>
           rest = [Log (DeploymentFailed e)] \<and> snd (deployCommand env raw) = Exit 1"
proof -
  define release where "release = generateReleaseId env []"
  define h1 where "h1 = [Call GenerateReleaseId, Log (DeploymentStart release),
      Log (Phase ''Configuration loaded'')]"
  define force where "force = (''--force'' \<in> set raw)"
  define ds where "ds = (''--services'' \<in> set raw)"
  define verbose where "verbose = (''--verbose'' \<in> set raw)"
  define names where "names = fst (parseDeploymentArgs raw)"
  obtain ec rc where c: "checkUncommittedChanges env force h1 = (ec, rc)"
    by (cases "checkUncommittedChanges env force h1")
  define h2 where "h2 = h1 @ ec"
  have pre2: "list_all preflightOnly h2" and nl2: "Call LoadConfig \<notin> set h2"
    using preflightOnly_prefix[of env force h1] c by (simp_all add: h2_def h1_def)
  have failed: "deployCommand env raw = (es @ [Log (DeploymentFailed e)], Exit 1)"
    if "deployCommandBody env raw [] = (es, Inl e)" for es e
    using that by (simp add: deployCommand_def)
  have returned: "deployCommand env raw = (es, Returned)"
    if "deployCommandBody env raw [] = (es, Inr u)" for es u
    using that by (simp add: deployCommand_def)
  show ?thesis
  proof (cases rc)
    case (Inl e)
    have "deployCommandBody env raw [] = (h2, Inl e)"
      using c Inl
      by (simp add: deployCommandBody_args run_defs h2_def h1_def release_def force_def)
    from failed[OF this] have "fst (deployCommand env raw) = h2 @ [Log (DeploymentFailed e)]"
      by simp
    then show ?thesis by (rule stopped[OF pre2 nl2])
  next
    case (Inr u)
    show ?thesis
    proof (cases "loadConfig env h2")
      case (Inl e)
      have "deployCommandBody env raw [] =
          (h2 @ [Call LoadConfig,
             Log (LogError ''Failed to load configuration/secrets'' (Some e))], Inl e)"
        using c Inr Inl
        by (simp add: deployCommandBody_args andThen_def seq_def await_def emit_def
            loadConfigurationAndSecrets_eq h2_def h1_def release_def force_def)
      from failed[OF this] have "fst (deployCommand env raw) =
          h2 @ Call LoadConfig
            # [Log (LogError ''Failed to load configuration/secrets'' (Some e)),
               Log (DeploymentFailed e)]"
        by simp
      then show ?thesis by (rule noConfig[OF pre2 nl2 Inl])
    next
      case cfg: (Inr cfg)
      show ?thesis
      proof (cases "loadSecrets env (h2 @ [Call LoadConfig])")
        case (Inl e)
        have "deployCommandBody env raw [] =
            (h2 @ [Call LoadConfig, Call LoadSecrets,
               Log (LogError ''Failed to load configuration/secrets'' (Some e))], Inl e)"
          using c Inr cfg Inl
          by (simp add: deployCommandBody_args andThen_def seq_def await_def emit_def
              loadConfigurationAndSecrets_eq h2_def h1_def release_def force_def)
        from failed[OF this] have "fst (deployCommand env raw) =
            h2 @ Call LoadConfig
              # [Call LoadSecrets,
                 Log (LogError ''Failed to load configuration/secrets'' (Some e)),
                 Log (DeploymentFailed e)]"
          by simp
        then show ?thesis by (rule noSecrets[OF pre2 nl2 cfg Inl])
      next
        case sm: (Inr secretMap)
        define t where "t = identifyTargetEntries names ds cfg"
        define h3 where "h3 = h2 @ Call LoadConfig # Call LoadSecrets
            # Log (Phase ''Git status verified'') # fst t"
        define r where
          "r = afterResolution env release force ds verbose cfg secretMap (snd t) h3"
        have body: "deployCommandBody env raw [] = (h3 @ fst r, snd r)"
          using c Inr cfg sm
          by (simp add: deployCommandBody_args andThen_def seq_def await_def emit_def sync_def
              loadConfigurationAndSecrets_eq h2_def h1_def release_def force_def ds_def
              verbose_def names_def t_def h3_def r_def case_prod_unfold)
        have plain: "list_all preflightOnly (fst t)"
          unfolding t_def by (rule plain_identifyTargetEntries[of "\<lambda>c. False"])
            (simp add: accepts_def)
        show ?thesis
        proof (cases "snd t = []")
          case True
          then have "r = ([Log (LogError ''No entries selected for deployment'' None)], Inr ())"
            by (simp add: r_def afterResolution_def emit_def)
          with body have "deployCommandBody env raw [] =
              (h3 @ [Log (LogError ''No entries selected for deployment'' None)], Inr ())"
            by simp
          from returned[OF this] have tr: "fst (deployCommand env raw) =
              h2 @ Call LoadConfig # (Call LoadSecrets # Log (Phase ''Git status verified'')
                # fst t @ [Log (LogError ''No entries selected for deployment'' None)])"
            by (simp add: h3_def)
          have ws: "list_all preflightOnly (Call LoadSecrets
              # Log (Phase ''Git status verified'')
              # fst t @ [Log (LogError ''No entries selected for deployment'' None)])"
            using plain by simp
          show ?thesis
            by (rule noTargets[OF pre2 nl2 cfg True[unfolded t_def names_def ds_def] ws tr])
        next
          case False
          define net where "net = getProjectNetworkName env (config_name cfg)"
          define a where "a = Call LoadSecrets # Log (Phase ''Git status verified'') # fst t
              @ [Log (Phase ''Infrastructure ready'')]"
          define v where "v = verifyInfrastructure env (snd t) net (h2 @ Call LoadConfig # a)"
          have hist: "h3 @ [Log (Phase ''Infrastructure ready'')] = h2 @ Call LoadConfig # a"
            by (simp add: h3_def a_def)
          have pa: "list_all preflightOnly a" using plain by (simp add: a_def)
          have "\<exists>rest. fst (deployCommand env raw) = h2 @ Call LoadConfig # a @ fst v @ rest
              \<and> (\<forall>e. snd v = Inl e \<longrightarrow>
                    rest = [Log (DeploymentFailed e)] \<and> snd (deployCommand env raw) = Exit 1)"
          proof (cases "snd v")
            case (Inl e)
            have "r = (Log (Phase ''Infrastructure ready'') # fst v, Inl e)"
              using Inl unfolding r_def afterResolution_run[OF False] v_def net_def hist
              by (simp add: Let_def)
            with body have "deployCommandBody env raw [] =
                (h3 @ Log (Phase ''Infrastructure ready'') # fst v, Inl e)" by simp
            from failed[OF this] show ?thesis
              using Inl by (simp add: h3_def a_def)
          next
            case (Inr w)
            define d where "d = seq (deployEntries env
                        \<lparr>config = cfg, secrets = secretMap, targetEntries = snd t,
                         releaseId = release, projectName = config_name cfg,
                         networkName = getProjectNetworkName env (config_name cfg),
                         forceFlag = force, deployServicesFlag = ds,
                         verboseFlag = verbose\<rparr>)
                        (emit (DeploymentComplete (collectUrls ds (snd t))))
                        (h3 @ Log (Phase ''Infrastructure ready'') # fst v)"
            have "r = (Log (Phase ''Infrastructure ready'') # fst v @ fst d, snd d)"
              using Inr unfolding r_def afterResolution_run[OF False] v_def net_def hist d_def
              by (simp add: Let_def)
            with body have b: "deployCommandBody env raw [] =
                (h3 @ Log (Phase ''Infrastructure ready'') # fst v @ fst d, snd d)" by simp
            show ?thesis
            proof (cases "snd d")
              case (Inl e)
              from failed[OF b[unfolded Inl]] show ?thesis
                using Inr by (simp add: h3_def a_def)
            next
              case u: (Inr u)
              from returned[OF b[unfolded u]] show ?thesis
                using Inr by (simp add: h3_def a_def)
            qed
          qed
          then obtain rest where
            tr: "fst (deployCommand env raw) = h2 @ Call LoadConfig # a @ fst v @ rest"
            and ab: "\<forall>e. snd v = Inl e \<longrightarrow>
                    rest = [Log (DeploymentFailed e)] \<and> snd (deployCommand env raw) = Exit 1"
            by blast
          show ?thesis
            by (rule verified[OF pre2 nl2 cfg sm False[unfolded t_def names_def ds_def] pa
                  tr[unfolded v_def net_def t_def names_def ds_def]
                  ab[unfolded v_def net_def t_def names_def ds_def]])
        qed
      qed
    qed
  qed
qed

lemma probedHosts_resolved:
  assumes "list_all preflightOnly pre" and "list_all preflightOnly a"
  shows "probedHosts (pre @ Call LoadConfig # a @ fst (verifyInfrastructure env targets n h))
           = allTargetServers targets"
  using preflightOnly_probedHosts[OF assms(1)] preflightOnly_probedHosts[OF assms(2)]
  by (simp add: verifyInfrastructure_eq Let_def probedHosts_verifyServers infraFailure_def)

text \<open>
  A run that contacts a server or builds an image has loaded the configuration, resolved
  the targets from it, and verified the infrastructure for exactly these targets, all
  before anything else than log lines and the calls of the preflight.
\<close>

lemma run_verifies_resolved_targets:
  assumes "\<exists>c\<in>set (callsOf (fst (deployCommand env raw))). serverCall c \<or> buildCall c"
  shows "\<exists>pre cfg a rest.
           (let resolved = snd (identifyTargetEntries (fst (parseDeploymentArgs raw))
                            (''--services'' \<in> set raw) cfg);
                v = verifyInfrastructure env resolved
                      (getProjectNetworkName env (config_name cfg))
                      (pre @ Call LoadConfig # a)
            in fst (deployCommand env raw) = pre @ Call LoadConfig # a @ fst v @ rest
               \<and> list_all preflightOnly pre \<and> Call LoadConfig \<notin> set pre
               \<and> loadConfig env pre = Inr cfg
               \<and> list_all preflightOnly a
               \<and> probedHosts (pre @ Call LoadConfig # a @ fst v) = allTargetServers resolved
               \<and> (\<forall>e. snd v = Inl e \<longrightarrow>
                     rest = [Log (DeploymentFailed e)] \<and> snd (deployCommand env raw) = Exit 1))"
proof (cases rule: run_shapes[of env raw])
  case (stopped h2 e)
  have "list_all preflightOnly (fst (deployCommand env raw))"
    using stopped by simp
  from preflightOnly_quiet[OF this] assms show ?thesis by blast
next
  case (noConfig h2 e)
  have "list_all preflightOnly (fst (deployCommand env raw))"
    using noConfig by simp
  from preflightOnly_quiet[OF this] assms show ?thesis by blast
next
  case (noSecrets h2 cfg e)
  have "list_all preflightOnly (fst (deployCommand env raw))"
    using noSecrets by simp
  from preflightOnly_quiet[OF this] assms show ?thesis by blast
next
  case (noTargets h2 cfg ws)
  have "list_all preflightOnly (fst (deployCommand env raw))"
    using noTargets by simp
  from preflightOnly_quiet[OF this] assms show ?thesis by blast
next
  case (verified h2 cfg secretMap a rest)
  show ?thesis
    unfolding Let_def
    using verified(1,2,3,6,7,8) probedHosts_resolved[OF verified(1,6)] by blast
qed

text \<open>
  When the configuration and the secrets load and at least one entry is resolved, the run
  goes on, after log lines and calls of the preflight, with the verification of the
  infrastructure for the resolved entries.
\<close>

lemma resolved_targets_are_verified:
  assumes "fst (deployCommand env raw) = early @ Call LoadConfig # mid"
    and "Call LoadConfig \<notin> set early"
    and "loadConfig env early = Inr cfg"
    and "loadSecrets env (early @ [Call LoadConfig]) = Inr secretMap"
    and "snd (identifyTargetEntries (fst (parseDeploymentArgs raw))
                (''--services'' \<in> set raw) cfg) \<noteq> []"
  shows "\<exists>a rest.
           (let resolved = snd (identifyTargetEntries (fst (parseDeploymentArgs raw))
                            (''--services'' \<in> set raw) cfg);
                v = verifyInfrastructure env resolved
                      (getProjectNetworkName env (config_name cfg))
                      (early @ Call LoadConfig # a)
            in mid = a @ fst v @ rest
               \<and> list_all preflightOnly early \<and> list_all preflightOnly a
               \<and> probedHosts (early @ Call LoadConfig # a @ fst v) = allTargetServers resolved
               \<and> (\<forall>e. snd v = Inl e \<longrightarrow>
                     rest = [Log (DeploymentFailed e)] \<and> snd (deployCommand env raw) = Exit 1))"
proof (cases rule: run_shapes[of env raw])
  case (stopped h2 e)
  have "Call LoadConfig \<notin> set (fst (deployCommand env raw))"
    using stopped by simp
  with assms(1) show ?thesis by simp
next
  case (noConfig h2 e)
  from noConfig(4) assms(1)
  have "h2 @ Call LoadConfig
         # [Log (LogError ''Failed to load configuration/secrets'' (Some e)),
            Log (DeploymentFailed e)] = early @ Call LoadConfig # mid" by simp
  from first_occurrence[OF this noConfig(2) assms(2)] noConfig(3) assms(3)
  show ?thesis by simp
next
  case (noSecrets h2 cfg' e)
  from noSecrets(5) assms(1)
  have "h2 @ Call LoadConfig
         # [Call LoadSecrets,
            Log (LogError ''Failed to load configuration/secrets'' (Some e)),
            Log (DeploymentFailed e)] = early @ Call LoadConfig # mid" by simp
  from first_occurrence[OF this noSecrets(2) assms(2)] noSecrets(4) assms(4)
  show ?thesis by simp
next
  case (noTargets h2 cfg' ws)
  from noTargets(6) assms(1)
  have "h2 @ Call LoadConfig # ws = early @ Call LoadConfig # mid" by simp
  from first_occurrence[OF this noTargets(2) assms(2)] have "early = h2" by simp
  with noTargets(3) assms(3) have "cfg' = cfg" by simp
  with noTargets(4) assms(5) show ?thesis by simp
next
  case (verified h2 cfg' secretMap' a rest)
  let ?v = "verifyInfrastructure env
                  (snd (identifyTargetEntries (fst (parseDeploymentArgs raw))
                          (''--services'' \<in> set raw) cfg'))
                  (getProjectNetworkName env (config_name cfg')) (h2 @ Call LoadConfig # a)"
  from verified(7) assms(1)
  have "h2 @ Call LoadConfig # (a @ fst ?v @ rest) = early @ Call LoadConfig # mid" by simp
  from first_occurrence[OF this verified(2) assms(2)]
  have e: "early = h2" and m: "mid = a @ fst ?v @ rest" by simp_all
  from verified(3) assms(3) e have c: "cfg' = cfg" by simp
  show ?thesis
    unfolding Let_def
    using m verified(1,6,8) probedHosts_resolved[OF verified(1,6)] unfolding e c by blast
qed

lemma unreachableS2_run:
  "deployCommand unreachableS2Env [''web''] =
    ([Call GenerateReleaseId, Log (DeploymentStart ''a1b2c3d''),
      Log (Phase ''Configuration loaded''),
      Call (ExecSync ''git status --porcelain''), Call LoadConfig,
      Call LoadSecrets, Log (Phase ''Git status verified''),
      Log (Phase ''Infrastructure ready''),
      Log (VerboseLog ''Checking infrastructure on servers: s1, s2''),
      Call (GetSSHCredentials ''s1''), Call (SSHClientCreate ''s1''),
      Call (SSHConnect ''s1''), Call (NetworkExists ''s1'' ''acme-network''),
      Call (IsProxyRunning ''s1''), Call (SSHClose ''s1''),
      Call (GetSSHCredentials ''s2''), Call (SSHClientCreate ''s2''),
      Call (SSHConnect ''s2''), Call (NetworkExists ''s2'' ''acme-network''),
      Log (VerboseLog ''Error verifying s2: Error: connect ETIMEDOUT''),
      Call (SSHClose ''s2''),
      Log (LogError ''Required network \"acme-network\" is missing on servers: s2'' None),
      Log (LogError ''Required luma-proxy container is not running on servers: s2'' None),
      Log (LogError ''Please run `luma setup` to create the required infrastructure'' None),
      Log (DeploymentFailed (Error ''Infrastructure verification failed''))],
     Exit 1)"
  by code_simp

lemma unreachableS2_verification:
  "snd (verifyInfrastructure unreachableS2Env [webApp] ''acme-network'' h)
     = Inl (Error ''Infrastructure verification failed'')"
  by (simp add: verifyInfrastructure_eq Let_def allTargetServers_def setAdd_def webApp_def
        verifyServer_def unreachableS2Env_def happyEnv_def)

text \<open>
  Claim C4. verifyInfrastructure probes exactly the distinct servers of the target
  entries, each once, in order of first occurrence. If any call made while probing a host
  throws, the host is in both the missing-network and the missing-proxy list at the end of
  the loop. If either list is non-empty, verifyInfrastructure logs the remediation line
  and throws; and in every run of deployCommand whose trace has that line, no build, tag,
  push, login, pull, container or proxy call occurs anywhere in the trace and the process
  exits with status 1. Every run of deployCommand that contacts a server or builds an
  image has this trace: log lines and calls of the preflight, the call that loads the
  configuration, again log lines and calls of the preflight, then the events of
  verifyInfrastructure for the entries that identifyTargetEntries resolves from the
  arguments and the loaded configuration, then the rest. The hosts probed up to the end
  of that verification are the distinct servers of the resolved entries, and when the
  verification throws, the rest is the line that reports the failed deployment and the
  process exits with status 1. And in every run in which the configuration and the
  secrets load and identifyTargetEntries resolves at least one entry, the load of the
  configuration is followed by log lines and calls of the preflight and then by the
  events of that verification.
\<close>

theorem infrastructure_verification_gate:
  "(probedHosts (fst (verifyInfrastructure env targets n h)) = allTargetServers targets
      \<and> distinct (allTargetServers targets)
      \<and> set (allTargetServers targets) = (\<Union>entry \<in> set targets. set (servers entry)))
   \<and> (probeThrows env n s (h @ fst (verifyServers env n before missing h)) \<longrightarrow>
        s \<in> set (fst (snd (verifyServers env n (before @ s # after) missing h)))
        \<and> s \<in> set (snd (snd (verifyServers env n (before @ s # after) missing h))))
   \<and> (fst (snd (verifyServers env n (allTargetServers targets) ([], [])
                   (h @ [checkingLog targets]))) \<noteq> []
       \<or> snd (snd (verifyServers env n (allTargetServers targets) ([], [])
                   (h @ [checkingLog targets]))) \<noteq> []
       \<longrightarrow> snd (verifyInfrastructure env targets n h)
             = Inl (Error ''Infrastructure verification failed'')
           \<and> infraFailure \<in> set (fst (verifyInfrastructure env targets n h)))
   \<and> (infraFailure \<in> set (fst (deployCommand env raw)) \<longrightarrow>
        list_all (\<lambda>e. \<not> mutating e) (fst (deployCommand env raw))
        \<and> snd (deployCommand env raw) = Exit 1)
   \<and> ((\<exists>c\<in>set (callsOf (fst (deployCommand env raw))). serverCall c \<or> buildCall c) \<longrightarrow>
        (\<exists>pre cfg a rest.
           (let resolved = snd (identifyTargetEntries (fst (parseDeploymentArgs raw))
                             (''--services'' \<in> set raw) cfg);
                v = verifyInfrastructure env resolved
                      (getProjectNetworkName env (config_name cfg))
                      (pre @ Call LoadConfig # a)
            in fst (deployCommand env raw) = pre @ Call LoadConfig # a @ fst v @ rest
               \<and> list_all preflightOnly pre \<and> Call LoadConfig \<notin> set pre
               \<and> loadConfig env pre = Inr cfg
               \<and> list_all preflightOnly a
               \<and> probedHosts (pre @ Call LoadConfig # a @ fst v) = allTargetServers resolved
               \<and> (\<forall>e. snd v = Inl e \<longrightarrow>
                     rest = [Log (DeploymentFailed e)]
                     \<and> snd (deployCommand env raw) = Exit 1))))
   \<and> (fst (deployCommand env raw) = early @ Call LoadConfig # mid
        \<and> Call LoadConfig \<notin> set early
        \<and> loadConfig env early = Inr cfg
        \<and> loadSecrets env (early @ [Call LoadConfig]) = Inr secretMap
        \<and> snd (identifyTargetEntries (fst (parseDeploymentArgs raw))
                 (''--services'' \<in> set raw) cfg) \<noteq> [] \<longrightarrow>
        (\<exists>a rest.
           (let resolved = snd (identifyTargetEntries (fst (parseDeploymentArgs raw))
                            (''--services'' \<in> set raw) cfg);
                v = verifyInfrastructure env resolved
                      (getProjectNetworkName env (config_name cfg))
                      (early @ Call LoadConfig # a)
            in mid = a @ fst v @ rest
               \<and> list_all preflightOnly early \<and> list_all preflightOnly a
               \<and> probedHosts (early @ Call LoadConfig # a @ fst v) = allTargetServers resolved
               \<and> (\<forall>e. snd v = Inl e \<longrightarrow>
                     rest = [Log (DeploymentFailed e)]
                     \<and> snd (deployCommand env raw) = Exit 1))))"
proof (intro conjI impI)
  show "probedHosts (fst (verifyInfrastructure env targets n h)) = allTargetServers targets"
    by (simp add: verifyInfrastructure_eq Let_def probedHosts_verifyServers infraFailure_def)
  show "distinct (allTargetServers targets)"
    by (rule allTargetServers_distinct)
  show "set (allTargetServers targets) = (\<Union>entry \<in> set targets. set (servers entry))"
    by (rule allTargetServers_set)
next
  assume t: "probeThrows env n s (h @ fst (verifyServers env n before missing h))"
  show "s \<in> set (fst (snd (verifyServers env n (before @ s # after) missing h)))"
    using verifyServers_throws[OF t] by blast
  show "s \<in> set (snd (snd (verifyServers env n (before @ s # after) missing h)))"
    using verifyServers_throws[OF t] by blast
next
  assume m: "fst (snd (verifyServers env n (allTargetServers targets) ([], [])
                   (h @ [checkingLog targets]))) \<noteq> []
       \<or> snd (snd (verifyServers env n (allTargetServers targets) ([], [])
                   (h @ [checkingLog targets]))) \<noteq> []"
  show "snd (verifyInfrastructure env targets n h)
          = Inl (Error ''Infrastructure verification failed'')"
    using m unfolding checkingLog_def by (simp add: verifyInfrastructure_eq Let_def)
  show "infraFailure \<in> set (fst (verifyInfrastructure env targets n h))"
    using m unfolding checkingLog_def by (simp add: verifyInfrastructure_eq Let_def)
next
  assume i: "infraFailure \<in> set (fst (deployCommand env raw))"
  from deployCommand_cases[of env raw]
  have "list_all (\<lambda>e. \<not> mutating e) (fst (deployCommand env raw))
        \<and> snd (deployCommand env raw) = Exit 1"
  proof (elim disjE exE conjE)
    fix a
    assume b: "deployCommandBody env raw [] = (fst (deployCommand env raw), Inr a)"
    have "list_all (\<lambda>e. \<not> e = infraFailure) (fst (deployCommandBody env raw []))"
      using guards_infra_deployCommandBody[of env raw] b
      by (auto simp: guards_def dest!: spec[of _ "[]"])
    then show ?thesis using i b by (auto simp: list_all_iff)
  next
    fix es e
    assume b: "deployCommandBody env raw [] = (es, Inl e)"
      and d: "deployCommand env raw = (es @ [Log (DeploymentFailed e)], Exit 1)"
    have "infraFailure \<in> set es" using i d by (simp add: infraFailure_def)
    then have "list_all (\<lambda>e. \<not> mutating e) es"
      using guards_infra_deployCommandBody[of env raw] b
      by (auto simp: guards_def list_all_iff dest!: spec[of _ "[]"])
    then show ?thesis using d by (simp add: mutating_facts)
  qed
  then show "list_all (\<lambda>e. \<not> mutating e) (fst (deployCommand env raw))"
    and "snd (deployCommand env raw) = Exit 1" by simp_all
next
  assume "\<exists>c\<in>set (callsOf (fst (deployCommand env raw))). serverCall c \<or> buildCall c"
  then show "\<exists>pre cfg a rest.
           (let resolved = snd (identifyTargetEntries (fst (parseDeploymentArgs raw))
                             (''--services'' \<in> set raw) cfg);
                v = verifyInfrastructure env resolved
                      (getProjectNetworkName env (config_name cfg))
                      (pre @ Call LoadConfig # a)
            in fst (deployCommand env raw) = pre @ Call LoadConfig # a @ fst v @ rest
               \<and> list_all preflightOnly pre \<and> Call LoadConfig \<notin> set pre
               \<and> loadConfig env pre = Inr cfg
               \<and> list_all preflightOnly a
               \<and> probedHosts (pre @ Call LoadConfig # a @ fst v) = allTargetServers resolved
               \<and> (\<forall>e. snd v = Inl e \<longrightarrow>
                     rest = [Log (DeploymentFailed e)]
                     \<and> snd (deployCommand env raw) = Exit 1))"
    by (rule run_verifies_resolved_targets)
next
  assume "fst (deployCommand env raw) = early @ Call LoadConfig # mid
        \<and> Call LoadConfig \<notin> set early
        \<and> loadConfig env early = Inr cfg
        \<and> loadSecrets env (early @ [Call LoadConfig]) = Inr secretMap
        \<and> snd (identifyTargetEntries (fst (parseDeploymentArgs raw))
                 (''--services'' \<in> set raw) cfg) \<noteq> []"
  then show "\<exists>a rest.
           (let resolved = snd (identifyTargetEntries (fst (parseDeploymentArgs raw))
                            (''--services'' \<in> set raw) cfg);
                v = verifyInfrastructure env resolved
                      (getProjectNetworkName env (config_name cfg))
                      (early @ Call LoadConfig # a)
            in mid = a @ fst v @ rest
               \<and> list_all preflightOnly early \<and> list_all preflightOnly a
               \<and> probedHosts (early @ Call LoadConfig # a @ fst v) = allTargetServers resolved
               \<and> (\<forall>e. snd v = Inl e \<longrightarrow>
                     rest = [Log (DeploymentFailed e)]
                     \<and> snd (deployCommand env raw) = Exit 1))"
    using resolved_targets_are_verified[of env raw early mid cfg secretMap] by blast
qed

theorem infrastructure_verification_gate_witness:
  "probedHosts (fst (verifyInfrastructure unreachableS2Env [webApp] ''acme-network'' []))
     = [''s1'', ''s2'']
   \<and> snd (verifyServers unreachableS2Env ''acme-network'' ([''s1''] @ ''s2'' # []) ([], []) [])
     = ([''s2''], [''s2''])
   \<and> snd (verifyInfrastructure unreachableS2Env [webApp] ''acme-network'' [])
     = Inl (Error ''Infrastructure verification failed'')
   \<and> list_all (\<lambda>e. \<not> mutating e) (fst (deployCommand unreachableS2Env [''web'']))
   \<and> snd (deployCommand unreachableS2Env [''web'']) = Exit 1
   \<and> (\<exists>pre a.
         fst (deployCommand unreachableS2Env [''web''])
           = pre @ Call LoadConfig # a
             @ fst (verifyInfrastructure unreachableS2Env [webApp] ''acme-network''
                      (pre @ Call LoadConfig # a))
             @ [Log (DeploymentFailed (Error ''Infrastructure verification failed''))]
         \<and> probedHosts (pre @ Call LoadConfig # a
             @ fst (verifyInfrastructure unreachableS2Env [webApp] ''acme-network''
                      (pre @ Call LoadConfig # a))) = [''s1'', ''s2''])
   \<and> (\<exists>a. drop 5 (fst (deployCommand unreachableS2Env [''web'']))
           = a @ fst (verifyInfrastructure unreachableS2Env [webApp] ''acme-network''
                        (take 4 (fst (deployCommand unreachableS2Env [''web'']))
                           @ Call LoadConfig # a))
             @ [Log (DeploymentFailed (Error ''Infrastructure verification failed''))])"
proof -
  note T = infrastructure_verification_gate [of unreachableS2Env "[webApp]" "''acme-network''"
      "[]" "''s2''" "[''s1'']" "([], [])" "[]" "[''web'']"
      "take 4 (fst (deployCommand unreachableS2Env [''web'']))"
      "drop 5 (fst (deployCommand unreachableS2Env [''web'']))" exampleConfig Map.empty]
  have v: "snd (verifyServers unreachableS2Env ''acme-network'' [''s1'', ''s2''] ([], []) [])
      = ([''s2''], [''s2''])"
    by code_simp
  have p: "probedHosts (fst (verifyInfrastructure unreachableS2Env [webApp] ''acme-network'' []))
     = [''s1'', ''s2'']"
    by code_simp
  have t: "probeThrows unreachableS2Env ''acme-network'' ''s2''
      ([] @ fst (verifyServers unreachableS2Env ''acme-network'' [''s1''] ([], []) []))"
    by code_simp
  have i: "infraFailure \<in> set (fst (deployCommand unreachableS2Env [''web'']))"
    by (simp add: unreachableS2_run infraFailure_def)
  have c: "\<exists>c\<in>set (callsOf (fst (deployCommand unreachableS2Env [''web'']))).
      serverCall c \<or> buildCall c"
    by (simp add: unreachableS2_run serverCall_def)
  have r: "snd (identifyTargetEntries (fst (parseDeploymentArgs [''web''])) False
      exampleConfig) = [webApp]"
    by code_simp
  have n: "getProjectNetworkName unreachableS2Env (config_name exampleConfig) = ''acme-network''"
    by (simp add: unreachableS2Env_def happyEnv_def exampleConfig_def)
  have s: "allTargetServers [webApp] = [''s1'', ''s2'']"
    by (simp add: allTargetServers_def setAdd_def webApp_def)
  from T c obtain pre cfg a rest where
    e: "let resolved = snd (identifyTargetEntries (fst (parseDeploymentArgs [''web'']))
                             (''--services'' \<in> set [''web'']) cfg);
            v = verifyInfrastructure unreachableS2Env resolved
                  (getProjectNetworkName unreachableS2Env (config_name cfg))
                  (pre @ Call LoadConfig # a)
        in fst (deployCommand unreachableS2Env [''web''])
             = pre @ Call LoadConfig # a @ fst v @ rest
           \<and> list_all preflightOnly pre \<and> Call LoadConfig \<notin> set pre
           \<and> loadConfig unreachableS2Env pre = Inr cfg
           \<and> list_all preflightOnly a
           \<and> probedHosts (pre @ Call LoadConfig # a @ fst v) = allTargetServers resolved
           \<and> (\<forall>e. snd v = Inl e \<longrightarrow>
                 rest = [Log (DeploymentFailed e)]
                 \<and> snd (deployCommand unreachableS2Env [''web'']) = Exit 1)"
    by blast
  from e have "cfg = exampleConfig"
    by (simp add: Let_def unreachableS2Env_def happyEnv_def)
  with e have "fst (deployCommand unreachableS2Env [''web''])
           = pre @ Call LoadConfig # a
             @ fst (verifyInfrastructure unreachableS2Env [webApp] ''acme-network''
                      (pre @ Call LoadConfig # a))
             @ [Log (DeploymentFailed (Error ''Infrastructure verification failed''))]
         \<and> probedHosts (pre @ Call LoadConfig # a
             @ fst (verifyInfrastructure unreachableS2Env [webApp] ''acme-network''
                      (pre @ Call LoadConfig # a))) = [''s1'', ''s2'']"
    by (simp add: Let_def r n s unreachableS2_verification)
  then have x: "\<exists>pre a.
         fst (deployCommand unreachableS2Env [''web''])
           = pre @ Call LoadConfig # a
             @ fst (verifyInfrastructure unreachableS2Env [webApp] ''acme-network''
                      (pre @ Call LoadConfig # a))
             @ [Log (DeploymentFailed (Error ''Infrastructure verification failed''))]
         \<and> probedHosts (pre @ Call LoadConfig # a
             @ fst (verifyInfrastructure unreachableS2Env [webApp] ''acme-network''
                      (pre @ Call LoadConfig # a))) = [''s1'', ''s2'']"
    by blast
  have f: "snd (verifyInfrastructure unreachableS2Env [webApp] ''acme-network'' [])
     = Inl (Error ''Infrastructure verification failed'')"
    by (rule unreachableS2_verification)
  have y: "list_all (\<lambda>e. \<not> mutating e) (fst (deployCommand unreachableS2Env [''web'']))
      \<and> snd (deployCommand unreachableS2Env [''web'']) = Exit 1"
    using T i by blast
  have g1: "fst (deployCommand unreachableS2Env [''web''])
      = take 4 (fst (deployCommand unreachableS2Env [''web''])) @ Call LoadConfig
        # drop 5 (fst (deployCommand unreachableS2Env [''web'']))"
    by (simp add: unreachableS2_run)
  have g2: "Call LoadConfig \<notin> set (take 4 (fst (deployCommand unreachableS2Env [''web''])))"
    by (simp add: unreachableS2_run)
  have g3: "loadConfig unreachableS2Env (take 4 (fst (deployCommand unreachableS2Env [''web''])))
      = Inr exampleConfig"
    by (simp add: unreachableS2Env_def happyEnv_def)
  have g4: "loadSecrets unreachableS2Env
      (take 4 (fst (deployCommand unreachableS2Env [''web''])) @ [Call LoadConfig])
      = Inr Map.empty"
    by (simp add: unreachableS2Env_def happyEnv_def)
  have g5: "snd (identifyTargetEntries (fst (parseDeploymentArgs [''web'']))
      (''--services'' \<in> set [''web'']) exampleConfig) \<noteq> []"
    using r by simp
  from T g1 g2 g3 g4 g5 obtain a' rest' where
    e': "let resolved = snd (identifyTargetEntries (fst (parseDeploymentArgs [''web'']))
                             (''--services'' \<in> set [''web'']) exampleConfig);
            v = verifyInfrastructure unreachableS2Env resolved
                  (getProjectNetworkName unreachableS2Env (config_name exampleConfig))
                  (take 4 (fst (deployCommand unreachableS2Env [''web''])) @ Call LoadConfig # a')
        in drop 5 (fst (deployCommand unreachableS2Env [''web''])) = a' @ fst v @ rest'
           \<and> list_all preflightOnly (take 4 (fst (deployCommand unreachableS2Env [''web''])))
           \<and> list_all preflightOnly a'
           \<and> probedHosts (take 4 (fst (deployCommand unreachableS2Env [''web'']))
                 @ Call LoadConfig # a' @ fst v) = allTargetServers resolved
           \<and> (\<forall>e. snd v = Inl e \<longrightarrow>
                 rest' = [Log (DeploymentFailed e)]
                 \<and> snd (deployCommand unreachableS2Env [''web'']) = Exit 1)"
    by blast
  then have "drop 5 (fst (deployCommand unreachableS2Env [''web'']))
           = a' @ fst (verifyInfrastructure unreachableS2Env [webApp] ''acme-network''
                        (take 4 (fst (deployCommand unreachableS2Env [''web'']))
                           @ Call LoadConfig # a'))
             @ [Log (DeploymentFailed (Error ''Infrastructure verification failed''))]"
    by (simp add: Let_def r n s unreachableS2_verification)
  then have x2: "\<exists>a. drop 5 (fst (deployCommand unreachableS2Env [''web'']))
           = a @ fst (verifyInfrastructure unreachableS2Env [webApp] ''acme-network''
                        (take 4 (fst (deployCommand unreachableS2Env [''web'']))
                           @ Call LoadConfig # a))
             @ [Log (DeploymentFailed (Error ''Infrastructure verification failed''))]"
    by blast
  have z: "''s2'' \<in> set (fst (snd (verifyServers unreachableS2Env ''acme-network''
      ([''s1''] @ ''s2'' # []) ([], []) [])))"
    using T t by blast
  show ?thesis
    using v p f y x x2 z by simp
qed

subsection \<open>Build and push before any server is touched\<close>

lemma splits_only: "only B m \<Longrightarrow> splits A B m"
  unfolding splits_def only_def
proof
  fix h assume "\<forall>h. list_all B (fst (m h))"
  then have "fst (m h) = [] @ fst (m h) \<and> list_all A [] \<and> list_all B (fst (m h))" by simp
  then show "\<exists>a b. fst (m h) = a @ b \<and> list_all A a \<and> list_all B b" by blast
qed

lemma splits_andThen_pre:
  assumes "only A m" and "\<And>x. splits A B (f x)"
  shows "splits A B (andThen m f)"
  unfolding splits_def
proof
  fix h
  obtain es r where mh: "m h = (es, r)" by (cases "m h")
  have A: "list_all A es" using assms(1) mh by (auto simp: only_def dest!: spec[of _ h])
  show "\<exists>a b. fst (andThen m f h) = a @ b \<and> list_all A a \<and> list_all B b"
  proof (cases r)
    case (Inl e)
    then have "fst (andThen m f h) = es @ [] \<and> list_all A es \<and> list_all B []"
      using mh A by (simp add: andThen_def)
    then show ?thesis by blast
  next
    case (Inr x)
    obtain es' r' where fh: "f x (h @ es) = (es', r')" by (cases "f x (h @ es)")
    obtain a b where ab: "es' = a @ b" "list_all A a" "list_all B b"
      using assms(2)[of x] fh by (auto simp: splits_def dest!: spec[of _ "h @ es"])
    have "fst (andThen m f h) = (es @ a) @ b" using mh Inr fh ab by (simp add: andThen_def)
    moreover have "list_all A (es @ a)" using A ab by simp
    ultimately show ?thesis using ab(3) by blast
  qed
qed

lemma splits_seq_pre: "only A m \<Longrightarrow> splits A B n \<Longrightarrow> splits A B (seq m n)"
  by (simp add: seq_def splits_andThen_pre)

lemma splits_seq_post:
  assumes "splits A B m" and "only B n"
  shows "splits A B (seq m n)"
  unfolding splits_def
proof
  fix h
  obtain es r where mh: "m h = (es, r)" by (cases "m h")
  obtain a b where ab: "es = a @ b" "list_all A a" "list_all B b"
    using assms(1) mh by (auto simp: splits_def dest!: spec[of _ h])
  show "\<exists>a b. fst (seq m n h) = a @ b \<and> list_all A a \<and> list_all B b"
  proof (cases r)
    case (Inl e)
    then have "fst (seq m n h) = a @ b" using mh ab by (simp add: seq_def andThen_def)
    then show ?thesis using ab by blast
  next
    case (Inr x)
    obtain es' r' where nh: "n (h @ es) = (es', r')" by (cases "n (h @ es)")
    have "list_all B es'" using assms(2) nh by (auto simp: only_def dest!: spec[of _ "h @ es"])
    moreover have "fst (seq m n h) = a @ (b @ es')"
      using mh Inr nh ab by (simp add: seq_def andThen_def)
    moreover have "list_all B (b @ es')" using ab calculation by simp
    ultimately show ?thesis using ab by blast
  qed
qed

lemma splits_seq_both: "only A m \<Longrightarrow> only B n \<Longrightarrow> splits A B (seq m n)"
  by (intro splits_seq_pre splits_only)

lemma splits_if:
  "(c \<Longrightarrow> splits A B m) \<Longrightarrow> (\<not> c \<Longrightarrow> splits A B n) \<Longrightarrow> splits A B (if c then m else n)"
  by simp

lemma splits_case_prod:
  "(\<And>a b. x = (a, b) \<Longrightarrow> splits A B (f a b)) \<Longrightarrow> splits A B (case x of (a, b) \<Rightarrow> f a b)"
  by (cases x) simp

lemma seq_assoc: "seq (seq a b) c = seq a (seq b c)"
  by (intro ext) (simp add: seq_def andThen_def split: prod.splits sum.splits)

lemma deployEntries_apps:
  "\<not> deployServicesFlag context \<Longrightarrow>
   deployEntries env context = seq (buildPhase env context) (deployPhase env context)"
  by (simp add: deployEntries_def buildPhase_def deployPhase_def seq_assoc)

lemma accepts_localOnly: "accepts buildCall localOnly"
  by (simp add: accepts_def)

lemma only_buildPhase:
  assumes "accepts buildCall P" and "\<And>m e. P (Log (StepError m e))"
  shows "only P (buildPhase env context)"
  unfolding buildPhase_def
  by (intro only_seq only_emit only_for_each only_buildAndPushApp assms acceptsD1[OF assms(1)])
     simp

lemma only_deployPhase:
  assumes "accepts serverCall P"
    and "\<And>host. P (Log (LogError (''Failed to configure proxy for host '' @ host) None))"
    and "\<And>s e b. P (Log (ServerStepError s e b))"
  shows "only P (deployPhase env context)"
  unfolding deployPhase_def
  by (intro only_seq only_emit only_for_each only_deployAppToServers assms
        acceptsD1[OF assms(1)]) simp

lemma accepts_server_not_buildOrPush: "accepts serverCall (\<lambda>e. \<not> buildOrPush e)"
  by (simp add: accepts_def server_not_build)

lemma accepts_build_not_remoteMutation: "accepts buildCall (\<lambda>e. \<not> remoteMutation e)"
  by (simp add: accepts_def build_not_mutation)

lemma guards_buildAndPushApp:
  "guards isStepError (\<lambda>e. \<not> remoteMutation e) (buildAndPushApp env a context)"
  unfolding buildAndPushApp_def Let_def
  by (intro guards_try_rethrow only_intros only_buildOrTagAppImage only_pushAppImage
        accepts_conj accepts_not_StepError accepts_build_not_remoteMutation; simp)

lemma guards_buildPhase:
  "guards isStepError (\<lambda>e. \<not> remoteMutation e) (buildPhase env context)"
  unfolding buildPhase_def
  by (intro guards_seq_pre guards_for_each guards_buildAndPushApp only_emit
        only_buildAndPushApp accepts_build_not_remoteMutation; simp)

lemma guards_StepError_deployEntries:
  "guards isStepError (\<lambda>e. \<not> remoteMutation e) (deployEntries env context)"
proof (cases "deployServicesFlag context")
  case True
  have "only (\<lambda>e. \<not> isStepError e) (deployEntries env context)"
    using True unfolding deployEntries_def Let_def
    by (simp add: only_seq only_emit only_for_each only_deployService accepts_not_StepError)
  then show ?thesis by (rule guards_only)
next
  case False
  show ?thesis
    unfolding deployEntries_apps[OF False]
    by (intro guards_seq_post guards_buildPhase only_deployPhase accepts_not_StepError) simp_all
qed

lemma guards_StepError_afterResolution:
  "guards isStepError (\<lambda>e. \<not> remoteMutation e)
     (afterResolution env release force deployServices verbose cfg secretMap targets)"
  unfolding afterResolution_def Let_def
proof (rule guards_if; (rule guards_seq_pre, rule_tac [2] guards_seq_pre,
      rule_tac [3] guards_seq_post)?)
  show "guards isStepError (\<lambda>e. \<not> remoteMutation e)
          (emit (LogError ''No entries selected for deployment'' None))"
    by (intro guards_only only_emit) simp
  show "only (\<lambda>e. \<not> isStepError e \<and> \<not> remoteMutation e) (emit (Phase ''Infrastructure ready''))"
    by (intro only_emit) simp
  show "only (\<lambda>e. \<not> isStepError e \<and> \<not> remoteMutation e)
          (verifyInfrastructure env targets (getProjectNetworkName env (config_name cfg)))"
    by (intro only_verifyInfrastructure accepts_conj accepts_not_StepError
          accepts_not_remoteMutation session_not_mutation)
       (simp_all add: infraFailure_def)
  show "guards isStepError (\<lambda>e. \<not> remoteMutation e)
          (deployEntries env
                 \<lparr>config = cfg, secrets = secretMap, targetEntries = targets,
                    releaseId = release, projectName = config_name cfg,
                    networkName = getProjectNetworkName env (config_name cfg),
                    forceFlag = force, deployServicesFlag = deployServices,
                    verboseFlag = verbose\<rparr>)"
    by (rule guards_StepError_deployEntries)
  show "only (\<lambda>e. \<not> isStepError e)
          (emit (DeploymentComplete (collectUrls deployServices targets)))"
    by (intro only_emit) simp
qed

lemma guards_StepError_deployCommandBody:
  "guards isStepError (\<lambda>e. \<not> remoteMutation e) (deployCommandBody env raw)"
proof (rule guards_deployCommandBody)
  show "prefixClass (\<lambda>e. \<not> isStepError e \<and> \<not> remoteMutation e)"
    unfolding prefixClass_def
    by (intro conjI allI accepts_conj accepts_not_StepError accepts_not_remoteMutation
          preflight_not_mutation) simp_all
qed (rule guards_StepError_afterResolution)

lemma splits_deployEntries:
  "splits (\<lambda>e. \<not> remoteMutation e) (\<lambda>e. \<not> buildOrPush e) (deployEntries env context)"
proof (cases "deployServicesFlag context")
  case True
  have "only (\<lambda>e. \<not> buildOrPush e) (deployEntries env context)"
    using True unfolding deployEntries_def Let_def
    by (simp add: only_seq only_emit only_for_each only_deployService
          accepts_server_not_buildOrPush)
  then show ?thesis by (rule splits_only)
next
  case False
  show ?thesis
    unfolding deployEntries_apps[OF False]
    by (intro splits_seq_both only_buildPhase only_deployPhase
          accepts_build_not_remoteMutation accepts_server_not_buildOrPush) simp_all
qed

lemma splits_afterResolution:
  "splits (\<lambda>e. \<not> remoteMutation e) (\<lambda>e. \<not> buildOrPush e)
     (afterResolution env release force deployServices verbose cfg secretMap targets)"
  unfolding afterResolution_def Let_def
proof (rule splits_if; (rule splits_seq_pre, rule_tac [2] splits_seq_pre,
      rule_tac [3] splits_seq_post)?)
  show "splits (\<lambda>e. \<not> remoteMutation e) (\<lambda>e. \<not> buildOrPush e)
          (emit (LogError ''No entries selected for deployment'' None))"
    by (intro splits_only only_emit) simp
  show "only (\<lambda>e. \<not> remoteMutation e) (emit (Phase ''Infrastructure ready''))"
    by (intro only_emit) simp
  show "only (\<lambda>e. \<not> remoteMutation e)
          (verifyInfrastructure env targets (getProjectNetworkName env (config_name cfg)))"
    by (intro only_verifyInfrastructure accepts_not_remoteMutation session_not_mutation)
       (simp_all add: infraFailure_def)
  show "splits (\<lambda>e. \<not> remoteMutation e) (\<lambda>e. \<not> buildOrPush e)
          (deployEntries env
                 \<lparr>config = cfg, secrets = secretMap, targetEntries = targets,
                    releaseId = release, projectName = config_name cfg,
                    networkName = getProjectNetworkName env (config_name cfg),
                    forceFlag = force, deployServicesFlag = deployServices,
                    verboseFlag = verbose\<rparr>)"
    by (rule splits_deployEntries)
  show "only (\<lambda>e. \<not> buildOrPush e)
          (emit (DeploymentComplete (collectUrls deployServices targets)))"
    by (intro only_emit) simp
qed

lemma splits_deployCommandBody:
  "splits (\<lambda>e. \<not> remoteMutation e) (\<lambda>e. \<not> buildOrPush e) (deployCommandBody env raw)"
proof -
  have pc: "prefixClass (\<lambda>e. \<not> remoteMutation e)"
    unfolding prefixClass_def
    by (intro conjI allI accepts_not_remoteMutation preflight_not_mutation) simp_all
  show ?thesis
    unfolding deployCommandBody_eq
    by (intro splits_case_prod splits_andThen_pre splits_seq_pre splits_afterResolution
        only_await only_emit only_sync only_checkUncommittedChanges
        only_loadConfigurationAndSecrets
        plain_identifyTargetEntries[OF prefixClassD(1)[OF pc]]
        prefixClassD[OF pc] acceptsD1[OF prefixClassD(1)[OF pc]]
        acceptsD2[OF prefixClassD(1)[OF pc]]; simp)
qed

lemma buildAndPushApp_throws:
  assumes "snd (buildAndPushApp env a context h) = Inl e"
  shows "Log (StepError (name a @ '' -> '' @ imageRef a @ '':'' @ releaseId context) e)
           \<in> set (fst (buildAndPushApp env a context h))"
proof -
  define body where "body =
        andThen (buildOrTagAppImage env a (imageRef a @ '':'' @ releaseId context))
           (\<lambda>imageReady.
              if \<not> imageReady then throw (Error ''Image build failed'')
              else
                seq (pushAppImage env a (imageRef a @ '':'' @ releaseId context) (config context))
                    (emit (StepComplete (name a @ '' -> '' @ imageRef a @ '':''
                       @ releaseId context))))"
  have eq: "buildAndPushApp env a context =
      try_catch body (\<lambda>e. seq (emit (StepError (name a @ '' -> '' @ imageRef a @ '':''
         @ releaseId context) e)) (throw e))"
    unfolding buildAndPushApp_def Let_def body_def by (rule refl)
  obtain es r where b: "body h = (es, r)" by (cases "body h")
  show ?thesis
    using assms b unfolding eq by (cases r) (simp_all add: run_defs)
qed

text \<open>A build, a tag or a push that throws.\<close>

lemma split_at_call:
  assumes "xs @ Call c # ys = pre @ x # post"
    and "list_all logged xs" and "list_all logged ys" and "\<not> logged x"
  shows "pre = xs \<and> x = Call c \<and> post = ys"
  using assms
proof (induction xs arbitrary: pre)
  case Nil
  then show ?case
    by (cases pre) (auto simp: list_all_iff)
next
  case (Cons a xs)
  then show ?case
    by (cases pre) (auto simp: list_all_iff)
qed

lemma buildFails_not_logged: "buildFails env h x \<Longrightarrow> \<not> logged x"
  by (cases x) simp_all

lemma buildFails_buildCall: "\<not> buildCall c \<Longrightarrow> \<not> buildFails env h (Call c)"
  by (cases c) simp_all

lemma buildOrTagAppImage_eq:
  "buildOrTagAppImage env a img h =
     (case build a of
        Some b \<Rightarrow>
          (let p = orDefault (platform b) ''linux/amd64'';
               pre = Log (VerboseLog (''Building app '' @ name a @ ''...''))
                     # (if \<not> truthy (platform b) then
                          [Log (VerboseLog (''No platform specified, defaulting to '' @ p))]
                        else [])
           in case dockerBuild env (h @ pre) img p of
                Inl e \<Rightarrow>
                  (pre @ Call (DockerBuild img p)
                     # [Log (LogError (''Failed to build app '' @ name a) (Some e))],
                   Inr False)
              | Inr _ \<Rightarrow>
                  (pre @ Call (DockerBuild img p)
                     # [Log (VerboseLog (''Successfully built and tagged '' @ img))],
                   Inr True))
      | None \<Rightarrow>
          (let pre = [Log (VerboseLog (''Tagging '' @ imageRef a @ '' as '' @ img @ ''...''))]
           in case dockerTag env (h @ pre) (imageRef a) img of
                Inl e \<Rightarrow>
                  (pre @ Call (DockerTag (imageRef a) img)
                     # [Log (LogError (''Failed to tag pre-built image '' @ imageRef a)
                          (Some e))],
                   Inr False)
              | Inr _ \<Rightarrow>
                  (pre @ Call (DockerTag (imageRef a) img)
                     # [Log (VerboseLog (''Successfully tagged '' @ imageRef a @ '' as ''
                          @ img))],
                   Inr True)))"
  by (simp add: buildOrTagAppImage_def run_defs Let_def split: option.splits sum.splits)

lemma buildOrTagAppImage_fails:
  assumes "fst (buildOrTagAppImage env a img h) = pre @ x # post"
    and "buildFails env (h @ pre) x"
  shows "snd (buildOrTagAppImage env a img h) = Inr False \<and> list_all logged post"
proof -
  note nl = buildFails_not_logged[OF assms(2)]
  show ?thesis
  proof (cases "build a")
    case (Some b)
    define p where "p = orDefault (platform b) ''linux/amd64''"
    define pre0 where "pre0 = Log (VerboseLog (''Building app '' @ name a @ ''...''))
                     # (if \<not> truthy (platform b) then
                          [Log (VerboseLog (''No platform specified, defaulting to '' @ p))]
                        else [])"
    have lg: "list_all logged pre0" by (simp add: pre0_def)
    show ?thesis
    proof (cases "dockerBuild env (h @ pre0) img p")
      case (Inl e)
      have eq: "buildOrTagAppImage env a img h =
          (pre0 @ Call (DockerBuild img p)
             # [Log (LogError (''Failed to build app '' @ name a) (Some e))], Inr False)"
        using Some Inl
        by (cases "truthy (platform b)") (simp_all add: buildOrTagAppImage_eq Let_def p_def pre0_def)
      from assms(1) have "pre0 @ Call (DockerBuild img p)
             # [Log (LogError (''Failed to build app '' @ name a) (Some e))] = pre @ x # post"
        by (simp add: eq)
      from split_at_call[OF this lg _ nl] have "post = [Log (LogError (''Failed to build app ''
          @ name a) (Some e))]" by simp
      then show ?thesis by (simp add: eq)
    next
      case (Inr u)
      have eq: "buildOrTagAppImage env a img h =
          (pre0 @ Call (DockerBuild img p)
             # [Log (VerboseLog (''Successfully built and tagged '' @ img))], Inr True)"
        using Some Inr
        by (cases "truthy (platform b)") (simp_all add: buildOrTagAppImage_eq Let_def p_def pre0_def)
      from assms(1) have "pre0 @ Call (DockerBuild img p)
             # [Log (VerboseLog (''Successfully built and tagged '' @ img))] = pre @ x # post"
        by (simp add: eq)
      from split_at_call[OF this lg _ nl] have "pre = pre0" and "x = Call (DockerBuild img p)"
        by simp_all
      with assms(2) Inr show ?thesis by simp
    qed
  next
    case None
    define pre0 where
      "pre0 = [Log (VerboseLog (''Tagging '' @ imageRef a @ '' as '' @ img @ ''...''))]"
    have lg: "list_all logged pre0" by (simp add: pre0_def)
    show ?thesis
    proof (cases "dockerTag env (h @ pre0) (imageRef a) img")
      case (Inl e)
      have eq: "buildOrTagAppImage env a img h =
          (pre0 @ Call (DockerTag (imageRef a) img)
             # [Log (LogError (''Failed to tag pre-built image '' @ imageRef a) (Some e))],
           Inr False)"
        using None Inl by (simp add: buildOrTagAppImage_eq Let_def pre0_def)
      from assms(1) have "pre0 @ Call (DockerTag (imageRef a) img)
             # [Log (LogError (''Failed to tag pre-built image '' @ imageRef a) (Some e))]
           = pre @ x # post"
        by (simp add: eq)
      from split_at_call[OF this lg _ nl] have "post = [Log (LogError
          (''Failed to tag pre-built image '' @ imageRef a) (Some e))]" by simp
      then show ?thesis by (simp add: eq)
    next
      case (Inr u)
      have eq: "buildOrTagAppImage env a img h =
          (pre0 @ Call (DockerTag (imageRef a) img)
             # [Log (VerboseLog (''Successfully tagged '' @ imageRef a @ '' as '' @ img))],
           Inr True)"
        using None Inr by (simp add: buildOrTagAppImage_eq Let_def pre0_def)
      from assms(1) have "pre0 @ Call (DockerTag (imageRef a) img)
             # [Log (VerboseLog (''Successfully tagged '' @ imageRef a @ '' as '' @ img))]
           = pre @ x # post"
        by (simp add: eq)
      from split_at_call[OF this lg _ nl] have "pre = pre0"
        and "x = Call (DockerTag (imageRef a) img)" by simp_all
      with assms(2) Inr show ?thesis by simp
    qed
  qed
qed

lemma stopsOn_pushAppImage:
  "stopsOn (buildFails env) (list_all logged) (pushAppImage env a img cfg)"
  unfolding pushAppImage_def Let_def
proof (rule stopsOn_seq)
  show "stopsOn (buildFails env) (list_all logged)
          (emit (VerboseLog (''Pushing image '' @ img @ ''...'')))"
    by (intro stopsOn_only only_emit) simp
  show "stopsOn (buildFails env) (list_all logged)
     (try_catch
       (seq (await
              (DockerPush img
                (orElse (chain (registry a) url) (chain (docker cfg) docker_registry)))
              (\<lambda>h. dockerPush env h img
                     (orElse (chain (registry a) url) (chain (docker cfg) docker_registry))))
         (emit (VerboseLog (''Successfully pushed '' @ img))))
       (\<lambda>e. seq (emit (LogError (''Failed to push image '' @ img) (Some e))) (throw e)))"
  proof (rule stopsOn_try_rethrow[where ?Q0.0 = "list_all logged"])
    show "stopsOn (buildFails env) (list_all logged)
       (seq (await
              (DockerPush img
                (orElse (chain (registry a) url) (chain (docker cfg) docker_registry)))
              (\<lambda>h. dockerPush env h img
                     (orElse (chain (registry a) url) (chain (docker cfg) docker_registry))))
         (emit (VerboseLog (''Successfully pushed '' @ img))))"
    proof (rule stopsOn_seq)
      show "stopsOn (buildFails env) (list_all logged)
         (await
              (DockerPush img
                (orElse (chain (registry a) url) (chain (docker cfg) docker_registry)))
              (\<lambda>h. dockerPush env h img
                     (orElse (chain (registry a) url) (chain (docker cfg) docker_registry))))"
        by (rule stopsOn_await) (auto simp: isl_def)
      show "stopsOn (buildFails env) (list_all logged)
          (emit (VerboseLog (''Successfully pushed '' @ img)))"
        by (intro stopsOn_only only_emit) simp
    qed
  qed simp_all
qed

text \<open>What follows a failed build, tag or push: log lines only, a step error among them.\<close>

lemma stopsOn_buildAndPushApp:
  "stopsOn (buildFails env) (\<lambda>post. list_all logged post \<and> (\<exists>y\<in>set post. isStepError y))
     (buildAndPushApp env a context)"
  unfolding buildAndPushApp_def Let_def
proof (rule stopsOn_try_rethrow[where ?Q0.0 = "list_all logged"])
  show "stopsOn (buildFails env) (list_all logged)
     (andThen (buildOrTagAppImage env a (imageRef a @ '':'' @ releaseId context))
       (\<lambda>imageReady.
           if \<not> imageReady then throw (Error ''Image build failed'')
           else seq (pushAppImage env a (imageRef a @ '':'' @ releaseId context)
                      (config context))
                 (emit (StepComplete
                         (name a @ '' -> '' @ imageRef a @ '':'' @ releaseId context)))))"
  proof (rule stopsOn_andThen_flag)
    show "stopsOn (buildFails env) (list_all logged)
       (seq (pushAppImage env a (imageRef a @ '':'' @ releaseId context) (config context))
         (emit (StepComplete (name a @ '' -> '' @ imageRef a @ '':'' @ releaseId context))))"
      by (intro stopsOn_seq stopsOn_pushAppImage stopsOn_only only_emit) simp
  qed (rule buildOrTagAppImage_fails)
qed simp_all

lemma stopsOn_build_deployEntries:
  "stopsOn (buildFails env) (\<lambda>post. list_all logged post \<and> (\<exists>y\<in>set post. isStepError y))
     (deployEntries env context)"
proof -
  have s: "accepts serverCall (\<lambda>e. \<forall>h. \<not> buildFails env h e)"
    by (simp add: accepts_def buildFails_buildCall server_not_build)
  have l: "stopsOn (buildFails env) Q (emit x)" for x and Q :: "event list \<Rightarrow> bool"
    by (intro stopsOn_only only_emit) simp
  show ?thesis
    unfolding deployEntries_def Let_def
    by (intro stopsOn_if stopsOn_seq l stopsOn_for_each stopsOn_buildAndPushApp
          stopsOn_only[OF only_deployAppToServers[OF s]]
          stopsOn_only[OF only_deployService[OF s]]) simp_all
qed

lemma stopsOn_build_deployCommandBody:
  "stopsOn (buildFails env) (\<lambda>post. list_all logged post \<and> (\<exists>y\<in>set post. isStepError y))
     (deployCommandBody env raw)"
  by (intro stopsOn_deployCommandBody stopsOn_afterResolution stopsOn_build_deployEntries)
     (simp_all add: buildFails_buildCall preflight_not_build session_not_build)

lemma failed_build_aborts:
  assumes "fst (deployCommand env raw) = pre @ x # post" and "buildFails env pre x"
  shows "snd (deployCommand env raw) = Exit 1 \<and> list_all logged post
         \<and> (\<exists>y\<in>set post. isStepError y)"
  using stopsOn_deployCommand[OF stopsOn_build_deployCommandBody _ _ assms]
  by simp

lemma step_error_aborts:
  assumes "\<exists>x \<in> set (fst (deployCommand env raw)). isStepError x"
  shows "list_all (\<lambda>e. \<not> remoteMutation e) (fst (deployCommand env raw))
         \<and> snd (deployCommand env raw) = Exit 1"
  using deployCommand_cases[of env raw]
proof (elim disjE exE conjE)
  fix u
  assume b: "deployCommandBody env raw [] = (fst (deployCommand env raw), Inr u)"
  have "list_all (\<lambda>e. \<not> isStepError e) (fst (deployCommandBody env raw []))"
    using guards_StepError_deployCommandBody[of env raw] b
    by (auto simp: guards_def dest!: spec[of _ "[]"])
  then show ?thesis using assms b by (auto simp: list_all_iff)
next
  fix es err
  assume b: "deployCommandBody env raw [] = (es, Inl err)"
    and d: "deployCommand env raw = (es @ [Log (DeploymentFailed err)], Exit 1)"
  have "\<exists>x \<in> set es. isStepError x" using assms d by auto
  then have "list_all (\<lambda>e. \<not> remoteMutation e) es"
    using guards_StepError_deployCommandBody[of env raw] b
    by (auto simp: guards_def list_all_iff dest!: spec[of _ "[]"])
  then show ?thesis using d by simp
qed

lemma pushRefused_run:
  "deployCommand buildFailsEnv [''web''] =
    ([Call GenerateReleaseId, Log (DeploymentStart ''a1b2c3d''),
      Log (Phase ''Configuration loaded''),
      Call (ExecSync ''git status --porcelain''), Call LoadConfig,
      Call LoadSecrets, Log (Phase ''Git status verified''),
      Log (Phase ''Infrastructure ready''),
      Log (VerboseLog ''Checking infrastructure on servers: s1, s2''),
      Call (GetSSHCredentials ''s1''), Call (SSHClientCreate ''s1''),
      Call (SSHConnect ''s1''), Call (NetworkExists ''s1'' ''acme-network''),
      Call (IsProxyRunning ''s1''), Call (SSHClose ''s1''),
      Call (GetSSHCredentials ''s2''), Call (SSHClientCreate ''s2''),
      Call (SSHConnect ''s2''), Call (NetworkExists ''s2'' ''acme-network''),
      Call (IsProxyRunning ''s2''), Call (SSHClose ''s2''),
      Log (Phase ''Building & Pushing Images''),
      Log (VerboseLog ''Building app web...''),
      Log (VerboseLog ''No platform specified, defaulting to linux/amd64''),
      Call (DockerBuild ''acme/web:a1b2c3d'' ''linux/amd64''),
      Log (VerboseLog ''Successfully built and tagged acme/web:a1b2c3d''),
      Log (VerboseLog ''Pushing image acme/web:a1b2c3d...''),
      Call (DockerPush ''acme/web:a1b2c3d'' None),
      Log (LogError ''Failed to push image acme/web:a1b2c3d''
             (Some (Error ''denied: requested access''))),
      Log (StepError ''web -> acme/web:a1b2c3d'' (Error ''denied: requested access'')),
      Log (DeploymentFailed (Error ''denied: requested access''))],
     Exit 1)"
  by code_simp

text \<open>
  Claim C3. For apps, deployEntries is the build phase followed by the deploy phase: the
  build phase adds only log lines and calls of the local docker client, the deploy phase
  makes no build, tag or push call, and when the build phase throws, deployEntries throws
  with it and nothing of the deploy phase happens. A buildAndPushApp that throws logs its
  step error. In every run of deployCommand the trace is a part without any call that
  changes a remote host followed by a part without any build, tag or push call; and a run
  whose trace has a step error of the build phase makes no call that changes a remote host
  and exits with status 1. In every run of deployCommand, when a build, a tag or a push
  throws, the events after that call are log lines only, a step error among them, the
  process exits with status 1, and no call that changes a remote host occurs anywhere in
  the trace.
\<close>

theorem build_before_deploy:
  "(\<not> deployServicesFlag context \<longrightarrow>
      deployEntries env context = seq (buildPhase env context) (deployPhase env context)
      \<and> only localOnly (buildPhase env context)
      \<and> only (\<lambda>e. \<not> buildOrPush e) (deployPhase env context)
      \<and> (\<forall>e. snd (buildPhase env context h) = Inl e \<longrightarrow>
            deployEntries env context h = buildPhase env context h))
   \<and> (snd (buildAndPushApp env a context h) = Inl e \<longrightarrow>
        Log (StepError (name a @ '' -> '' @ imageRef a @ '':'' @ releaseId context) e)
          \<in> set (fst (buildAndPushApp env a context h)))
   \<and> (\<exists>x y. fst (deployCommand env raw) = x @ y
          \<and> list_all (\<lambda>e. \<not> remoteMutation e) x \<and> list_all (\<lambda>e. \<not> buildOrPush e) y)
   \<and> ((\<exists>x \<in> set (fst (deployCommand env raw)). isStepError x) \<longrightarrow>
        list_all (\<lambda>e. \<not> remoteMutation e) (fst (deployCommand env raw))
        \<and> snd (deployCommand env raw) = Exit 1)
   \<and> (fst (deployCommand env raw) = pre @ c # post \<and> buildFails env pre c \<longrightarrow>
        snd (deployCommand env raw) = Exit 1
        \<and> list_all logged post
        \<and> (\<exists>y \<in> set post. isStepError y)
        \<and> list_all (\<lambda>e. \<not> remoteMutation e) (fst (deployCommand env raw)))"
proof (intro conjI impI allI)
  assume apps: "\<not> deployServicesFlag context"
  show "deployEntries env context = seq (buildPhase env context) (deployPhase env context)"
    by (rule deployEntries_apps[OF apps])
  show "only localOnly (buildPhase env context)"
    by (intro only_buildPhase accepts_localOnly) simp
  show "only (\<lambda>e. \<not> buildOrPush e) (deployPhase env context)"
    by (intro only_deployPhase accepts_server_not_buildOrPush) simp_all
  fix e' assume "snd (buildPhase env context h) = Inl e'"
  then show "deployEntries env context h = buildPhase env context h"
    unfolding deployEntries_apps[OF apps]
    by (cases "buildPhase env context h") (simp add: seq_def andThen_def)
next
  assume "snd (buildAndPushApp env a context h) = Inl e"
  then show "Log (StepError (name a @ '' -> '' @ imageRef a @ '':'' @ releaseId context) e)
          \<in> set (fst (buildAndPushApp env a context h))"
    by (rule buildAndPushApp_throws)
next
  obtain x y where xy: "fst (deployCommandBody env raw []) = x @ y"
    "list_all (\<lambda>e. \<not> remoteMutation e) x" "list_all (\<lambda>e. \<not> buildOrPush e) y"
    using splits_deployCommandBody[of env raw] by (auto simp: splits_def dest!: spec[of _ "[]"])
  from deployCommand_cases[of env raw]
  show "\<exists>x y. fst (deployCommand env raw) = x @ y
          \<and> list_all (\<lambda>e. \<not> remoteMutation e) x \<and> list_all (\<lambda>e. \<not> buildOrPush e) y"
  proof (elim disjE exE conjE)
    fix u
    assume "deployCommandBody env raw [] = (fst (deployCommand env raw), Inr u)"
    then have "fst (deployCommand env raw) = x @ y" using xy(1) by simp
    then show ?thesis using xy(2,3) by blast
  next
    fix es err
    assume b: "deployCommandBody env raw [] = (es, Inl err)"
      and d: "deployCommand env raw = (es @ [Log (DeploymentFailed err)], Exit 1)"
    have "fst (deployCommand env raw) = x @ (y @ [Log (DeploymentFailed err)])"
      using b d xy(1) by simp
    moreover have "list_all (\<lambda>e. \<not> buildOrPush e) (y @ [Log (DeploymentFailed err)])"
      using xy(3) by simp
    ultimately show ?thesis using xy(2) by blast
  qed
next
  assume s: "\<exists>x \<in> set (fst (deployCommand env raw)). isStepError x"
  show "list_all (\<lambda>e. \<not> remoteMutation e) (fst (deployCommand env raw))"
    and "snd (deployCommand env raw) = Exit 1"
    using step_error_aborts[OF s] by simp_all
next
  assume f: "fst (deployCommand env raw) = pre @ c # post \<and> buildFails env pre c"
  then have r: "snd (deployCommand env raw) = Exit 1 \<and> list_all logged post
         \<and> (\<exists>y\<in>set post. isStepError y)"
    using failed_build_aborts[of env raw pre c post] by blast
  with f have "\<exists>x \<in> set (fst (deployCommand env raw)). isStepError x" by auto
  from step_error_aborts[OF this] r
  show "snd (deployCommand env raw) = Exit 1" and "list_all logged post"
    and "\<exists>y \<in> set post. isStepError y"
    and "list_all (\<lambda>e. \<not> remoteMutation e) (fst (deployCommand env raw))"
    by simp_all
qed

theorem build_before_deploy_witness:
  "deployEntries buildFailsEnv (contextOf exampleConfig Map.empty [webApp] False)
     = seq (buildPhase buildFailsEnv (contextOf exampleConfig Map.empty [webApp] False))
           (deployPhase buildFailsEnv (contextOf exampleConfig Map.empty [webApp] False))
   \<and> Log (StepError ''web -> acme/web:a1b2c3d'' (Error ''denied: requested access''))
       \<in> set (fst (buildAndPushApp buildFailsEnv webApp
            (contextOf exampleConfig Map.empty [webApp] False) []))
   \<and> list_all (\<lambda>e. \<not> remoteMutation e) (fst (deployCommand buildFailsEnv [''web'']))
   \<and> snd (deployCommand buildFailsEnv [''web'']) = Exit 1
   \<and> buildFails buildFailsEnv (take 27 (fst (deployCommand buildFailsEnv [''web''])))
       (Call (DockerPush ''acme/web:a1b2c3d'' None))
   \<and> fst (deployCommand buildFailsEnv [''web''])
     = take 27 (fst (deployCommand buildFailsEnv [''web'']))
       @ Call (DockerPush ''acme/web:a1b2c3d'' None)
       # [Log (LogError ''Failed to push image acme/web:a1b2c3d''
                 (Some (Error ''denied: requested access''))),
          Log (StepError ''web -> acme/web:a1b2c3d'' (Error ''denied: requested access'')),
          Log (DeploymentFailed (Error ''denied: requested access''))]"
proof -
  note T = build_before_deploy [of "contextOf exampleConfig Map.empty [webApp] False"
      buildFailsEnv "[]" webApp "Error ''denied: requested access''" "[''web'']"
      "take 27 (fst (deployCommand buildFailsEnv [''web'']))"
      "Call (DockerPush ''acme/web:a1b2c3d'' None)"
      "[Log (LogError ''Failed to push image acme/web:a1b2c3d''
                 (Some (Error ''denied: requested access''))),
        Log (StepError ''web -> acme/web:a1b2c3d'' (Error ''denied: requested access'')),
        Log (DeploymentFailed (Error ''denied: requested access''))]"]
  have f: "\<not> deployServicesFlag (contextOf exampleConfig Map.empty [webApp] False)"
    by (simp add: contextOf_def)
  have n: "name webApp @ '' -> '' @ imageRef webApp @ '':''
      @ releaseId (contextOf exampleConfig Map.empty [webApp] False) = ''web -> acme/web:a1b2c3d''"
    by (simp add: webApp_def contextOf_def)
  have b: "snd (buildAndPushApp buildFailsEnv webApp
            (contextOf exampleConfig Map.empty [webApp] False) [])
      = Inl (Error ''denied: requested access'')"
    by (simp add: buildAndPushApp_def buildOrTagAppImage_def pushAppImage_def run_defs Let_def
        buildFailsEnv_def happyEnv_def webApp_def contextOf_def exampleConfig_def
        orDefault_def orElse_def chain_def)
  have s: "\<exists>x \<in> set (fst (deployCommand buildFailsEnv [''web''])). isStepError x"
    by (simp add: pushRefused_run)
  have p: "fst (deployCommand buildFailsEnv [''web''])
     = take 27 (fst (deployCommand buildFailsEnv [''web'']))
       @ Call (DockerPush ''acme/web:a1b2c3d'' None)
       # [Log (LogError ''Failed to push image acme/web:a1b2c3d''
                 (Some (Error ''denied: requested access''))),
          Log (StepError ''web -> acme/web:a1b2c3d'' (Error ''denied: requested access'')),
          Log (DeploymentFailed (Error ''denied: requested access''))]"
    by (simp add: pushRefused_run)
  have q: "buildFails buildFailsEnv (take 27 (fst (deployCommand buildFailsEnv [''web''])))
       (Call (DockerPush ''acme/web:a1b2c3d'' None))"
    by (simp add: buildFailsEnv_def happyEnv_def)
  have r: "snd (deployCommand buildFailsEnv [''web'']) = Exit 1
      \<and> list_all (\<lambda>e. \<not> remoteMutation e) (fst (deployCommand buildFailsEnv [''web'']))"
    using T p q by blast
  have d: "deployEntries buildFailsEnv (contextOf exampleConfig Map.empty [webApp] False)
     = seq (buildPhase buildFailsEnv (contextOf exampleConfig Map.empty [webApp] False))
           (deployPhase buildFailsEnv (contextOf exampleConfig Map.empty [webApp] False))"
    using T f by blast
  have l: "Log (StepError ''web -> acme/web:a1b2c3d'' (Error ''denied: requested access''))
       \<in> set (fst (buildAndPushApp buildFailsEnv webApp
            (contextOf exampleConfig Map.empty [webApp] False) []))"
    using T b unfolding n by blast
  show ?thesis
    using d l r p q by blast
qed

subsection \<open>A server that fails\<close>








text \<open>A call of deployAppToServer that fails.\<close>

lemma only_performRegistryLogin_login:
  assumes "\<And>l. P (Log l)" and "P (Call (DockerLogin s reg u p))"
  shows "only P (performRegistryLogin env s reg u p)"
  using assms by (simp add: only_def performRegistryLogin_eq)


lemma stopsOn_establishSSHConnection:
  "stopsOn (\<lambda>h x. deployFails env h x \<or> connectFails env h x) (list_all windingDown)
     (establishSSHConnection env s)"
  unfolding establishSSHConnection_def
  by (intro stopsOn_seq stopsOn_await stopsOn_only[OF only_emit]) (auto simp: isl_def)

lemma stopsOn_authenticateAndPullImage:
  "stopsOn (\<lambda>h x. deployFails env h x \<or> connectFails env h x) (list_all windingDown)
     (authenticateAndPullImage env entry s context img)"
proof -
  let ?bad = "\<lambda>h x. deployFails env h x \<or> connectFails env h x"
  define reg where "reg = orDefault (orElse (chain (registry entry) url)
      (chain (docker (config context)) docker_registry)) ''docker.io''"
  define rest where "rest = (\<lambda>registryLoginPerformed.
           seq (emit (VerboseLog (''Pulling image '' @ img @ ''...'')))
          (andThen
             (await (PullImage s img)
                (\<lambda>h. Inr (pullImage env h s img)))
             (\<lambda>pullSuccess.
                seq (if registryLoginPerformed then
                       await (DockerLogout s reg)
                         (\<lambda>h. dockerLogout env h s reg)
                     else ret ())
                    (if \<not> pullSuccess then
                       throw (Error (''Failed to pull image '' @ img))
                     else ret ()))))"
  define step where "step =
        (if truthy (chain (registry entry) username)
            \<and> truthy (chain (registry entry) password_secret)
         then
           (let password = secrets context (strOf (chain (registry entry) password_secret)) in
            if truthy password then
              seq (performRegistryLogin env s reg
                     (strOf (chain (registry entry) username)) (strOf password))
                  (ret True)
            else ret False)
         else if truthy (chain (docker (config context)) docker_username)
                 \<and> truthy (secrets context ''DOCKER_REGISTRY_PASSWORD'')
         then
           seq (performRegistryLogin env s reg
                  (strOf (chain (docker (config context)) docker_username))
                  (strOf (secrets context ''DOCKER_REGISTRY_PASSWORD'')))
               (ret True)
         else ret False)"
  have unfold: "authenticateAndPullImage env entry s context img = andThen step rest"
    unfolding authenticateAndPullImage_def Let_def step_def rest_def reg_def by (rule refl)
  have login: "only (\<lambda>e. \<forall>h. \<not> ?bad h e) (performRegistryLogin env s reg u p)" for u p
    by (rule only_performRegistryLogin_login) simp_all
  have st: "only (\<lambda>e. \<forall>h. \<not> ?bad h e) step"
    unfolding step_def Let_def
    by (intro only_if only_seq only_ret login)
  have tail: "stopsOn ?bad (list_all windingDown)
      (seq (if b then await (DockerLogout s reg) (\<lambda>h. dockerLogout env h s reg) else ret ())
           (if \<not> ok then throw (Error (''Failed to pull image '' @ img)) else ret ()))"
    for b ok
    by (intro stopsOn_seq stopsOn_if stopsOn_await stopsOn_only[OF only_ret]
          stopsOn_only[OF only_throw]) (auto simp: isl_def)
  have pull: "stopsOn ?bad (list_all windingDown)
      (andThen (await (PullImage s img) (\<lambda>h. Inr (pullImage env h s img)))
         (\<lambda>pullSuccess.
            seq (if b then await (DockerLogout s reg) (\<lambda>h. dockerLogout env h s reg)
                 else ret ())
                (if \<not> pullSuccess then throw (Error (''Failed to pull image '' @ img))
                 else ret ())))" for b
  proof (rule stopsOn_await_checked)
    fix h
    assume "?bad h (Call (PullImage s img))"
    then have "\<not> pullImage env h s img" by simp
    then show "(\<exists>e. snd ((seq (if b then await (DockerLogout s reg)
                                       (\<lambda>h. dockerLogout env h s reg) else ret ())
                 (if \<not> pullImage env h s img
                  then throw (Error (''Failed to pull image '' @ img)) else ret ()))
                (h @ [Call (PullImage s img)])) = Inl e)
        \<and> list_all windingDown (fst ((seq (if b then await (DockerLogout s reg)
                                       (\<lambda>h. dockerLogout env h s reg) else ret ())
                 (if \<not> pullImage env h s img
                  then throw (Error (''Failed to pull image '' @ img)) else ret ()))
                (h @ [Call (PullImage s img)])))"
      by (simp add: run_defs split: sum.splits)
  qed (rule tail)
  have "stopsOn ?bad (list_all windingDown) (rest b)" for b
    unfolding rest_def
    by (intro stopsOn_seq pull stopsOn_only[OF only_emit]) simp
  then show ?thesis
    unfolding unfold by (intro stopsOn_andThen stopsOn_only[OF st])
qed











subsection \<open>No entry selected\<close>

lemma returnsAt_only: "only (\<lambda>e. e \<noteq> x) m \<Longrightarrow> returnsAt x K m"
  by (simp add: only_def returnsAt_def)

lemma returnsAt_emit: "returnsAt (Log l) K (emit l)"
  by (simp add: returnsAt_def emit_def)

lemma returnsAt_andThen:
  assumes "only (\<lambda>e. e \<noteq> x \<and> K e) m" and "\<And>a. returnsAt x K (f a)"
  shows "returnsAt x K (andThen m f)"
  unfolding returnsAt_def
proof
  fix h
  obtain es r where mh: "m h = (es, r)" by (cases "m h")
  have clean: "list_all (\<lambda>e. e \<noteq> x \<and> K e) es"
    using assms(1) mh by (auto simp: only_def dest!: spec[of _ h])
  then have c1: "list_all (\<lambda>e. e \<noteq> x) es" and c2: "list_all K es"
    by (simp_all add: list_all_iff)
  show "list_all (\<lambda>e. e \<noteq> x) (fst (andThen m f h)) \<or>
        (\<exists>pre a. fst (andThen m f h) = pre @ [x] \<and> list_all K pre
           \<and> snd (andThen m f h) = Inr a)"
  proof (cases r)
    case (Inl e)
    then have "andThen m f h = (es, Inl e)" using mh by (simp add: andThen_def)
    then show ?thesis using c1 by simp
  next
    case (Inr a)
    obtain es' r' where fh: "f a (h @ es) = (es', r')" by (cases "f a (h @ es)")
    have eq: "andThen m f h = (es @ es', r')" using mh Inr fh by (simp add: andThen_def)
    from assms(2)[of a] fh
    consider "list_all (\<lambda>e. e \<noteq> x) es'"
      | pre b where "es' = pre @ [x]" "list_all K pre" "r' = Inr b"
      by (auto simp: returnsAt_def dest!: spec[of _ "h @ es"])
    then show ?thesis
    proof cases
      case 1
      then show ?thesis using eq c1 by simp
    next
      case 2
      have "fst (andThen m f h) = (es @ pre) @ [x]" using eq 2(1) by simp
      moreover have "list_all K (es @ pre)" using c2 2(2) by simp
      moreover have "snd (andThen m f h) = Inr b" using eq 2(3) by simp
      ultimately show ?thesis by blast
    qed
  qed
qed

lemma returnsAt_seq:
  "only (\<lambda>e. e \<noteq> x \<and> K e) m \<Longrightarrow> returnsAt x K n \<Longrightarrow> returnsAt x K (seq m n)"
  by (simp add: seq_def returnsAt_andThen)

lemma returnsAt_if:
  "(c \<Longrightarrow> returnsAt x K m) \<Longrightarrow> (\<not> c \<Longrightarrow> returnsAt x K n)
     \<Longrightarrow> returnsAt x K (if c then m else n)"
  by simp

lemma returnsAt_case_prod:
  "(\<And>a b. p = (a, b) \<Longrightarrow> returnsAt x K (f a b))
     \<Longrightarrow> returnsAt x K (case p of (a, b) \<Rightarrow> f a b)"
  by (cases p) simp

lemma noEntriesSelected_facts:
  "Log (LogError (''Failed to configure proxy for host '' @ host) None) \<noteq> noEntriesSelected"
  "Log (StepError m e) \<noteq> noEntriesSelected"
  "Log (ServerStepError s e b) \<noteq> noEntriesSelected"
  "Log (LogError (''Uncommitted'' @ m') None) \<noteq> noEntriesSelected"
  "Log (LogError (''Required '' @ m') None) \<noteq> noEntriesSelected"
  "infraFailure \<noteq> noEntriesSelected"
  "Call c \<noteq> noEntriesSelected"
  by (simp_all add: noEntriesSelected_def infraFailure_def)

lemma accepts_not_noEntriesSelected: "accepts C (\<lambda>e. e \<noteq> noEntriesSelected)"
  unfolding accepts_def
proof (intro conjI allI impI)
  fix l assume "plainLog l"
  then show "Log l \<noteq> noEntriesSelected"
    by (cases l rule: plainLog.cases) (simp_all add: noEntriesSelected_def)
next
  fix c :: call show "Call c \<noteq> noEntriesSelected" by (simp add: noEntriesSelected_def)
qed

lemma only_afterResolution_selected:
  assumes "targets \<noteq> []"
  shows "only (\<lambda>e. e \<noteq> noEntriesSelected)
           (afterResolution env release force deployServices verbose cfg secretMap targets)"
proof -
  have p: "Log l \<noteq> noEntriesSelected" if "plainLog l" for l
    using that by (rule acceptsD1[OF accepts_not_noEntriesSelected])
  have v: "only (\<lambda>e. e \<noteq> noEntriesSelected) (verifyInfrastructure env targets n)" for n
    by (rule only_verifyInfrastructure[OF accepts_not_noEntriesSelected])
       (simp_all add: noEntriesSelected_def infraFailure_def)
  have d: "only (\<lambda>e. e \<noteq> noEntriesSelected) (deployEntries env c)" for c
    by (rule only_deployEntries[OF accepts_not_noEntriesSelected])
       (simp_all add: noEntriesSelected_def)
  show ?thesis
    using assms unfolding afterResolution_def Let_def
    by (simp add: only_seq only_emit p v d)
qed

lemma returnsAt_afterResolution:
  "returnsAt noEntriesSelected K
     (afterResolution env release force deployServices verbose cfg secretMap targets)"
proof (cases "targets = []")
  case True
  then show ?thesis
    by (simp add: afterResolution_def noEntriesSelected_def returnsAt_emit)
next
  case False
  then show ?thesis
    by (intro returnsAt_only only_afterResolution_selected)
qed

lemma prefixClass_preflightOnly:
  "prefixClass (\<lambda>e. e \<noteq> noEntriesSelected \<and> preflightOnly e)"
proof -
  have a: "accepts preflightCall (\<lambda>e. e \<noteq> noEntriesSelected \<and> preflightOnly e)"
    by (rule accepts_conj[OF accepts_not_noEntriesSelected]) (simp add: accepts_def)
  have b: "Log (LogError (''Uncommitted'' @ m) None) \<noteq> noEntriesSelected
          \<and> preflightOnly (Log (LogError (''Uncommitted'' @ m) None))" for m
    by (simp add: noEntriesSelected_def)
  show ?thesis
    unfolding prefixClass_def using a b by blast
qed

lemma returnsAt_deployCommandBody:
  "returnsAt noEntriesSelected preflightOnly (deployCommandBody env raw)"
  unfolding deployCommandBody_eq
  by (intro returnsAt_case_prod returnsAt_andThen returnsAt_seq returnsAt_afterResolution
        only_await only_emit only_sync only_checkUncommittedChanges
        only_loadConfigurationAndSecrets
        plain_identifyTargetEntries[OF prefixClassD(1)[OF prefixClass_preflightOnly]]
        prefixClassD[OF prefixClass_preflightOnly]
        acceptsD1[OF prefixClassD(1)[OF prefixClass_preflightOnly]]
        acceptsD2[OF prefixClassD(1)[OF prefixClass_preflightOnly]]; simp)

lemma preflightOnly_not_mutating: "preflightOnly e \<Longrightarrow> \<not> mutating e"
  by (cases e) (simp_all add: mutating_facts)

lemma noSuchApp_run:
  "deployCommand happyEnv [''worker''] =
     ([Call GenerateReleaseId, Log (DeploymentStart ''a1b2c3d''),
       Log (Phase ''Configuration loaded''),
       Call (ExecSync ''git status --porcelain''), Call LoadConfig, Call LoadSecrets,
       Log (Phase ''Git status verified''),
       Log (Warn ''App \"worker\" not found in configuration''),
       Log (Warn ''No valid apps found for specified names''),
       Log (LogError ''No entries selected for deployment'' None)],
      Returned)"
  by code_simp

text \<open>
  Claim C2. When target resolution yields no entry, the rest of deployCommand is the error
  line \<^verbatim>\<open>No entries selected for deployment\<close> followed by the early \<^verbatim>\<open>return\<close>; with at
  least one entry that line is never logged. So in every run whose trace has that line
  it is the last event, before it there are only log lines and the calls made before any
  host is contacted, no build, tag, push, login, pull, container or proxy call occurs, and
  deployCommand returns as it does after a successful deployment: \<^verbatim>\<open>process.exit(1)\<close> is
  not reached. The run does abort before any mutation, but not with a failure status.
\<close>

theorem empty_target_set_returns:
  "afterResolution env release force deployServices verbose cfg secretMap [] h
     = ([noEntriesSelected], Inr ())
   \<and> (targets \<noteq> [] \<longrightarrow>
        noEntriesSelected \<notin> set (fst (afterResolution env release force deployServices verbose
          cfg secretMap targets h)))
   \<and> (noEntriesSelected \<in> set (fst (deployCommand env raw)) \<longrightarrow>
        (\<exists>pre. fst (deployCommand env raw) = pre @ [noEntriesSelected]
           \<and> list_all preflightOnly pre)
        \<and> list_all (\<lambda>e. \<not> mutating e) (fst (deployCommand env raw))
        \<and> snd (deployCommand env raw) = Returned)"
proof (intro conjI impI)
  show "afterResolution env release force deployServices verbose cfg secretMap [] h
     = ([noEntriesSelected], Inr ())"
    by (simp add: afterResolution_def noEntriesSelected_def emit_def)
next
  assume "targets \<noteq> []"
  then have "only (\<lambda>e. e \<noteq> noEntriesSelected)
           (afterResolution env release force deployServices verbose cfg secretMap targets)"
    by (rule only_afterResolution_selected)
  then show "noEntriesSelected \<notin> set (fst (afterResolution env release force deployServices
      verbose cfg secretMap targets h))"
    by (auto simp: only_def list_all_iff)
next
  assume inT: "noEntriesSelected \<in> set (fst (deployCommand env raw))"
  have nf: "noEntriesSelected \<noteq> Log (DeploymentFailed e)" for e
    by (simp add: noEntriesSelected_def)
  from deployCommand_cases[of env raw]
  have body: "\<exists>a. deployCommandBody env raw [] = (fst (deployCommand env raw), Inr a)
        \<and> snd (deployCommand env raw) = Returned"
  proof
    assume "\<exists>a. deployCommandBody env raw [] = (fst (deployCommand env raw), Inr a)
        \<and> snd (deployCommand env raw) = Returned"
    then show ?thesis .
  next
    assume "\<exists>es e. deployCommandBody env raw [] = (es, Inl e)
        \<and> deployCommand env raw = (es @ [Log (DeploymentFailed e)], Exit 1)"
    then obtain es e where b: "deployCommandBody env raw [] = (es, Inl e)"
      and c: "deployCommand env raw = (es @ [Log (DeploymentFailed e)], Exit 1)" by blast
    from inT c nf have "noEntriesSelected \<in> set es" by auto
    moreover from returnsAt_deployCommandBody[of env raw] b
    have "list_all (\<lambda>e. e \<noteq> noEntriesSelected) es"
      by (auto simp: returnsAt_def dest!: spec[of _ "[]"])
    ultimately have False by (auto simp: list_all_iff)
    then show ?thesis by blast
  qed
  then obtain a where b: "deployCommandBody env raw [] = (fst (deployCommand env raw), Inr a)"
    and r: "snd (deployCommand env raw) = Returned" by blast
  from returnsAt_deployCommandBody[of env raw] b inT
  obtain pre where p: "fst (deployCommand env raw) = pre @ [noEntriesSelected]"
    and k: "list_all preflightOnly pre"
    by (auto simp: returnsAt_def list_all_iff dest!: spec[of _ "[]"])
  have "list_all (\<lambda>e. \<not> mutating e) pre"
    using k by (auto simp: list_all_iff preflightOnly_not_mutating)
  moreover have "\<not> mutating noEntriesSelected"
    by (simp add: noEntriesSelected_def mutating_facts)
  ultimately have m: "list_all (\<lambda>e. \<not> mutating e) (fst (deployCommand env raw))"
    using p by simp
  show "\<exists>pre. fst (deployCommand env raw) = pre @ [noEntriesSelected]
           \<and> list_all preflightOnly pre"
    using p k by blast
  show "list_all (\<lambda>e. \<not> mutating e) (fst (deployCommand env raw))"
    by (rule m)
  show "snd (deployCommand env raw) = Returned"
    by (rule r)
qed

theorem empty_target_set_returns_witness:
  "snd (identifyTargetEntries [''worker''] False exampleConfig) = []
   \<and> noEntriesSelected \<in> set (fst (deployCommand happyEnv [''worker'']))
   \<and> list_all (\<lambda>e. \<not> mutating e) (fst (deployCommand happyEnv [''worker'']))
   \<and> snd (deployCommand happyEnv [''worker'']) = Returned
   \<and> snd (deployCommand happyEnv [''worker'']) \<noteq> Exit 1"
proof -
  note T = empty_target_set_returns [of happyEnv "''a1b2c3d''" False False False exampleConfig
      Map.empty "[]" "[webApp]" "[''worker'']"]
  have t: "snd (identifyTargetEntries [''worker''] False exampleConfig) = []"
    by code_simp
  have i: "noEntriesSelected \<in> set (fst (deployCommand happyEnv [''worker'']))"
    by (simp add: noSuchApp_run noEntriesSelected_def)
  from T i have "list_all (\<lambda>e. \<not> mutating e) (fst (deployCommand happyEnv [''worker'']))
     \<and> snd (deployCommand happyEnv [''worker'']) = Returned"
    by blast
  then show ?thesis using t i by simp
qed

subsection \<open>Replacing a service\<close>

lemma callsOf_logs: "list_all (\<lambda>e. \<forall>c. e \<noteq> Call c) es \<Longrightarrow> callsOf es = []"
  by (induction es rule: callsOf.induct) simp_all

lemma callsOf_serviceEntryToContainerOptions:
  "callsOf (fst (serviceEntryToContainerOptions env svc sm project)) = []"
proof -
  have "accepts (\<lambda>c. False) (\<lambda>e. \<forall>c. e \<noteq> Call c)"
    by (simp add: accepts_def)
  then show ?thesis
    by (intro callsOf_logs plain_serviceEntryToContainerOptions)
qed

lemma container_name_serviceEntryToContainerOptions:
  "container_name (snd (serviceEntryToContainerOptions env svc sm project)) = name svc"
  by (simp add: serviceEntryToContainerOptions_def case_prod_unfold)

lemma replaceServiceContainer_eq:
  "replaceServiceContainer env svc s context h =
     (let n = name svc;
          p = serviceEntryToContainerOptions env svc (secrets context) (projectName context);
          warn = (\<lambda>e. Log (Warn (''Error stopping/removing old service container on '' @ s
                   @ '': '' @ String e)));
          old = (case stopContainer env h s n of
                   Inl e \<Rightarrow> [Call (StopContainer s n), warn e]
                 | Inr _ \<Rightarrow>
                     (case removeContainer env (h @ [Call (StopContainer s n)]) s n of
                        Inl e \<Rightarrow> [Call (StopContainer s n), Call (RemoveContainer s n), warn e]
                      | Inr _ \<Rightarrow> [Call (StopContainer s n), Call (RemoveContainer s n)]));
          pre = old @ fst p
                @ [Log (VerboseLog (''Starting new service container '' @ n @ '' on '' @ s))]
      in (pre @ [Call (CreateContainer s (snd p))],
          if createContainer env (h @ pre) s (snd p) then Inr ()
          else Inl (Error (''Failed to create container '' @ n))))"
  by (simp add: replaceServiceContainer_def run_defs Let_def split: sum.splits)

lemma mutations_of_session:
  "list_all (\<lambda>e. \<not> remoteMutation e) es \<Longrightarrow> filter mutationCall (callsOf es) = []"
  by (induction es rule: callsOf.induct) simp_all

lemma mutations_of_docker:
  "list_all (\<lambda>e. \<forall>c. e = Call c \<longrightarrow> mutationCall c) es
     \<Longrightarrow> filter mutationCall (callsOf es) = callsOf es"
  by (induction es rule: callsOf.induct) simp_all

lemma mutations_establishSSHConnection:
  "filter mutationCall (callsOf (fst (establishSSHConnection env s h))) = []"
proof -
  have "accepts sessionCall (\<lambda>e. \<not> remoteMutation e)"
    by (simp add: accepts_def session_not_mutation)
  then have "only (\<lambda>e. \<not> remoteMutation e) (establishSSHConnection env s)"
    by (rule only_establishSSHConnection)
  then show ?thesis
    by (intro mutations_of_session) (simp add: only_def)
qed

lemma mutations_authenticateAndPullImage:
  "filter mutationCall (callsOf (fst (authenticateAndPullImage env entry s context img h)))
     = callsOf (fst (authenticateAndPullImage env entry s context img h))"
proof -
  have "accepts mutationCall (\<lambda>e. \<forall>c. e = Call c \<longrightarrow> mutationCall c)"
    by (simp add: accepts_def)
  then have "only (\<lambda>e. \<forall>c. e = Call c \<longrightarrow> mutationCall c)
      (authenticateAndPullImage env entry s context img)"
    by (rule only_authenticateAndPullImage)
  then show ?thesis
    by (intro mutations_of_docker) (simp add: only_def)
qed

lemma mutations_replaceServiceContainer:
  "filter mutationCall (callsOf (fst (replaceServiceContainer env svc s context h)))
     = callsOf (fst (replaceServiceContainer env svc s context h))"
proof -
  have "accepts mutationCall (\<lambda>e. \<forall>c. e = Call c \<longrightarrow> mutationCall c)"
    by (simp add: accepts_def)
  then have "only (\<lambda>e. \<forall>c. e = Call c \<longrightarrow> mutationCall c)
      (replaceServiceContainer env svc s context)"
    by (rule only_replaceServiceContainer)
  then show ?thesis
    by (intro mutations_of_docker) (simp add: only_def)
qed

lemma seq_Inr: "m h = (es, Inr a) \<Longrightarrow> seq m n h = (es @ fst (n (h @ es)), snd (n (h @ es)))"
  by (simp add: seq_def andThen_def split: prod.splits)

lemma seq_Inl: "m h = (es, Inl e) \<Longrightarrow> seq m n h = (es, Inl e)"
  by (simp add: seq_def andThen_def)

lemma try_catch_Inl:
  "m h = (es, Inl e) \<Longrightarrow>
   try_catch m g h = (es @ fst (g e (h @ es)), snd (g e (h @ es)))"
  by (simp add: try_catch_def split: prod.splits)

lemma try_catch_Inr: "m h = (es, Inr a) \<Longrightarrow> try_catch m g h = (es, Inr a)"
  by (simp add: try_catch_def)

lemma attempt_Inl:
  "m h = (es, Inl e) \<Longrightarrow>
   attempt m g f h = (es @ fst (g e (h @ es)), snd (g e (h @ es)))"
  by (simp add: attempt_def split: prod.splits)

lemma attempt_Inr:
  "m h = (es, Inr a) \<Longrightarrow>
   attempt m g f h = (es @ fst (f a (h @ es)), snd (f a (h @ es)))"
  by (simp add: attempt_def split: prod.splits)

text \<open>
  The events and the value of deployServiceToServer, by the outcome of each step: opening
  the session, authentication and pull, replacement, prune.
\<close>

lemma deployServiceToServer_eq:
  "deployServiceToServer env svc s context h =
     (let start = Log (VerboseLog (''Deploying service '' @ name svc @ '' to server '' @ s));
          failed = (\<lambda>e. Log (LogError (''Failed to deploy service '' @ name svc @ '' to '' @ s)
                      (Some e)));
          pruning = Log (VerboseLog (''Pruning Docker resources on '' @ s));
          opened = establishSSHConnection env s (h @ [start]);
          h2 = h @ start # fst opened;
          a = authenticateAndPullImage env svc s context (imageRef svc) h2;
          r = replaceServiceContainer env svc s context (h2 @ fst a)
      in (start # fst opened
          @ (case snd opened of
               Inl e \<Rightarrow> [failed e]
             | Inr _ \<Rightarrow>
                 fst a
                 @ (case snd a of
                      Inl e \<Rightarrow> [failed e]
                    | Inr _ \<Rightarrow>
                        fst r
                        @ (case snd r of
                             Inl e \<Rightarrow> [failed e]
                           | Inr _ \<Rightarrow>
                               [pruning, Call (Prune s),
                                case dockerPrune env (h2 @ fst a @ fst r @ [pruning]) s of
                                  Inl e \<Rightarrow> failed e
                                | Inr _ \<Rightarrow>
                                    Log (VerboseLog (''Service '' @ name svc
                                      @ '' deployed successfully to '' @ s))]))
                 @ [Call (SSHClose s)]),
          Inr ()))"
proof -
  define start where
    "start = VerboseLog (''Deploying service '' @ name svc @ '' to server '' @ s)"
  define caught where "caught = (\<lambda>e. emit (LogError (''Failed to deploy service '' @ name svc
      @ '' to '' @ s) (Some e)))"
  define pruning where "pruning = VerboseLog (''Pruning Docker resources on '' @ s)"
  define finished where
    "finished = VerboseLog (''Service '' @ name svc @ '' deployed successfully to '' @ s)"
  define tail where "tail = seq (emit pruning)
      (seq (await (Prune s) (\<lambda>h. dockerPrune env h s)) (emit finished))"
  define body where "body =
      seq (authenticateAndPullImage env svc s context (imageRef svc))
     (seq (replaceServiceContainer env svc s context) tail)"
  define rest where "rest = (\<lambda>sshClient :: unit.
      seq (try_catch body caught) (await (SSHClose s) (\<lambda>h. Inr ())))"
  have unfold: "deployServiceToServer env svc s context =
      seq (emit start) (attempt (establishSSHConnection env s) caught rest)"
    unfolding deployServiceToServer_def Let_def start_def caught_def pruning_def finished_def
      tail_def body_def rest_def by (rule refl)
  have c: "caught e h' = ([Log (LogError (''Failed to deploy service '' @ name svc
      @ '' to '' @ s) (Some e))], Inr ())" for e h'
    by (simp add: caught_def emit_def)
  have t: "tail h' = (case dockerPrune env (h' @ [Log pruning]) s of
        Inl e \<Rightarrow> ([Log pruning, Call (Prune s)], Inl e)
      | Inr _ \<Rightarrow> ([Log pruning, Call (Prune s), Log finished], Inr ()))" for h'
    by (simp add: tail_def run_defs split: sum.splits)
  obtain ec rc where est: "establishSSHConnection env s (h @ [Log start]) = (ec, rc)"
    by (cases "establishSSHConnection env s (h @ [Log start])")
  define h2 where "h2 = h @ Log start # ec"
  obtain ea ra where a: "authenticateAndPullImage env svc s context (imageRef svc) h2 = (ea, ra)"
    by (cases "authenticateAndPullImage env svc s context (imageRef svc) h2")
  obtain er rr where r: "replaceServiceContainer env svc s context (h2 @ ea) = (er, rr)"
    by (cases "replaceServiceContainer env svc s context (h2 @ ea)")
  have top: "deployServiceToServer env svc s context h =
      (Log start # fst (attempt (establishSSHConnection env s) caught rest (h @ [Log start])),
       snd (attempt (establishSSHConnection env s) caught rest (h @ [Log start])))"
    unfolding unfold by (simp add: seq_def andThen_def emit_def split: prod.splits)
  have closing: "rest u h2 = (fst (try_catch body caught h2) @ [Call (SSHClose s)], Inr ())"
    if p: "snd (try_catch body caught h2) = Inr ()" for u
  proof -
    have "try_catch body caught h2 = (fst (try_catch body caught h2), Inr ())"
      using p by (cases "try_catch body caught h2") simp
    then obtain es where "try_catch body caught h2 = (es, Inr ())" ..
    then show ?thesis
      unfolding rest_def by (simp add: seq_Inr await_def)
  qed
  show ?thesis
  proof (cases rc)
    case (Inl e)
    have "attempt (establishSSHConnection env s) caught rest (h @ [Log start])
        = (ec @ [Log (LogError (''Failed to deploy service '' @ name svc
            @ '' to '' @ s) (Some e))], Inr ())"
      using est Inl by (simp add: attempt_Inl c)
    then show ?thesis
      using est Inl unfolding top by (simp add: Let_def start_def)
  next
    case (Inr u)
    have at: "attempt (establishSSHConnection env s) caught rest (h @ [Log start])
        = (ec @ fst (rest u h2), snd (rest u h2))"
      using est Inr by (simp add: attempt_Inr h2_def)
    show ?thesis
    proof (cases ra)
      case (Inl e)
      have "body h2 = (ea, Inl e)"
        unfolding body_def using a Inl by (simp add: seq_Inl)
      then have "try_catch body caught h2 = (ea @ [Log (LogError (''Failed to deploy service ''
          @ name svc @ '' to '' @ s) (Some e))], Inr ())"
        by (simp add: try_catch_Inl c)
      then have "rest u h2 = (ea @ [Log (LogError (''Failed to deploy service ''
          @ name svc @ '' to '' @ s) (Some e)), Call (SSHClose s)], Inr ())"
        using closing[of u] by simp
      then show ?thesis
        using est Inr a Inl unfolding top at
        by (simp add: Let_def start_def h2_def)
    next
      case ua: (Inr ua)
      have b1: "body h2 = (ea @ fst (seq (replaceServiceContainer env svc s context) tail
            (h2 @ ea)),
          snd (seq (replaceServiceContainer env svc s context) tail (h2 @ ea)))"
        unfolding body_def using a ua by (simp add: seq_Inr)
      show ?thesis
      proof (cases rr)
        case (Inl e)
        have "body h2 = (ea @ er, Inl e)"
          unfolding b1 using r Inl by (simp add: seq_Inl)
        then have "try_catch body caught h2 = ((ea @ er) @ [Log (LogError
            (''Failed to deploy service '' @ name svc @ '' to '' @ s) (Some e))], Inr ())"
          by (simp add: try_catch_Inl c)
        then have "rest u h2 = (ea @ er @ [Log (LogError (''Failed to deploy service ''
            @ name svc @ '' to '' @ s) (Some e)), Call (SSHClose s)], Inr ())"
          using closing[of u] by simp
        then show ?thesis
          using est Inr a ua r Inl unfolding top at
          by (simp add: Let_def start_def h2_def)
      next
        case ur: (Inr ur)
        have b2: "body h2 = (ea @ er @ fst (tail (h2 @ ea @ er)), snd (tail (h2 @ ea @ er)))"
          unfolding b1 using r ur by (simp add: seq_Inr)
        show ?thesis
        proof (cases "dockerPrune env (h2 @ ea @ er @ [Log pruning]) s")
          case (Inl e)
          have "body h2 = (ea @ er @ [Log pruning, Call (Prune s)], Inl e)"
            unfolding b2 using Inl by (simp add: t)
          then have "try_catch body caught h2 = ((ea @ er @ [Log pruning, Call (Prune s)])
              @ [Log (LogError (''Failed to deploy service '' @ name svc @ '' to '' @ s)
                   (Some e))], Inr ())"
            by (simp add: try_catch_Inl c)
          then have "rest u h2 = (ea @ er @ [Log pruning, Call (Prune s),
              Log (LogError (''Failed to deploy service '' @ name svc @ '' to '' @ s) (Some e)),
              Call (SSHClose s)], Inr ())"
            using closing[of u] by simp
          then show ?thesis
            using est Inr a ua r ur Inl unfolding top at
            by (simp add: Let_def start_def h2_def pruning_def)
        next
          case up: (Inr up)
          have "body h2 = (ea @ er @ [Log pruning, Call (Prune s), Log finished], Inr ())"
            unfolding b2 using up by (simp add: t)
          then have "try_catch body caught h2
              = (ea @ er @ [Log pruning, Call (Prune s), Log finished], Inr ())"
            by (simp add: try_catch_Inr)
          then have "rest u h2 = (ea @ er @ [Log pruning, Call (Prune s), Log finished,
              Call (SSHClose s)], Inr ())"
            using closing[of u] by simp
          then show ?thesis
            using est Inr a ua r ur up unfolding top at
            by (simp add: Let_def start_def h2_def pruning_def finished_def)
        qed
      qed
    qed
  qed
qed

lemma quietAfter_only: "only (\<lambda>e. \<forall>h. \<not> bad h e) m \<Longrightarrow> quietAfter bad Q m"
  using stopsOn_only[of bad m Q] by (simp add: stopsOn_def quietAfter_def)

lemma quietAfter_andThen:
  assumes "only (\<lambda>e. \<forall>h. \<not> bad h e) m" and "\<And>a. quietAfter bad Q (f a)"
  shows "quietAfter bad Q (andThen m f)"
  unfolding quietAfter_def
proof (intro allI impI)
  fix h pre x post
  assume a: "fst (andThen m f h) = pre @ x # post \<and> bad (h @ pre) x"
  obtain es r where mh: "m h = (es, r)" by (cases "m h")
  have clean: "\<forall>y\<in>set es. \<forall>h'. \<not> bad h' y"
    using assms(1) mh by (auto simp: only_def list_all_iff dest!: spec[of _ h])
  show "Q post"
  proof (cases r)
    case (Inl e)
    then have "andThen m f h = (es, Inl e)" using mh by (simp add: andThen_def)
    with a have "es = pre @ x # post" by simp
    with clean a show ?thesis by auto
  next
    case (Inr v)
    obtain es' r' where fh: "f v (h @ es) = (es', r')" by (cases "f v (h @ es)")
    have "andThen m f h = (es @ es', r')" using mh Inr fh by (simp add: andThen_def)
    with a have s: "es @ es' = pre @ x # post" by simp
    from split_append[OF s] show ?thesis
    proof
      assume "\<exists>post1. es = pre @ x # post1 \<and> post = post1 @ es'"
      with clean a show ?thesis by auto
    next
      assume "\<exists>pre'. pre = es @ pre' \<and> es' = pre' @ x # post"
      then obtain pre' where p: "pre = es @ pre'" and e: "es' = pre' @ x # post" by blast
      have "fst (f v (h @ es)) = pre' @ x # post" using fh e by simp
      moreover have "bad ((h @ es) @ pre') x" using a p by simp
      ultimately show ?thesis using assms(2)[of v] unfolding quietAfter_def by blast
    qed
  qed
qed

lemma quietAfter_seq:
  "only (\<lambda>e. \<forall>h. \<not> bad h e) m \<Longrightarrow> quietAfter bad Q n \<Longrightarrow> quietAfter bad Q (seq m n)"
  by (simp add: seq_def quietAfter_andThen)

text \<open>A \<^verbatim>\<open>catch\<close> that logs a line and goes on.\<close>

lemma quietAfter_attempt:
  assumes "stopsOn bad Q0 m"
    and "\<And>e h. \<not> bad h (Log (l e))"
    and "\<And>e post. Q0 post \<Longrightarrow> Q (post @ [Log (l e)])"
    and "\<And>a. quietAfter bad Q (f a)"
  shows "quietAfter bad Q (attempt m (\<lambda>e. emit (l e)) f)"
  unfolding quietAfter_def
proof (intro allI impI)
  fix h pre x post
  let ?t = "attempt m (\<lambda>e. emit (l e)) f"
  assume a: "fst (?t h) = pre @ x # post \<and> bad (h @ pre) x"
  obtain es r where mh: "m h = (es, r)" by (cases "m h")
  show "Q post"
  proof (cases r)
    case (Inl e)
    then have "?t h = (es @ [Log (l e)], Inr ())"
      using mh by (simp add: attempt_def emit_def)
    with a have s: "es @ [Log (l e)] = pre @ x # post" by simp
    from split_append[OF s] show ?thesis
    proof
      assume "\<exists>post1. es = pre @ x # post1 \<and> post = post1 @ [Log (l e)]"
      then obtain post1 where p: "es = pre @ x # post1" and q: "post = post1 @ [Log (l e)]"
        by blast
      have "fst (m h) = pre @ x # post1" using mh p by simp
      with a assms(1) have "Q0 post1" unfolding stopsOn_def by blast
      then show ?thesis unfolding q by (rule assms(3))
    next
      assume "\<exists>pre'. pre = es @ pre' \<and> [Log (l e)] = pre' @ x # post"
      then obtain pre' where "[Log (l e)] = pre' @ x # post" by blast
      then have "x = Log (l e)" by (simp add: Cons_eq_append_conv)
      with a assms(2) show ?thesis by blast
    qed
  next
    case (Inr v)
    obtain es' r' where fh: "f v (h @ es) = (es', r')" by (cases "f v (h @ es)")
    have "?t h = (es @ es', r')" using mh Inr fh by (simp add: attempt_def)
    with a have s: "es @ es' = pre @ x # post" by simp
    from split_append[OF s] show ?thesis
    proof
      assume "\<exists>post1. es = pre @ x # post1 \<and> post = post1 @ es'"
      then obtain post1 where "fst (m h) = pre @ x # post1" using mh by auto
      with a assms(1) have "\<exists>e. snd (m h) = Inl e" unfolding stopsOn_def by blast
      with mh Inr show ?thesis by simp
    next
      assume "\<exists>pre'. pre = es @ pre' \<and> es' = pre' @ x # post"
      then obtain pre' where p: "pre = es @ pre'" and e: "es' = pre' @ x # post" by blast
      have "fst (f v (h @ es)) = pre' @ x # post" using fh e by simp
      moreover have "bad ((h @ es) @ pre') x" using a p by simp
      ultimately show ?thesis using assms(4)[of v] unfolding quietAfter_def by blast
    qed
  qed
qed

lemma quietAfter_ret: "quietAfter bad Q (ret a)"
  by (simp add: quietAfter_def ret_def)

lemma quietAfter_caught:
  assumes "stopsOn bad Q0 m"
    and "\<And>e h. \<not> bad h (Log (l e))"
    and "\<And>e post. Q0 post \<Longrightarrow> Q (post @ [Log (l e)])"
  shows "quietAfter bad Q (try_catch m (\<lambda>e. emit (l e)))"
  unfolding try_catch_attempt
proof (rule quietAfter_attempt[where ?Q0.0 = Q0 and l = l])
  show "stopsOn bad Q0 m" by (rule assms(1))
  show "\<not> bad h (Log (l e))" for e h by (rule assms(2))
  show "Q (post @ [Log (l e)])" if "Q0 post" for e post using that by (rule assms(3))
  show "quietAfter bad Q (ret a)" for a by (rule quietAfter_ret)
qed

lemma caught_returns: "\<exists>a. snd (try_catch m (\<lambda>e. emit (l e)) h) = Inr a"
  by (cases "m h"; cases "snd (m h)") (auto simp: try_catch_def emit_def)

text \<open>The \<^verbatim>\<open>finally\<close> that closes the session after a part that does not throw.\<close>

lemma quietAfter_closing:
  assumes "quietAfter bad Q0 m"
    and "\<And>h. \<exists>a. snd (m h) = Inr a"
    and "\<And>h. \<not> bad h (Call c)"
    and "\<And>post. Q0 post \<Longrightarrow> Q (post @ [Call c])"
  shows "quietAfter bad Q (seq m (await c (\<lambda>h. Inr ())))"
  unfolding quietAfter_def
proof (intro allI impI)
  fix h pre x post
  assume a: "fst (seq m (await c (\<lambda>h. Inr ())) h) = pre @ x # post \<and> bad (h @ pre) x"
  obtain v where "snd (m h) = Inr v" using assms(2)[of h] by blast
  then obtain es where mh: "m h = (es, Inr v)" by (cases "m h") auto
  have "seq m (await c (\<lambda>h. Inr ())) h = (es @ [Call c], Inr ())"
    using mh by (simp add: seq_def andThen_def await_def)
  with a mh have s: "fst (m h) @ [Call c] = pre @ x # post" by simp
  from split_append[OF s] show "Q post"
  proof
    assume "\<exists>post1. fst (m h) = pre @ x # post1 \<and> post = post1 @ [Call c]"
    then obtain post1 where p: "fst (m h) = pre @ x # post1" and q: "post = post1 @ [Call c]"
      by blast
    from p a assms(1) have "Q0 post1" unfolding quietAfter_def by blast
    then show ?thesis unfolding q by (rule assms(4))
  next
    assume "\<exists>pre'. pre = fst (m h) @ pre' \<and> [Call c] = pre' @ x # post"
    then obtain pre' where "[Call c] = pre' @ x # post" by blast
    then have "x = Call c" by (simp add: Cons_eq_append_conv)
    with a assms(3) show ?thesis by blast
  qed
qed

lemma only_authenticateAndPullImage_calls:
  assumes "\<And>l. P (Log l)" and "\<And>reg u p. P (Call (DockerLogin s reg u p))"
    and "P (Call (PullImage s img))" and "\<And>reg. P (Call (DockerLogout s reg))"
  shows "only P (authenticateAndPullImage env entry s context img)"
  unfolding authenticateAndPullImage_def Let_def
  by (intro only_intros only_performRegistryLogin_login assms)

lemma only_replaceServiceContainer_calls:
  assumes "\<And>l. P (Log l)" and "\<And>n. P (Call (StopContainer s n))"
    and "\<And>n. P (Call (RemoveContainer s n))" and "\<And>opts. P (Call (CreateContainer s opts))"
  shows "only P (replaceServiceContainer env svc s context)"
proof -
  have a: "accepts (\<lambda>c. False) P" using assms(1) by (simp add: accepts_def)
  show ?thesis
    unfolding replaceServiceContainer_def Let_def
    by (intro only_intros only_sync plain_serviceEntryToContainerOptions[OF a] assms)
qed

text \<open>After a failure of the session, the pull or the logout.\<close>

lemma quietAfter_deployServiceToServer:
  "quietAfter (\<lambda>h x. deployFails env h x \<or> connectFails env h x) (list_all windingDown)
     (deployServiceToServer env svc s context)"
proof -
  let ?bad = "\<lambda>h x. deployFails env h x \<or> connectFails env h x"
  have l: "only (\<lambda>e. \<forall>h. \<not> ?bad h e) (emit x)" for x
    by (intro only_emit) simp
  have r: "only (\<lambda>e. \<forall>h. \<not> ?bad h e) (replaceServiceContainer env svc s context)"
    by (rule only_replaceServiceContainer_calls) simp_all
  have p: "only (\<lambda>e. \<forall>h. \<not> ?bad h e) (await (Prune s) (\<lambda>h. dockerPrune env h s))"
    by (intro only_await) simp
  have body: "stopsOn ?bad (list_all windingDown)
     (seq (authenticateAndPullImage env svc s context (imageRef svc))
       (seq (replaceServiceContainer env svc s context)
         (seq (emit (VerboseLog (''Pruning Docker resources on '' @ s)))
           (seq (await (Prune s) (\<lambda>h. dockerPrune env h s))
             (emit (VerboseLog (''Service '' @ name svc @ '' deployed successfully to ''
                @ s)))))))"
    by (intro stopsOn_seq stopsOn_authenticateAndPullImage stopsOn_only[OF r]
          stopsOn_only[OF l] stopsOn_only[OF p])
  show ?thesis
    unfolding deployServiceToServer_def Let_def
  proof (rule quietAfter_seq[OF l], rule quietAfter_attempt[OF stopsOn_establishSSHConnection])
    fix a :: unit
    show "quietAfter ?bad (list_all windingDown)
          (seq (try_catch
                 (seq (authenticateAndPullImage env svc s context (imageRef svc))
                   (seq (replaceServiceContainer env svc s context)
                     (seq (emit (VerboseLog (''Pruning Docker resources on '' @ s)))
                       (seq (await (Prune s) (\<lambda>h. dockerPrune env h s))
                         (emit (VerboseLog (''Service '' @ name svc
                            @ '' deployed successfully to '' @ s)))))))
                 (\<lambda>serverError.
                     emit (LogError (''Failed to deploy service '' @ name svc @ '' to '' @ s)
                        (Some serverError))))
            (await (SSHClose s) (\<lambda>h. Inr ())))"
      by (rule quietAfter_closing[OF quietAfter_caught[OF body] caught_returns]) simp_all
  qed simp_all
qed

text \<open>After a create that reports failure.\<close>

lemma createFails_mutationCall: "\<not> mutationCall c \<Longrightarrow> \<not> createFails env h (Call c)"
  by (cases c) simp_all

lemma stopsOn_create_replaceServiceContainer:
  "stopsOn (createFails env) (\<lambda>post. post = []) (replaceServiceContainer env svc s context)"
proof -
  have l: "only (\<lambda>e. \<forall>h. \<not> createFails env h e) (emit x)" for x
    by (intro only_emit) simp
  have old: "only (\<lambda>e. \<forall>h. \<not> createFails env h e)
      (try_catch
         (seq (await (StopContainer s (name svc)) (\<lambda>h. stopContainer env h s (name svc)))
              (await (RemoveContainer s (name svc)) (\<lambda>h. removeContainer env h s (name svc))))
         (\<lambda>e. emit (Warn (''Error stopping/removing old service container on '' @ s @ '': ''
                  @ String e))))"
    by (intro only_intros) simp_all
  have opts: "only (\<lambda>e. \<forall>h. \<not> createFails env h e)
      (sync (serviceEntryToContainerOptions env svc (secrets context) (projectName context)))"
    by (intro only_sync plain_serviceEntryToContainerOptions[of "\<lambda>c. False"])
       (simp add: accepts_def)
  have create: "stopsOn (createFails env) (\<lambda>post. post = [])
      (andThen (await (CreateContainer s o') (\<lambda>h. Inr (createContainer env h s o')))
         (\<lambda>createSuccess.
            if \<not> createSuccess then throw (Error (''Failed to create container '' @ name svc))
            else ret ()))" for o'
  proof (rule stopsOn_await_checked)
    fix h
    assume "createFails env h (Call (CreateContainer s o'))"
    then show "(\<exists>e. snd ((if \<not> createContainer env h s o'
                 then throw (Error (''Failed to create container '' @ name svc)) else ret ())
                (h @ [Call (CreateContainer s o')])) = Inl e)
        \<and> fst ((if \<not> createContainer env h s o'
                 then throw (Error (''Failed to create container '' @ name svc)) else ret ())
                (h @ [Call (CreateContainer s o')])) = []"
      by (simp add: throw_def)
  next
    fix a :: bool
    show "stopsOn (createFails env) (\<lambda>post. post = [])
        (if \<not> a then throw (Error (''Failed to create container '' @ name svc)) else ret ())"
      by (intro stopsOn_if stopsOn_only only_throw only_ret)
  qed
  show ?thesis
    unfolding replaceServiceContainer_def Let_def
    by (intro stopsOn_seq stopsOn_andThen stopsOn_only[OF old] stopsOn_only[OF opts]
          stopsOn_only[OF l] create)
qed

lemma quietAfter_create_deployServiceToServer:
  "quietAfter (createFails env)
     (\<lambda>post. \<exists>err. post = [Log (LogError (''Failed to deploy service '' @ name svc @ '' to ''
                 @ s) (Some err)), Call (SSHClose s)])
     (deployServiceToServer env svc s context)"
proof -
  let ?bad = "createFails env"
  have l: "only (\<lambda>e. \<forall>h. \<not> ?bad h e) (emit x)" for x
    by (intro only_emit) simp
  have a: "only (\<lambda>e. \<forall>h. \<not> ?bad h e)
      (authenticateAndPullImage env svc s context (imageRef svc))"
    by (rule only_authenticateAndPullImage_calls) simp_all
  have p: "only (\<lambda>e. \<forall>h. \<not> ?bad h e) (await (Prune s) (\<lambda>h. dockerPrune env h s))"
    by (intro only_await) simp
  have est: "stopsOn ?bad (\<lambda>post. False) (establishSSHConnection env s)"
    by (rule stopsOn_only, rule only_establishSSHConnection)
       (simp add: accepts_def createFails_mutationCall session_not_mutation)
  have body: "stopsOn ?bad (\<lambda>post. post = [])
     (seq (authenticateAndPullImage env svc s context (imageRef svc))
       (seq (replaceServiceContainer env svc s context)
         (seq (emit (VerboseLog (''Pruning Docker resources on '' @ s)))
           (seq (await (Prune s) (\<lambda>h. dockerPrune env h s))
             (emit (VerboseLog (''Service '' @ name svc @ '' deployed successfully to ''
                @ s)))))))"
    by (intro stopsOn_seq stopsOn_create_replaceServiceContainer stopsOn_only[OF a]
          stopsOn_only[OF l] stopsOn_only[OF p])
  show ?thesis
    unfolding deployServiceToServer_def Let_def
  proof (rule quietAfter_seq[OF l], rule quietAfter_attempt[OF est])
    fix u :: unit
    show "quietAfter ?bad
          (\<lambda>post. \<exists>err. post = [Log (LogError (''Failed to deploy service '' @ name svc
                 @ '' to '' @ s) (Some err)), Call (SSHClose s)])
          (seq (try_catch
                 (seq (authenticateAndPullImage env svc s context (imageRef svc))
                   (seq (replaceServiceContainer env svc s context)
                     (seq (emit (VerboseLog (''Pruning Docker resources on '' @ s)))
                       (seq (await (Prune s) (\<lambda>h. dockerPrune env h s))
                         (emit (VerboseLog (''Service '' @ name svc
                            @ '' deployed successfully to '' @ s)))))))
                 (\<lambda>serverError.
                     emit (LogError (''Failed to deploy service '' @ name svc @ '' to '' @ s)
                        (Some serverError))))
            (await (SSHClose s) (\<lambda>h. Inr ())))"
      by (rule quietAfter_closing[OF quietAfter_caught[OF body,
            where Q = "\<lambda>post. \<exists>err. post = [Log (LogError (''Failed to deploy service ''
               @ name svc @ '' to '' @ s) (Some err))]"] caught_returns]) simp_all
  qed simp_all
qed

lemma noPriorContainer_run:
  "deployServiceToServer noPriorContainerEnv dbService ''s1''
       (contextOf exampleConfig Map.empty [dbService] True) [] =
     ([Log (VerboseLog ''Deploying service db to server s1''),
       Call (GetSSHCredentials ''s1''), Call (SSHClientCreate ''s1''),
       Call (SSHConnect ''s1''),
       Log (VerboseLog ''SSH connection established to s1''),
       Log (VerboseLog ''Pulling image postgres:15...''),
       Call (PullImage ''s1'' ''postgres:15''),
       Call (StopContainer ''s1'' ''db''),
       Log (Warn
         ''Error stopping/removing old service container on s1: Error: No such container: db''),
       Log (VerboseLog ''Starting new service container db on s1''),
       Call (CreateContainer ''s1''
         \<lparr>container_name = ''db'', container_image = ''postgres:15'', envVars = [],
          network = ''acme-network'', networkAlias = None, restart = ''unless-stopped''\<rparr>),
       Log (VerboseLog ''Pruning Docker resources on s1''), Call (Prune ''s1''),
       Log (VerboseLog ''Service db deployed successfully to s1''),
       Call (SSHClose ''s1'')],
      Inr ())"
  by code_simp

lemma createFails_run:
  "deployServiceToServer createFailsEnv dbService ''s1''
       (contextOf exampleConfig Map.empty [dbService] True) [] =
     ([Log (VerboseLog ''Deploying service db to server s1''),
       Call (GetSSHCredentials ''s1''), Call (SSHClientCreate ''s1''),
       Call (SSHConnect ''s1''),
       Log (VerboseLog ''SSH connection established to s1''),
       Log (VerboseLog ''Pulling image postgres:15...''),
       Call (PullImage ''s1'' ''postgres:15''),
       Call (StopContainer ''s1'' ''db''), Call (RemoveContainer ''s1'' ''db''),
       Log (VerboseLog ''Starting new service container db on s1''),
       Call (CreateContainer ''s1''
         \<lparr>container_name = ''db'', container_image = ''postgres:15'', envVars = [],
          network = ''acme-network'', networkAlias = None, restart = ''unless-stopped''\<rparr>),
       Log (LogError ''Failed to deploy service db to s1''
              (Some (Error ''Failed to create container db''))),
       Call (SSHClose ''s1'')],
      Inr ())"
  by code_simp

lemma pullFails_service_run:
  "deployServiceToServer pullFailsEnv dbService ''s1''
       (contextOf exampleConfig Map.empty [dbService] True) [] =
     ([Log (VerboseLog ''Deploying service db to server s1''),
       Call (GetSSHCredentials ''s1''), Call (SSHClientCreate ''s1''),
       Call (SSHConnect ''s1''),
       Log (VerboseLog ''SSH connection established to s1''),
       Log (VerboseLog ''Pulling image postgres:15...''),
       Call (PullImage ''s1'' ''postgres:15''),
       Log (LogError ''Failed to deploy service db to s1''
              (Some (Error ''Failed to pull image postgres:15''))),
       Call (SSHClose ''s1'')],
      Inr ())"
  by code_simp

text \<open>
  Claim C6. replaceServiceContainer stops and removes the container named after the
  service, then creates a container with that name: its calls are stop, remove, create,
  or stop, create when the stop throws. When the stop or the remove throws, the error is
  logged as a warning and the create is still made; whether replaceServiceContainer
  throws depends on the answer of the create alone, and it throws exactly when the create
  reports failure. deployServiceToServer never throws. The calls it makes that change the
  host are, in this order, those of authentication and pull, then, if that did not throw,
  those of replaceServiceContainer, then, if that did not throw, the prune; none if the
  session could not be opened; and when the session was opened its last event closes it.
  After a create that reports failure deployServiceToServer logs the error and closes the
  session, and nothing else: no prune. After a pull that reports failure, a logout that
  throws or a call that opens the session and throws, it adds only log lines, a logout
  and the close of the session: no stop, no remove, no create, no prune.
\<close>

theorem service_replacement_order:
  "(let n = name svc;
        opts = snd (serviceEntryToContainerOptions env svc (secrets context)
                 (projectName context));
        r = replaceServiceContainer env svc s context h;
        warn = (\<lambda>e. Log (Warn (''Error stopping/removing old service container on '' @ s
                 @ '': '' @ String e)))
    in container_name opts = n
       \<and> (callsOf (fst r) = [StopContainer s n, RemoveContainer s n, CreateContainer s opts]
          \<or> callsOf (fst r) = [StopContainer s n, CreateContainer s opts])
       \<and> (\<forall>e. stopContainer env h s n = Inl e \<longrightarrow>
             callsOf (fst r) = [StopContainer s n, CreateContainer s opts]
             \<and> warn e \<in> set (fst r))
       \<and> (\<forall>u. stopContainer env h s n = Inr u \<longrightarrow>
             callsOf (fst r) = [StopContainer s n, RemoveContainer s n, CreateContainer s opts]
             \<and> (\<forall>e. removeContainer env (h @ [Call (StopContainer s n)]) s n = Inl e \<longrightarrow>
                   warn e \<in> set (fst r)))
       \<and> (\<exists>pre. fst r = pre @ [Call (CreateContainer s opts)]
             \<and> snd r = (if createContainer env (h @ pre) s opts then Inr ()
                        else Inl (Error (''Failed to create container '' @ n)))))
   \<and> snd (deployServiceToServer env svc s context h) = Inr ()
   \<and> (let start = Log (VerboseLog (''Deploying service '' @ name svc @ '' to server '' @ s));
          opened = establishSSHConnection env s (h @ [start]);
          h2 = h @ start # fst opened;
          a = authenticateAndPullImage env svc s context (imageRef svc) h2;
          r = replaceServiceContainer env svc s context (h2 @ fst a);
          tr = fst (deployServiceToServer env svc s context h)
      in filter mutationCall (callsOf tr) =
           (case snd opened of
              Inl _ \<Rightarrow> []
            | Inr _ \<Rightarrow>
                callsOf (fst a)
                @ (case snd a of
                     Inl _ \<Rightarrow> []
                   | Inr _ \<Rightarrow>
                       callsOf (fst r) @ (case snd r of Inl _ \<Rightarrow> [] | Inr _ \<Rightarrow> [Prune s])))
         \<and> (\<forall>c. snd opened = Inr c \<longrightarrow> last tr = Call (SSHClose s)))
   \<and> (fst (deployServiceToServer env svc s context h) = pre @ x # post
        \<and> createFails env (h @ pre) x \<longrightarrow>
        (\<exists>err. post = [Log (LogError (''Failed to deploy service '' @ name svc @ '' to '' @ s)
                         (Some err)), Call (SSHClose s)]))
   \<and> (fst (deployServiceToServer env svc s context h) = p @ y # q
        \<and> (deployFails env (h @ p) y \<or> connectFails env (h @ p) y) \<longrightarrow>
        list_all windingDown q)"
proof (intro conjI impI)
  show "let n = name svc;
        opts = snd (serviceEntryToContainerOptions env svc (secrets context)
                 (projectName context));
        r = replaceServiceContainer env svc s context h;
        warn = (\<lambda>e. Log (Warn (''Error stopping/removing old service container on '' @ s
                 @ '': '' @ String e)))
    in container_name opts = n
       \<and> (callsOf (fst r) = [StopContainer s n, RemoveContainer s n, CreateContainer s opts]
          \<or> callsOf (fst r) = [StopContainer s n, CreateContainer s opts])
       \<and> (\<forall>e. stopContainer env h s n = Inl e \<longrightarrow>
             callsOf (fst r) = [StopContainer s n, CreateContainer s opts]
             \<and> warn e \<in> set (fst r))
       \<and> (\<forall>u. stopContainer env h s n = Inr u \<longrightarrow>
             callsOf (fst r) = [StopContainer s n, RemoveContainer s n, CreateContainer s opts]
             \<and> (\<forall>e. removeContainer env (h @ [Call (StopContainer s n)]) s n = Inl e \<longrightarrow>
                   warn e \<in> set (fst r)))
       \<and> (\<exists>pre. fst r = pre @ [Call (CreateContainer s opts)]
             \<and> snd r = (if createContainer env (h @ pre) s opts then Inr ()
                        else Inl (Error (''Failed to create container '' @ n))))"
    by (simp add: replaceServiceContainer_eq Let_def callsOf_serviceEntryToContainerOptions
          container_name_serviceEntryToContainerOptions split: sum.splits)
next
  show "snd (deployServiceToServer env svc s context h) = Inr ()"
    by (simp add: deployServiceToServer_eq Let_def)
next
  show "let start = Log (VerboseLog (''Deploying service '' @ name svc @ '' to server '' @ s));
          opened = establishSSHConnection env s (h @ [start]);
          h2 = h @ start # fst opened;
          a = authenticateAndPullImage env svc s context (imageRef svc) h2;
          r = replaceServiceContainer env svc s context (h2 @ fst a);
          tr = fst (deployServiceToServer env svc s context h)
      in filter mutationCall (callsOf tr) =
           (case snd opened of
              Inl _ \<Rightarrow> []
            | Inr _ \<Rightarrow>
                callsOf (fst a)
                @ (case snd a of
                     Inl _ \<Rightarrow> []
                   | Inr _ \<Rightarrow>
                       callsOf (fst r) @ (case snd r of Inl _ \<Rightarrow> [] | Inr _ \<Rightarrow> [Prune s])))
         \<and> (\<forall>c. snd opened = Inr c \<longrightarrow> last tr = Call (SSHClose s))"
    by (simp add: deployServiceToServer_eq Let_def mutations_establishSSHConnection
          mutations_authenticateAndPullImage mutations_replaceServiceContainer
          split: sum.splits)
next
  assume "fst (deployServiceToServer env svc s context h) = pre @ x # post
        \<and> createFails env (h @ pre) x"
  then show "\<exists>err. post = [Log (LogError (''Failed to deploy service '' @ name svc @ '' to ''
                 @ s) (Some err)), Call (SSHClose s)]"
    using quietAfter_create_deployServiceToServer[of env svc s "context"]
    unfolding quietAfter_def by blast
next
  assume "fst (deployServiceToServer env svc s context h) = p @ y # q
        \<and> (deployFails env (h @ p) y \<or> connectFails env (h @ p) y)"
  then show "list_all windingDown q"
    using quietAfter_deployServiceToServer[of env svc s "context"]
    unfolding quietAfter_def by blast
qed

theorem service_replacement_order_witness:
  "callsOf (fst (replaceServiceContainer noPriorContainerEnv dbService ''s1''
       (contextOf exampleConfig Map.empty [dbService] True) []))
     = [StopContainer ''s1'' ''db'',
        CreateContainer ''s1''
          \<lparr>container_name = ''db'', container_image = ''postgres:15'', envVars = [],
           network = ''acme-network'', networkAlias = None, restart = ''unless-stopped''\<rparr>]
   \<and> Log (Warn
        ''Error stopping/removing old service container on s1: Error: No such container: db'')
       \<in> set (fst (replaceServiceContainer noPriorContainerEnv dbService ''s1''
            (contextOf exampleConfig Map.empty [dbService] True) []))
   \<and> snd (deployServiceToServer noPriorContainerEnv dbService ''s1''
        (contextOf exampleConfig Map.empty [dbService] True) []) = Inr ()
   \<and> last (fst (deployServiceToServer noPriorContainerEnv dbService ''s1''
        (contextOf exampleConfig Map.empty [dbService] True) [])) = Call (SSHClose ''s1'')
   \<and> filter mutationCall (callsOf (fst (deployServiceToServer noPriorContainerEnv dbService
        ''s1'' (contextOf exampleConfig Map.empty [dbService] True) [])))
     = [PullImage ''s1'' ''postgres:15'', StopContainer ''s1'' ''db'',
        CreateContainer ''s1''
          \<lparr>container_name = ''db'', container_image = ''postgres:15'', envVars = [],
           network = ''acme-network'', networkAlias = None, restart = ''unless-stopped''\<rparr>,
        Prune ''s1'']
   \<and> callsOf (fst (replaceServiceContainer createFailsEnv dbService ''s1''
       (contextOf exampleConfig Map.empty [dbService] True) []))
     = [StopContainer ''s1'' ''db'', RemoveContainer ''s1'' ''db'',
        CreateContainer ''s1''
          \<lparr>container_name = ''db'', container_image = ''postgres:15'', envVars = [],
           network = ''acme-network'', networkAlias = None, restart = ''unless-stopped''\<rparr>]
   \<and> createFails createFailsEnv
        (take 10 (fst (deployServiceToServer createFailsEnv dbService ''s1''
           (contextOf exampleConfig Map.empty [dbService] True) [])))
        (Call (CreateContainer ''s1''
          \<lparr>container_name = ''db'', container_image = ''postgres:15'', envVars = [],
           network = ''acme-network'', networkAlias = None, restart = ''unless-stopped''\<rparr>))
   \<and> drop 11 (fst (deployServiceToServer createFailsEnv dbService ''s1''
           (contextOf exampleConfig Map.empty [dbService] True) []))
     = [Log (LogError ''Failed to deploy service db to s1''
               (Some (Error ''Failed to create container db''))),
        Call (SSHClose ''s1'')]
   \<and> deployFails pullFailsEnv
        (take 6 (fst (deployServiceToServer pullFailsEnv dbService ''s1''
           (contextOf exampleConfig Map.empty [dbService] True) [])))
        (Call (PullImage ''s1'' ''postgres:15''))
   \<and> drop 7 (fst (deployServiceToServer pullFailsEnv dbService ''s1''
           (contextOf exampleConfig Map.empty [dbService] True) []))
     = [Log (LogError ''Failed to deploy service db to s1''
               (Some (Error ''Failed to pull image postgres:15''))),
        Call (SSHClose ''s1'')]
   \<and> list_all windingDown (drop 7 (fst (deployServiceToServer pullFailsEnv dbService ''s1''
           (contextOf exampleConfig Map.empty [dbService] True) [])))"
proof -
  let ?c = "contextOf exampleConfig Map.empty [dbService] True"
  let ?o = "\<lparr>container_name = ''db'', container_image = ''postgres:15'', envVars = [],
           network = ''acme-network'', networkAlias = None, restart = ''unless-stopped''\<rparr>"
  let ?t1 = "fst (deployServiceToServer noPriorContainerEnv dbService ''s1'' ?c [])"
  let ?t2 = "fst (deployServiceToServer createFailsEnv dbService ''s1'' ?c [])"
  let ?t3 = "fst (deployServiceToServer pullFailsEnv dbService ''s1'' ?c [])"
  note T1 = service_replacement_order [of dbService noPriorContainerEnv ?c "''s1''" "[]"]
  note T2 = service_replacement_order [of dbService createFailsEnv ?c "''s1''" "[]"
      "take 10 ?t2" "Call (CreateContainer ''s1'' ?o)" "drop 11 ?t2"]
  note T3 = service_replacement_order [of dbService pullFailsEnv ?c "''s1''" "[]"
      "[]" "Log (Phase [])" "[]" "take 6 ?t3" "Call (PullImage ''s1'' ''postgres:15'')"
      "drop 7 ?t3"]
  have o: "snd (serviceEntryToContainerOptions noPriorContainerEnv dbService (secrets ?c)
      (projectName ?c)) = ?o"
    by code_simp
  have o2: "snd (serviceEntryToContainerOptions createFailsEnv dbService (secrets ?c)
      (projectName ?c)) = ?o"
    by code_simp
  have st: "stopContainer noPriorContainerEnv [] ''s1'' (name dbService)
      = Inl (Error ''No such container: db'')"
    by (simp add: noPriorContainerEnv_def happyEnv_def dbService_def)
  have st2: "stopContainer createFailsEnv [] ''s1'' (name dbService) = Inr ()"
    by (simp add: createFailsEnv_def happyEnv_def)
  have w: "Log (Warn (''Error stopping/removing old service container on '' @ ''s1''
                 @ '': '' @ String (Error ''No such container: db'')))
      = Log (Warn
        ''Error stopping/removing old service container on s1: Error: No such container: db'')"
    by simp
  have A: "callsOf (fst (replaceServiceContainer noPriorContainerEnv dbService ''s1'' ?c []))
     = [StopContainer ''s1'' ''db'', CreateContainer ''s1'' ?o]
     \<and> Log (Warn
        ''Error stopping/removing old service container on s1: Error: No such container: db'')
       \<in> set (fst (replaceServiceContainer noPriorContainerEnv dbService ''s1'' ?c []))"
    using T1 st unfolding Let_def o w [symmetric] by (simp add: dbService_def)
  have A2: "callsOf (fst (replaceServiceContainer createFailsEnv dbService ''s1'' ?c []))
     = [StopContainer ''s1'' ''db'', RemoveContainer ''s1'' ''db'', CreateContainer ''s1'' ?o]"
    using T2 st2 unfolding Let_def o2 by (simp add: dbService_def)
  have B: "snd (deployServiceToServer noPriorContainerEnv dbService ''s1'' ?c []) = Inr ()"
    using T1 by blast
  have op: "snd (establishSSHConnection noPriorContainerEnv ''s1''
      ([] @ [Log (VerboseLog (''Deploying service '' @ name dbService @ '' to server ''
         @ ''s1''))])) = Inr ()"
    by code_simp
  have L: "last ?t1 = Call (SSHClose ''s1'')"
    using T1 op unfolding Let_def by blast
  have C: "filter mutationCall (callsOf ?t1)
     = [PullImage ''s1'' ''postgres:15'', StopContainer ''s1'' ''db'',
        CreateContainer ''s1'' ?o, Prune ''s1'']"
    by (simp add: noPriorContainer_run)
  have sp: "?t2 = take 10 ?t2 @ Call (CreateContainer ''s1'' ?o) # drop 11 ?t2"
    by (simp add: createFails_run)
  have cf: "createFails createFailsEnv ([] @ take 10 ?t2) (Call (CreateContainer ''s1'' ?o))"
    by (simp add: createFailsEnv_def happyEnv_def)
  have D: "\<exists>err. drop 11 ?t2 = [Log (LogError (''Failed to deploy service '' @ name dbService
      @ '' to '' @ ''s1'') (Some err)), Call (SSHClose ''s1'')]"
    using T2 sp cf by blast
  have E: "drop 11 ?t2 = [Log (LogError ''Failed to deploy service db to s1''
               (Some (Error ''Failed to create container db''))), Call (SSHClose ''s1'')]"
    using D by (simp add: createFails_run)
  have sp3: "?t3 = take 6 ?t3 @ Call (PullImage ''s1'' ''postgres:15'') # drop 7 ?t3"
    by (simp add: pullFails_service_run)
  have pf: "deployFails pullFailsEnv ([] @ take 6 ?t3) (Call (PullImage ''s1'' ''postgres:15''))"
    by (simp add: pullFailsEnv_def happyEnv_def)
  have F: "list_all windingDown (drop 7 ?t3)"
    using T3 sp3 pf by blast
  have G: "drop 7 ?t3 = [Log (LogError ''Failed to deploy service db to s1''
               (Some (Error ''Failed to pull image postgres:15''))), Call (SSHClose ''s1'')]"
    by (simp add: pullFails_service_run)
  show ?thesis
    using A A2 B L C E cf F G pf by simp
qed

end
